(* ===== verification/Prelude.thy ===== *)
theory Prelude
  imports Complex_Main "HOL-Library.AList" "HOL-Library.Word" "HOL-Library.List_Lexorder"
    "HOL-Library.Char_ord"
begin

text \<open>
  What the components share: the Python values, exceptions and dictionaries the runtime
  manipulates, its UUIDs and timestamps, and the generic facts about them.

  \<^item> A Python \<open>dict\<close> is an association list updated by \<^const>\<open>AList.update\<close> (which keeps a
    key's position and appends a new one, as Python's insertion order does) and
    \<^const>\<open>AList.delete\<close>; reading it is \<^const>\<open>map_of\<close>.
  \<^item> A \<open>str\<close> or \<open>bytes\<close> is a \<^typ>\<open>string\<close>: the bytes of its UTF-8 encoding, so that
    \<^const>\<open>length\<close> is \<open>len(s.encode())\<close> and the lexicographic order is Python's order of
    code points.
  \<^item> A \<open>datetime\<close> is the number of microseconds since the epoch, in UTC.
  \<^item> An operation that may raise returns \<open>exn + 'a\<close>, and one that mutates state before it
    raises returns the state beside the result.
\<close>

section \<open>Values and exceptions\<close>

type_synonym uuid = "128 word"

datatype exn =
    HTTPException nat
  | ValueError
  | TypeError
  | KeyError
  | AttributeError
  | StopIteration
  | OverflowError
  | IndexError
  | QueueEmpty
  | TimeoutError
  | RetryableException
  | RuntimeError
  | FileNotFoundError
  | OSError

type_synonym 'a res = "exn + 'a"

datatype pyval =
    PNone
  | PBool bool
  | PInt int
  | PFloat rat
  | PStr string
  | PBytes string
  | PList "pyval list"
  | PDict "(string \<times> pyval) list"
  | PDatetime int
  | PUUID uuid

type_synonym dict = "(string \<times> pyval) list"

named_theorems dict_simps \<open>reading and writing Python dictionaries\<close>
named_theorems res_defs \<open>definitions of the operations on results\<close>

definition res_bind :: "'a res \<Rightarrow> ('a \<Rightarrow> 'b res) \<Rightarrow> 'b res" where
  [res_defs]: "res_bind r f = (case r of Inl e \<Rightarrow> Inl e | Inr a \<Rightarrow> f a)"

text \<open>\<open>bool(v)\<close>: the values Python takes as false.\<close>

fun truthy :: "pyval \<Rightarrow> bool" where
  "truthy PNone = False"
| "truthy (PBool b) = b"
| "truthy (PInt i) = (i \<noteq> 0)"
| "truthy (PFloat q) = (q \<noteq> 0)"
| "truthy (PStr s) = (s \<noteq> [])"
| "truthy (PBytes s) = (s \<noteq> [])"
| "truthy (PList xs) = (xs \<noteq> [])"
| "truthy (PDict d) = (d \<noteq> [])"
| "truthy (PDatetime t) = True"
| "truthy (PUUID u) = True"

text \<open>The number a value compares as: \<open>True == 1 == 1.0\<close>.\<close>

fun py_num :: "pyval \<Rightarrow> rat option" where
  "py_num (PBool b) = Some (if b then 1 else 0)"
| "py_num (PInt i) = Some (of_int i)"
| "py_num (PFloat q) = Some q"
| "py_num _ = None"

text \<open>\<open>a == b\<close>. Dictionaries compare without regard to the order of their keys.\<close>

fun py_eq :: "pyval \<Rightarrow> pyval \<Rightarrow> bool"
and py_eqs :: "pyval list \<Rightarrow> pyval list \<Rightarrow> bool"
and py_subdict :: "dict \<Rightarrow> dict \<Rightarrow> bool" where
  "py_eq (PList xs) v = (case v of PList ys \<Rightarrow> py_eqs xs ys | _ \<Rightarrow> False)"
| "py_eq (PDict d) v = (case v of PDict e \<Rightarrow> length d = length e \<and> py_subdict d e | _ \<Rightarrow> False)"
| "py_eq (PStr s) v = (v = PStr s)"
| "py_eq (PBytes s) v = (v = PBytes s)"
| "py_eq (PDatetime t) v = (v = PDatetime t)"
| "py_eq (PUUID u) v = (v = PUUID u)"
| "py_eq PNone v = (v = PNone)"
| "py_eq (PBool b) v = (py_num v = py_num (PBool b))"
| "py_eq (PInt i) v = (py_num v = py_num (PInt i))"
| "py_eq (PFloat q) v = (py_num v = py_num (PFloat q))"
| "py_eqs [] ys = (ys = [])"
| "py_eqs (x # xs) ys = (case ys of [] \<Rightarrow> False | y # ys' \<Rightarrow> py_eq x y \<and> py_eqs xs ys')"
| "py_subdict [] e = True"
| "py_subdict ((k, v) # d) e =
     ((case map_of e k of None \<Rightarrow> False | Some w \<Rightarrow> py_eq v w) \<and> py_subdict d e)"

section \<open>Dictionaries\<close>

text \<open>\<open>{**d, **e}\<close> and \<open>d.update(e)\<close>.\<close>

fun dict_merge :: "('k \<times> 'v) list \<Rightarrow> ('k \<times> 'v) list \<Rightarrow> ('k \<times> 'v) list" where
  "dict_merge d [] = d"
| "dict_merge d ((k, v) # e) = dict_merge (AList.update k v d) e"

text \<open>\<open>d.get(k, default)\<close>.\<close>

definition dict_get :: "('k \<times> 'v) list \<Rightarrow> 'k \<Rightarrow> 'v \<Rightarrow> 'v" where
  "dict_get d k v = (case map_of d k of None \<Rightarrow> v | Some w \<Rightarrow> w)"

definition has_key :: "('k \<times> 'v) list \<Rightarrow> 'k \<Rightarrow> bool" where
  [dict_simps]: "has_key d k \<longleftrightarrow> map_of d k \<noteq> None"

text \<open>
  The two-level dictionaries of the stream manager: \<open>d.get(t, {}).get(r)\<close>, the assignment
  \<open>d[t][r] = v\<close> through nested \<open>defaultdict\<close>s, and the removal that drops an inner dictionary
  once it is empty.
\<close>

type_synonym ('t, 'r, 'v) nested = "('t \<times> ('r \<times> 'v) list) list"

definition inner :: "('t, 'r, 'v) nested \<Rightarrow> 't \<Rightarrow> ('r \<times> 'v) list" where
  "inner d t = dict_get d t []"

definition nested_get :: "('t, 'r, 'v) nested \<Rightarrow> 't \<Rightarrow> 'r \<Rightarrow> 'v option" where
  "nested_get d t r = map_of (inner d t) r"

definition nested_put :: "('t, 'r, 'v) nested \<Rightarrow> 't \<Rightarrow> 'r \<Rightarrow> 'v \<Rightarrow> ('t, 'r, 'v) nested" where
  "nested_put d t r v = AList.update t (AList.update r v (inner d t)) d"

definition nested_pop :: "('t, 'r, 'v) nested \<Rightarrow> 't \<Rightarrow> 'r \<Rightarrow> ('t, 'r, 'v) nested" where
  "nested_pop d t r =
     (case map_of d t of
        None \<Rightarrow> d
      | Some i \<Rightarrow>
          let i' = AList.delete r i
          in if i' = [] then AList.delete t d else AList.update t i' d)"

text \<open>No inner dictionary of a nested one is empty: nothing is kept for a key without entries.\<close>

definition no_empty :: "('t \<times> 'v list) list \<Rightarrow> bool" where
  "no_empty d \<longleftrightarrow> (\<forall>t. map_of d t \<noteq> Some [])"

section \<open>Strings and numbers\<close>

definition is_digit :: "char \<Rightarrow> bool" where
  "is_digit c \<longleftrightarrow> 48 \<le> (of_char c :: nat) \<and> (of_char c :: nat) \<le> 57"

definition digit_val :: "char \<Rightarrow> nat" where
  "digit_val c = (of_char c :: nat) - 48"

definition digit_char :: "nat \<Rightarrow> char" where
  "digit_char n = char_of (n + 48)"

text \<open>\<open>str(n)\<close> and \<open>str(i)\<close>.\<close>

fun show_nat :: "nat \<Rightarrow> string" where
  "show_nat n = (if n < 10 then [digit_char n] else show_nat (n div 10) @ [digit_char (n mod 10)])"

declare show_nat.simps [simp del]

definition show_int :: "int \<Rightarrow> string" where
  "show_int i = (if i < 0 then CHR ''-'' # show_nat (nat (- i)) else show_nat (nat i))"

text \<open>\<open>int(s)\<close>: surrounding white space, a sign, digits with single underscores between them.\<close>

definition is_space :: "char \<Rightarrow> bool" where
  "is_space c \<longleftrightarrow> (of_char c :: nat) \<in> {9, 10, 11, 12, 13, 28, 29, 30, 31, 32}"

definition py_strip :: "string \<Rightarrow> string" where
  "py_strip s = rev (dropWhile is_space (rev (dropWhile is_space s)))"

fun parse_digits :: "nat \<Rightarrow> string \<Rightarrow> nat option" where
  "parse_digits acc [] = Some acc"
| "parse_digits acc (c # cs) =
     (if is_digit c then parse_digits (acc * 10 + digit_val c) cs
      else if c = CHR ''_'' \<and> cs \<noteq> [] \<and> is_digit (hd cs) then parse_digits acc cs
      else None)"

definition parse_nat :: "string \<Rightarrow> nat option" where
  "parse_nat s = (if s \<noteq> [] \<and> is_digit (hd s) then parse_digits 0 s else None)"

definition py_int_of_string :: "string \<Rightarrow> int res" where
  "py_int_of_string s =
     (case py_strip s of
        [] \<Rightarrow> Inl ValueError
      | c # cs \<Rightarrow>
          let n = (if c = CHR ''-'' \<or> c = CHR ''+'' then parse_nat cs else parse_nat (c # cs))
          in case n of None \<Rightarrow> Inl ValueError
             | Some m \<Rightarrow> Inr (if c = CHR ''-'' then - int m else int m))"

text \<open>\<open>sub in s\<close> on strings, \<open>s.partition(c)\<close> for a single character, \<open>s.startswith(p)\<close>.\<close>

fun starts_with :: "string \<Rightarrow> string \<Rightarrow> bool" where
  "starts_with s [] = True"
| "starts_with [] (p # ps) = False"
| "starts_with (c # cs) (p # ps) = (c = p \<and> starts_with cs ps)"

fun substring :: "string \<Rightarrow> string \<Rightarrow> bool" where
  "substring sub [] = (sub = [])"
| "substring sub (c # cs) = (starts_with (c # cs) sub \<or> substring sub cs)"

definition partition_at :: "char \<Rightarrow> string \<Rightarrow> string \<times> bool \<times> string" where
  "partition_at c s =
     (let pre = takeWhile (\<lambda>x. x \<noteq> c) s; rest = dropWhile (\<lambda>x. x \<noteq> c) s
      in (pre, rest \<noteq> [], tl rest))"

text \<open>\<open>s.lower()\<close> on ASCII letters.\<close>

definition lower_char :: "char \<Rightarrow> char" where
  "lower_char c =
     (if 65 \<le> (of_char c :: nat) \<and> (of_char c :: nat) \<le> 90 then char_of ((of_char c :: nat) + 32) else c)"

definition py_lower :: "string \<Rightarrow> string" where
  "py_lower s = map lower_char s"

section \<open>UUIDs\<close>

text \<open>\<open>str(uuid)\<close>: thirty-two hexadecimal digits in groups of 8, 4, 4, 4 and 12.\<close>

definition hex_char :: "nat \<Rightarrow> char" where
  "hex_char d = (if d < 10 then char_of (d + 48) else char_of (d + 87))"

fun hex_digits :: "nat \<Rightarrow> nat \<Rightarrow> string" where
  "hex_digits 0 n = []"
| "hex_digits (Suc k) n = hex_digits k (n div 16) @ [hex_char (n mod 16)]"

definition uuid_str :: "uuid \<Rightarrow> string" where
  "uuid_str u =
     (let h = hex_digits 32 (unat u)
      in take 8 h @ ''-'' @ take 4 (drop 8 h) @ ''-'' @ take 4 (drop 12 h) @ ''-''
         @ take 4 (drop 16 h) @ ''-'' @ drop 20 h)"

text \<open>
  \<open>uuid.UUID(s)\<close>: \<open>urn:\<close>, \<open>uuid:\<close>, braces and hyphens are dropped, thirty-two hexadecimal digits
  must remain.
\<close>

definition hex_val :: "char \<Rightarrow> nat option" where
  "hex_val c =
     (let n = (of_char c :: nat)
      in if 48 \<le> n \<and> n \<le> 57 then Some (n - 48)
         else if 97 \<le> n \<and> n \<le> 102 then Some (n - 87)
         else if 65 \<le> n \<and> n \<le> 70 then Some (n - 55)
         else None)"

fun hex_value :: "nat \<Rightarrow> string \<Rightarrow> nat option" where
  "hex_value acc [] = Some acc"
| "hex_value acc (c # cs) =
     (case hex_val c of None \<Rightarrow> None | Some d \<Rightarrow> hex_value (acc * 16 + d) cs)"

fun drop_all :: "string \<Rightarrow> string \<Rightarrow> string" where
  "drop_all sub [] = []"
| "drop_all sub (c # cs) =
     (if sub \<noteq> [] \<and> starts_with (c # cs) sub then drop_all sub (drop (length sub - 1) cs)
      else c # drop_all sub cs)"

definition strip_braces :: "string \<Rightarrow> string" where
  "strip_braces s =
     (let br = (\<lambda>c. c = CHR ''{'' \<or> c = CHR ''}'')
      in rev (dropWhile br (rev (dropWhile br s))))"

definition uuid_of_string :: "string \<Rightarrow> uuid res" where
  "uuid_of_string s =
     (let h = filter (\<lambda>c. c \<noteq> CHR ''-'') (strip_braces (drop_all ''uuid:'' (drop_all ''urn:'' s)))
      in if length h \<noteq> 32 then Inl ValueError
         else case hex_value 0 h of None \<Rightarrow> Inl ValueError | Some n \<Rightarrow> Inr (word_of_nat n))"

text \<open>An id as callers pass it and as legacy data holds it, a \<open>str\<close> or a \<open>UUID\<close>, and its \<open>str()\<close>.\<close>

datatype id_arg = IdStr string | IdUUID uuid

definition id_str :: "id_arg \<Rightarrow> string" where
  "id_str i = (case i of IdStr s \<Rightarrow> s | IdUUID u \<Rightarrow> uuid_str u)"

lemma id_str_IdStr [simp]: "id_str (IdStr s) = s"
  by (simp add: id_str_def)

section \<open>Timestamps\<close>

text \<open>
  The range of \<open>datetime\<close> in microseconds since the epoch, and \<open>t + timedelta(minutes=m)\<close>, which
  rounds to the microsecond, half to even, and raises \<open>OverflowError\<close> outside the range.
\<close>

definition datetime_min :: int where "datetime_min = - 62135596800000000"

definition datetime_max :: int where "datetime_max = 253402300799999999"

definition round_half_even :: "rat \<Rightarrow> int" where
  "round_half_even q =
     (let f = \<lfloor>q\<rfloor>; r = q - of_int f
      in if r < 1 / 2 then f else if r > 1 / 2 then f + 1 else if even f then f else f + 1)"

definition minutes_us :: "rat \<Rightarrow> int" where
  "minutes_us m = round_half_even (m * 60000000)"

definition add_minutes :: "int \<Rightarrow> rat \<Rightarrow> int res" where
  "add_minutes t m =
     (let t' = t + minutes_us m
      in if datetime_min \<le> t' \<and> t' \<le> datetime_max then Inr t' else Inl OverflowError)"

section \<open>Lists\<close>

text \<open>
  \<open>next((x for x in xs if p(x)), None)\<close> is \<^const>\<open>find\<close>. An in-place change of the dictionary it
  finds changes that element of the list, the first one that satisfies \<open>p\<close>.
\<close>

fun update_first :: "('a \<Rightarrow> bool) \<Rightarrow> ('a \<Rightarrow> 'a) \<Rightarrow> 'a list \<Rightarrow> 'a list" where
  "update_first p f [] = []"
| "update_first p f (x # xs) = (if p x then f x # xs else x # update_first p f xs)"

text \<open>\<open>xs.sort(key=f, reverse=True)\<close>: descending and stable.\<close>

definition sort_desc :: "('a \<Rightarrow> 'b :: linorder) \<Rightarrow> 'a list \<Rightarrow> 'a list" where
  "sort_desc f xs = rev (sort_key f (rev xs))"

text \<open>\<open>xs[offset : offset + n]\<close> for non-negative bounds.\<close>

definition py_slice :: "nat \<Rightarrow> nat \<Rightarrow> 'a list \<Rightarrow> 'a list" where
  "py_slice offset n xs = take n (drop offset xs)"

section \<open>Lemmas: dictionaries\<close>

declare update_conv' [dict_simps] delete_conv' [dict_simps]

lemma dict_get_update [dict_simps]:
  "dict_get (AList.update k v d) k' w = (if k' = k then v else dict_get d k' w)"
  by (simp add: dict_get_def update_conv')

lemma dict_get_delete [dict_simps]:
  "dict_get (AList.delete k d) k' w = (if k' = k then w else dict_get d k' w)"
  by (simp add: dict_get_def delete_conv')

lemma map_of_dict_merge [dict_simps]:
  "distinct (map fst e) \<Longrightarrow> map_of (dict_merge d e) k = (case map_of e k of None \<Rightarrow> map_of d k | Some v \<Rightarrow> Some v)"
proof (induction d e rule: dict_merge.induct)
  case (1 d)
  then show ?case by simp
next
  case (2 d k' v e)
  then have "k' \<notin> fst ` set e" by simp
  then have "map_of e k' = None" by (simp add: map_of_eq_None_iff)
  with 2 show ?case by (auto simp: update_conv' split: option.splits)
qed

lemma distinct_dict_merge: "distinct (map fst d) \<Longrightarrow> distinct (map fst (dict_merge d e))"
  by (induction d e rule: dict_merge.induct) (auto simp: distinct_update)

lemma distinct_fst_map: "distinct (map fst xs) \<Longrightarrow> distinct (map fst (map (\<lambda>(k, v). (k, f k v)) xs))"
  by (induction xs) force+

lemma update_not_Nil [simp]: "AList.update k v d \<noteq> []"
  by (cases d) auto

lemma delete_eq_Nil_iff: "AList.delete k d = [] \<longleftrightarrow> fst ` set d \<subseteq> {k}"
  by (induction d) auto

lemma map_of_inner_Nil: "map_of d t = None \<Longrightarrow> inner d t = []"
  by (simp add: inner_def dict_get_def)

lemma nested_get_put [dict_simps]:
  "nested_get (nested_put d t r v) t' r' = (if t' = t \<and> r' = r then Some v else nested_get d t' r')"
  by (auto simp: nested_get_def nested_put_def inner_def dict_simps)

lemma inner_nested_pop:
  "inner (nested_pop d t r) t' = (if t' = t then AList.delete r (inner d t) else inner d t')"
proof (cases "map_of d t")
  case None
  then show ?thesis by (auto simp: nested_pop_def inner_def dict_get_def)
next
  case (Some i)
  then show ?thesis
    by (auto simp: nested_pop_def inner_def Let_def dict_simps) (simp_all add: dict_get_def)
qed

lemma nested_get_pop [dict_simps]:
  "nested_get (nested_pop d t r) t' r' = (if t' = t \<and> r' = r then None else nested_get d t' r')"
  by (auto simp: nested_get_def inner_nested_pop delete_conv')

lemma nested_get_delete [dict_simps]:
  "nested_get (AList.delete t d) t' r = (if t' = t then None else nested_get d t' r)"
  by (simp add: nested_get_def inner_def dict_simps)

lemma nested_get_Nil [simp]: "nested_get [] t r = None"
  by (simp add: nested_get_def inner_def dict_get_def)

lemma nested_get_keys:
  "nested_get d t r = Some v \<Longrightarrow> (t, inner d t) \<in> set d \<and> (r, v) \<in> set (inner d t)"
  by (auto simp: nested_get_def inner_def dict_get_def split: option.splits dest: map_of_SomeD)

lemma no_empty_Nil [simp]: "no_empty []"
  by (simp add: no_empty_def)

lemma no_empty_put: "no_empty d \<Longrightarrow> no_empty (nested_put d t r v)"
  by (auto simp: no_empty_def nested_put_def update_conv')

lemma no_empty_pop: "no_empty d \<Longrightarrow> no_empty (nested_pop d t r)"
  by (auto simp: no_empty_def nested_pop_def Let_def update_conv' delete_conv' split: option.splits)

lemma no_empty_delete: "no_empty d \<Longrightarrow> no_empty (AList.delete t d)"
  by (auto simp: no_empty_def delete_conv')

section \<open>Lemmas: numbers and strings\<close>

lemma of_char_digit_char: "n < 10 \<Longrightarrow> (of_char (digit_char n) :: nat) = n + 48"
  by (simp add: digit_char_def)

lemma is_digit_digit_char: "n < 10 \<Longrightarrow> is_digit (digit_char n)"
  by (simp add: is_digit_def of_char_digit_char)

lemma digit_val_digit_char: "n < 10 \<Longrightarrow> digit_val (digit_char n) = n"
  by (simp add: digit_val_def of_char_digit_char)

lemma show_nat_digits: "c \<in> set (show_nat n) \<Longrightarrow> is_digit c"
proof (induction n rule: show_nat.induct)
  case (1 n)
  then show ?case
    by (cases "n < 10") (auto simp: show_nat.simps [of n] is_digit_digit_char)
qed

lemma show_nat_not_Nil [simp]: "show_nat n \<noteq> []"
  by (simp add: show_nat.simps [of n])

lemma parse_digits_append:
  "(\<forall>c \<in> set xs. is_digit c) \<Longrightarrow> parse_digits acc (xs @ ys) = (case parse_digits acc xs of None \<Rightarrow> None | Some a \<Rightarrow> parse_digits a ys)"
  by (induction xs arbitrary: acc) auto

lemma parse_digits_show_nat: "parse_digits 0 (show_nat n) = Some n"
proof (induction n rule: show_nat.induct)
  case (1 n)
  show ?case
  proof (cases "n < 10")
    case True
    then show ?thesis
      by (simp add: show_nat.simps [of n] is_digit_digit_char digit_val_digit_char)
  next
    case False
    with "1.IH" show ?thesis
      by (simp add: show_nat.simps [of n] parse_digits_append show_nat_digits is_digit_digit_char
          digit_val_digit_char)
  qed
qed

lemma parse_nat_show_nat [simp]: "parse_nat (show_nat n) = Some n"
  using show_nat_digits [of "hd (show_nat n)" n] by (simp add: parse_nat_def parse_digits_show_nat)

lemma digit_not_space: "is_digit c \<Longrightarrow> \<not> is_space c"
  by (auto simp: is_digit_def is_space_def)

lemma dropWhile_hd: "xs \<noteq> [] \<Longrightarrow> \<not> P (hd xs) \<Longrightarrow> dropWhile P xs = xs"
  by (cases xs) auto

lemma py_strip_digits: "s \<noteq> [] \<Longrightarrow> (\<forall>c \<in> set s. is_digit c) \<Longrightarrow> py_strip s = s"
  by (simp add: py_strip_def dropWhile_hd digit_not_space last_rev hd_rev)

lemma digit_not_sign: "is_digit c \<Longrightarrow> c \<noteq> CHR ''-'' \<and> c \<noteq> CHR ''+'' \<and> c \<noteq> CHR ''_''"
  by (auto simp: is_digit_def)

lemma py_int_of_show_nat: "py_int_of_string (show_nat n) = Inr (int n)"
proof -
  obtain c cs where s: "show_nat n = c # cs"
    by (cases "show_nat n") auto
  have d: "is_digit c"
    using show_nat_digits [of c n] s by simp
  have "py_strip (show_nat n) = show_nat n"
    by (rule py_strip_digits) (auto dest: show_nat_digits)
  moreover have "parse_nat (c # cs) = Some n"
    using parse_nat_show_nat [of n] s by simp
  ultimately show ?thesis
    using s digit_not_sign [OF d] by (simp add: py_int_of_string_def)
qed

lemma py_int_of_show_int: "0 \<le> i \<Longrightarrow> py_int_of_string (show_int i) = Inr i"
  by (simp add: show_int_def py_int_of_show_nat)

lemma partition_at_sep:
  "c \<notin> set pre \<Longrightarrow> partition_at c (pre @ c # post) = (pre, True, post)"
  by (induction pre) (auto simp: partition_at_def Let_def)

section \<open>Lemmas: UUIDs\<close>

lemma length_hex_digits [simp]: "length (hex_digits k n) = k"
  by (induction k arbitrary: n) auto

lemma hex_val_hex_char: "d < 16 \<Longrightarrow> hex_val (hex_char d) = Some d"
  by (auto simp: hex_val_def hex_char_def Let_def)

lemma hex_value_append:
  "hex_value acc (xs @ ys) = (case hex_value acc xs of None \<Rightarrow> None | Some a \<Rightarrow> hex_value a ys)"
  by (induction xs arbitrary: acc) (auto split: option.splits)

lemma hex_value_hex_digits: "hex_value 0 (hex_digits k n) = Some (n mod 16 ^ k)"
proof (induction k arbitrary: n)
  case 0
  then show ?case by simp
next
  case (Suc k)
  have "n div 16 mod 16 ^ k * 16 + n mod 16 = n mod 16 ^ Suc k"
    using mod_mult2_eq [of n 16 "16 ^ k"] by (simp add: mult.commute)
  then show ?case
    by (simp add: hex_value_append Suc.IH hex_val_hex_char)
qed

lemma hex_digits_hex: "c \<in> set (hex_digits k n) \<Longrightarrow> hex_val c \<noteq> None"
  by (induction k arbitrary: n) (auto simp: hex_val_hex_char)

lemma set_uuid_str: "c \<in> set (uuid_str u) \<Longrightarrow> c = CHR ''-'' \<or> hex_val c \<noteq> None"
  unfolding uuid_str_def Let_def
  by (auto dest!: in_set_takeD in_set_dropD hex_digits_hex)

lemma uuid_str_not_special:
  "CHR ''u'' \<notin> set (uuid_str u)" "CHR ''{'' \<notin> set (uuid_str u)" "CHR ''}'' \<notin> set (uuid_str u)"
  by (auto dest!: set_uuid_str simp: hex_val_def)

lemma drop_all_absent: "c \<notin> set s \<Longrightarrow> drop_all (c # cs) s = s"
  by (induction "c # cs" s rule: drop_all.induct) auto

lemma strip_braces_absent: "CHR ''{'' \<notin> set s \<Longrightarrow> CHR ''}'' \<notin> set s \<Longrightarrow> strip_braces s = s"
proof -
  assume a: "CHR ''{'' \<notin> set s" "CHR ''}'' \<notin> set s"
  have d: "dropWhile (\<lambda>c. c = CHR ''{'' \<or> c = CHR ''}'') t = t" if "set t \<subseteq> set s" for t
    using that a by (cases t) auto
  show ?thesis
    using d [of s] d [of "rev s"] by (simp add: strip_braces_def Let_def)
qed

lemma filter_hyphen_hex: "filter (\<lambda>c. c \<noteq> CHR ''-'') (hex_digits k n) = hex_digits k n"
proof -
  have "hex_val (CHR ''-'') = None" by (simp add: hex_val_def)
  then show ?thesis by (auto simp: filter_id_conv dest: hex_digits_hex)
qed

lemma take_drop_regroup:
  "take 8 h @ take 4 (drop 8 h) @ take 4 (drop 12 h) @ take 4 (drop 16 h) @ drop 20 h = h"
proof -
  have "drop 16 h = take 4 (drop 16 h) @ drop 20 h"
    using append_take_drop_id [of 4 "drop 16 h"] by simp
  moreover have "drop 12 h = take 4 (drop 12 h) @ drop 16 h"
    using append_take_drop_id [of 4 "drop 12 h"] by simp
  moreover have "drop 8 h = take 4 (drop 8 h) @ drop 12 h"
    using append_take_drop_id [of 4 "drop 8 h"] by simp
  ultimately show ?thesis
    using append_take_drop_id [of 8 h] by (metis append_assoc)
qed

lemma filter_hyphen_uuid_str:
  "filter (\<lambda>c. c \<noteq> CHR ''-'') (uuid_str u) = hex_digits 32 (unat u)"
proof -
  let ?h = "hex_digits 32 (unat u)"
  let ?f = "filter (\<lambda>c. c \<noteq> CHR ''-'')"
  have "?f (uuid_str u) =
      ?f (take 8 ?h @ take 4 (drop 8 ?h) @ take 4 (drop 12 ?h) @ take 4 (drop 16 ?h) @ drop 20 ?h)"
    by (simp add: uuid_str_def Let_def del: hex_digits.simps)
  also have "\<dots> = ?f ?h"
    by (simp only: take_drop_regroup)
  finally show ?thesis
    by (simp only: filter_hyphen_hex)
qed

lemma uuid_of_string_str: "uuid_of_string (uuid_str u) = Inr u"
proof -
  have lt: "unat u < 16 ^ 32"
    using unsigned_less [of u] by simp
  have "strip_braces (drop_all ''uuid:'' (drop_all ''urn:'' (uuid_str u))) = uuid_str u"
    by (simp only: drop_all_absent uuid_str_not_special strip_braces_absent not_False_eq_True)
  then show ?thesis
    using lt by (simp add: uuid_of_string_def Let_def filter_hyphen_uuid_str hex_value_hex_digits
        del: hex_digits.simps)
qed

lemma uuid_str_inject [simp]: "uuid_str u = uuid_str v \<longleftrightarrow> u = v"
  by (metis Inr_inject uuid_of_string_str)

section \<open>Lemmas: lists\<close>

lemma find_Some_iff_first:
  "find p xs = Some x \<Longrightarrow> p x \<and> x \<in> set xs"
  by (auto simp: find_Some_iff)

lemma find_None_filter: "find p xs = None \<longleftrightarrow> filter p xs = []"
  by (auto simp: find_None_iff filter_empty_conv)

lemma update_first_absent: "find p xs = None \<Longrightarrow> update_first p f xs = xs"
  by (induction xs) (auto split: if_splits)

lemma update_first_last:
  "find p xs = None \<Longrightarrow> p x \<Longrightarrow> update_first p f (xs @ [x]) = xs @ [f x]"
  by (induction xs) (auto split: if_splits)

lemma length_update_first [simp]: "length (update_first p f xs) = length xs"
  by (induction xs) auto

lemma map_update_first: "(\<And>x. g (f x) = g x) \<Longrightarrow> map g (update_first p f xs) = map g xs"
  by (induction xs) auto

lemma find_update_first:
  "(\<And>x. p x \<Longrightarrow> p (f x)) \<Longrightarrow> find p (update_first p f xs) = map_option f (find p xs)"
  by (induction xs) auto

lemma find_update_first_other:
  "(\<And>x. p x \<Longrightarrow> \<not> q x) \<Longrightarrow> (\<And>x. p x \<Longrightarrow> \<not> q (f x)) \<Longrightarrow> find q (update_first p f xs) = find q xs"
  by (induction xs) auto

lemma set_update_first: "set (update_first p f xs) \<subseteq> set xs \<union> f ` {x \<in> set xs. p x}"
  by (induction xs) auto

lemma find_filter_other:
  "(\<And>x. q x \<Longrightarrow> p x) \<Longrightarrow> find q (filter p xs) = find q xs"
  by (induction xs) auto

lemma filter_eq_single: "distinct xs \<Longrightarrow> x \<in> set xs \<Longrightarrow> filter (\<lambda>y. y = x) xs = [x]"
  by (induction xs) (auto simp: filter_empty_conv)

lemma find_append: "find p (xs @ ys) = (case find p xs of None \<Rightarrow> find p ys | Some x \<Rightarrow> Some x)"
  by (induction xs) auto

lemma set_sort_desc [simp]: "set (sort_desc f xs) = set xs"
  by (simp add: sort_desc_def)

lemma length_sort_desc [simp]: "length (sort_desc f xs) = length xs"
  by (simp add: sort_desc_def)

lemma sorted_sort_desc: "sorted_wrt (\<ge>) (map f (sort_desc f xs))"
proof -
  have "sorted (map f (sort_key f (rev xs)))" by simp
  then show ?thesis
    by (simp add: sort_desc_def rev_map [symmetric] sorted_wrt_rev)
qed

end
