(* ===== verification/Stream.thy ===== *)
theory Stream
  imports Prelude
begin

text \<open>
  The stream manager (\<open>inmem_stream.py\<close>): monotone message ids, run and thread subscriptions,
  stored messages for resumable streams, and the release of a run's state on deletion.

  Queue objects are numbers into a heap of message lists (\<open>sm_heap\<close>), so that two references to
  one \<open>asyncio.Queue\<close> are the same queue. The queues are unbounded: \<open>put\<close> and \<open>put_nowait\<close> never
  fail or block. \<open>time.time()\<close> is the sequence \<open>wall_ms\<close> of millisecond readings, arbitrary and
  possibly decreasing; \<open>clock_reads\<close> counts the readings taken. The codec of
  \<open>langgraph_api\<close> (\<open>STREAM_CODEC.encode\<close>) is the parameter \<open>enc\<close>.
\<close>

section \<open>Stream ids\<close>

record id_state =
  last_stream_ms :: int
  last_stream_seq :: int
  wall_ms :: "nat \<Rightarrow> int"
  clock_reads :: nat

datatype stream_pos = StreamPos (pos_ms: int) (pos_seq: int)

instantiation stream_pos :: linorder
begin

definition less_eq_stream_pos :: "stream_pos \<Rightarrow> stream_pos \<Rightarrow> bool" where
  "less_eq_stream_pos p q \<longleftrightarrow>
     pos_ms p < pos_ms q \<or> (pos_ms p = pos_ms q \<and> pos_seq p \<le> pos_seq q)"

definition less_stream_pos :: "stream_pos \<Rightarrow> stream_pos \<Rightarrow> bool" where
  "less_stream_pos p q \<longleftrightarrow>
     pos_ms p < pos_ms q \<or> (pos_ms p = pos_ms q \<and> pos_seq p < pos_seq q)"

instance
  by standard (auto simp: less_eq_stream_pos_def less_stream_pos_def stream_pos.expand)

end

definition generate_ms_seq_id :: "id_state \<Rightarrow> string \<times> id_state" where
  "generate_ms_seq_id s =
     (let current_ms = wall_ms s (clock_reads s);
          s = s\<lparr>clock_reads := Suc (clock_reads s)\<rparr>;
          ms = max current_ms (last_stream_ms s);
          s = (if ms = last_stream_ms s
               then s\<lparr>last_stream_seq := last_stream_seq s + 1\<rparr>
               else s\<lparr>last_stream_ms := ms, last_stream_seq := 0\<rparr>)
      in (show_int (last_stream_ms s) @ ''-'' @ show_int (last_stream_seq s), s))"

definition parse_ms_seq_id :: "string \<Rightarrow> stream_pos res" where
  "parse_ms_seq_id text =
     (case partition_at (CHR ''-'') text of
        (ms, separator, seq) \<Rightarrow>
          if \<not> separator then Inl ValueError
          else case py_int_of_string ms of
                 Inl e \<Rightarrow> Inl e
               | Inr m \<Rightarrow>
                   (case py_int_of_string seq of Inl e \<Rightarrow> Inl e | Inr n \<Rightarrow> Inr (StreamPos m n)))"

section \<open>The manager\<close>

record message =
  m_topic :: string
  m_data :: string
  m_id :: "string option"

definition ensure_uuid :: "id_arg \<Rightarrow> uuid res" where
  "ensure_uuid i = (case i of IdStr s \<Rightarrow> uuid_of_string s | IdUUID u \<Rightarrow> Inr u)"

text \<open>\<open>NoThread\<close> is \<open>THREADLESS_KEY\<close>, the key of the runs without a thread.\<close>

datatype tkey = NoThread | TKey uuid

definition thread_key :: "uuid option \<Rightarrow> tkey" where
  "thread_key t = (case t of None \<Rightarrow> NoThread | Some u \<Rightarrow> TKey u)"

definition STREAM_CLOSE_TOPIC :: string where
  "STREAM_CLOSE_TOPIC = ''__langgraph_inmem_stream_closed__''"

type_synonym queue_table = "(tkey, uuid, nat list) nested"
type_synonym codec = "string \<Rightarrow> string \<Rightarrow> string"

record stream =
  sm_queues :: queue_table
  sm_control_keys :: "(tkey, uuid, message) nested"
  sm_control_queues :: queue_table
  sm_thread_streams :: "(uuid \<times> nat list) list"
  sm_message_stores :: "(tkey, uuid, message list) nested"
  sm_active_runs :: "(tkey \<times> uuid) list"
  sm_pending_run_deletes :: "(tkey \<times> uuid) list"
  sm_stopped :: bool
  sm_heap :: "nat \<Rightarrow> message list"
  sm_next_queue :: nat
  sm_ids :: id_state

text \<open>\<open>StreamManager()\<close>, with the queue heap and the id state of the process.\<close>

definition new_stream :: "(nat \<Rightarrow> message list) \<Rightarrow> nat \<Rightarrow> id_state \<Rightarrow> stream" where
  "new_stream h n i =
     \<lparr>sm_queues = [], sm_control_keys = [], sm_control_queues = [], sm_thread_streams = [],
      sm_message_stores = [], sm_active_runs = [], sm_pending_run_deletes = [],
      sm_stopped = False, sm_heap = h, sm_next_queue = n, sm_ids = i\<rparr>"

definition list_at :: "(tkey, uuid, 'v list) nested \<Rightarrow> tkey \<Rightarrow> uuid \<Rightarrow> 'v list" where
  "list_at d t r = (case nested_get d t r of None \<Rightarrow> [] | Some vs \<Rightarrow> vs)"

definition get_queues :: "uuid \<Rightarrow> uuid option \<Rightarrow> stream \<Rightarrow> nat list" where
  "get_queues run_id thread_id w = list_at (sm_queues w) (thread_key thread_id) run_id"

definition get_control_queues :: "uuid \<Rightarrow> uuid option \<Rightarrow> stream \<Rightarrow> nat list" where
  "get_control_queues run_id thread_id w = list_at (sm_control_queues w) (thread_key thread_id) run_id"

definition get_control_key :: "uuid \<Rightarrow> uuid option \<Rightarrow> stream \<Rightarrow> message option" where
  "get_control_key run_id thread_id w = nested_get (sm_control_keys w) (thread_key thread_id) run_id"

definition queue_put :: "message \<Rightarrow> nat \<Rightarrow> stream \<Rightarrow> stream" where
  "queue_put m q w = w\<lparr>sm_heap := (sm_heap w)(q := sm_heap w q @ [m])\<rparr>"

text \<open>The next id, stamped on a message.\<close>

definition stamp :: "message \<Rightarrow> stream \<Rightarrow> message \<times> stream" where
  "stamp m w =
     (let (i, s) = generate_ms_seq_id (sm_ids w) in (m\<lparr>m_id := Some i\<rparr>, w\<lparr>sm_ids := s\<rparr>))"

definition put_message ::
  "uuid \<Rightarrow> uuid option \<Rightarrow> message \<Rightarrow> bool \<Rightarrow> stream \<Rightarrow> stream" where
  "put_message run_id thread_id message resumable w =
     (let t = thread_key thread_id in
      if sm_stopped w \<or> (t, run_id) \<in> set (sm_pending_run_deletes w) then w
      else
        let (m, w) = stamp message w;
            w = (if resumable
                 then w\<lparr>sm_message_stores :=
                        nested_put (sm_message_stores w) t run_id
                          (list_at (sm_message_stores w) t run_id @ [m])\<rparr>
                 else w)
        in if substring ''control'' (m_topic m)
           then let w = w\<lparr>sm_control_keys := nested_put (sm_control_keys w) t run_id m\<rparr>
                in fold (queue_put m) (list_at (sm_control_queues w) t run_id) w
           else fold (queue_put m) (list_at (sm_queues w) t run_id) w)"

definition put_thread :: "uuid \<Rightarrow> message \<Rightarrow> stream \<Rightarrow> stream" where
  "put_thread thread_id message w =
     (if sm_stopped w then w
      else let (m, w) = stamp message w
           in fold (queue_put m) (dict_get (sm_thread_streams w) thread_id []) w)"

text \<open>\<open>ContextQueue()\<close>: a new, empty queue object; \<open>__aexit__\<close> empties one.\<close>

definition new_queue :: "stream \<Rightarrow> nat \<times> stream" where
  "new_queue w =
     (sm_next_queue w,
      w\<lparr>sm_heap := (sm_heap w)(sm_next_queue w := []), sm_next_queue := Suc (sm_next_queue w)\<rparr>)"

definition context_queue_exit :: "nat \<Rightarrow> stream \<Rightarrow> stream" where
  "context_queue_exit q w = w\<lparr>sm_heap := (sm_heap w)(q := [])\<rparr>"

definition close_queue :: "nat \<Rightarrow> stream \<Rightarrow> stream" where
  "close_queue q w =
     (let (m, w) = stamp \<lparr>m_topic = STREAM_CLOSE_TOPIC, m_data = ''done'', m_id = None\<rparr> w
      in queue_put m q w)"

definition control_topic :: "uuid \<Rightarrow> string" where
  "control_topic run_id = ''run:'' @ uuid_str run_id @ '':control''"

definition stream_topic :: "uuid \<Rightarrow> string" where
  "stream_topic run_id = ''run:'' @ uuid_str run_id @ '':stream''"

definition finish_control_queue :: "uuid \<Rightarrow> nat \<Rightarrow> stream \<Rightarrow> stream" where
  "finish_control_queue run_id q w =
     (let (m, w) = stamp \<lparr>m_topic = control_topic run_id, m_data = ''done'', m_id = None\<rparr> w
      in queue_put m q w)"

definition finish_run_queue :: "codec \<Rightarrow> uuid \<Rightarrow> nat \<Rightarrow> stream \<Rightarrow> stream" where
  "finish_run_queue enc run_id q w =
     (let (m, w) = stamp \<lparr>m_topic = stream_topic run_id, m_data = enc ''control'' ''done'',
                          m_id = None\<rparr> w
      in queue_put m q w)"

definition add_queue :: "uuid \<Rightarrow> uuid option \<Rightarrow> stream \<Rightarrow> nat \<times> stream" where
  "add_queue run_id thread_id w =
     (let (q, w) = new_queue w; t = thread_key thread_id
      in if sm_stopped w \<or> (t, run_id) \<in> set (sm_pending_run_deletes w)
         then (q, close_queue q w)
         else (q, w\<lparr>sm_queues := nested_put (sm_queues w) t run_id
                                  (list_at (sm_queues w) t run_id @ [q])\<rparr>))"

definition add_control_queue :: "uuid \<Rightarrow> uuid option \<Rightarrow> stream \<Rightarrow> nat \<times> stream" where
  "add_control_queue run_id thread_id w =
     (let (q, w) = new_queue w; t = thread_key thread_id
      in if sm_stopped w \<or> (t, run_id) \<in> set (sm_pending_run_deletes w)
         then (q, finish_control_queue run_id q w)
         else (q, w\<lparr>sm_control_queues := nested_put (sm_control_queues w) t run_id
                                          (list_at (sm_control_queues w) t run_id @ [q])\<rparr>))"

definition add_thread_stream :: "uuid \<Rightarrow> stream \<Rightarrow> nat \<times> stream" where
  "add_thread_stream thread_id w =
     (let (q, w) = new_queue w
      in if sm_stopped w then (q, close_queue q w)
         else (q, w\<lparr>sm_thread_streams :=
                    AList.update thread_id (dict_get (sm_thread_streams w) thread_id [] @ [q])
                      (sm_thread_streams w)\<rparr>))"

definition remove_from :: "queue_table \<Rightarrow> tkey \<Rightarrow> uuid \<Rightarrow> nat \<Rightarrow> queue_table" where
  "remove_from d t r q =
     (case nested_get d t r of
        None \<Rightarrow> d
      | Some qs \<Rightarrow>
          if q \<notin> set qs then d
          else let qs' = remove1 q qs
               in if qs' = [] then nested_pop d t r else nested_put d t r qs')"

definition remove_queue :: "uuid \<Rightarrow> uuid option \<Rightarrow> nat \<Rightarrow> stream \<Rightarrow> stream" where
  "remove_queue run_id thread_id q w =
     w\<lparr>sm_queues := remove_from (sm_queues w) (thread_key thread_id) run_id q\<rparr>"

definition remove_control_queue :: "uuid \<Rightarrow> uuid option \<Rightarrow> nat \<Rightarrow> stream \<Rightarrow> stream" where
  "remove_control_queue run_id thread_id q w =
     w\<lparr>sm_control_queues := remove_from (sm_control_queues w) (thread_key thread_id) run_id q\<rparr>"

definition remove_thread_stream :: "uuid \<Rightarrow> nat \<Rightarrow> stream \<Rightarrow> stream" where
  "remove_thread_stream thread_id q w =
     (case map_of (sm_thread_streams w) thread_id of
        None \<Rightarrow> w
      | Some qs \<Rightarrow>
          if q \<notin> set qs then w
          else let qs' = remove1 q qs
               in w\<lparr>sm_thread_streams :=
                    (if qs' = [] then AList.delete thread_id (sm_thread_streams w)
                     else AList.update thread_id qs' (sm_thread_streams w))\<rparr>)"

text \<open>
  A cursor without a hyphen is the older index-based one. \<open>int\<close> of a string without a hyphen
  is not negative, so that the slice \<open>messages[int(message_id) + 1:]\<close> drops a prefix.
\<close>

definition after_cursor :: "stream_pos \<Rightarrow> message \<Rightarrow> bool" where
  "after_cursor cursor m =
     (case m_id m of
        None \<Rightarrow> False
      | Some i \<Rightarrow> (case parse_ms_seq_id i of Inl _ \<Rightarrow> False | Inr candidate \<Rightarrow> candidate > cursor))"

definition restore_messages ::
  "uuid \<Rightarrow> uuid option \<Rightarrow> string option \<Rightarrow> stream \<Rightarrow> message list res" where
  "restore_messages run_id thread_id message_id w =
     (case message_id of
        None \<Rightarrow> Inr []
      | Some s \<Rightarrow>
          let messages = list_at (sm_message_stores w) (thread_key thread_id) run_id
          in if CHR ''-'' \<notin> set s
             then (case py_int_of_string s of
                     Inl e \<Rightarrow> Inl e
                   | Inr i \<Rightarrow> Inr (drop (nat (i + 1)) messages))
             else (case parse_ms_seq_id s of
                     Inl e \<Rightarrow> Inl e
                   | Inr cursor \<Rightarrow> Inr (filter (after_cursor cursor) messages)))"

definition get_queues_by_thread_id :: "uuid \<Rightarrow> stream \<Rightarrow> nat list" where
  "get_queues_by_thread_id thread_id w = concat (map snd (inner (sm_queues w) (TKey thread_id)))"

definition mark_run_active :: "uuid \<Rightarrow> uuid option \<Rightarrow> stream \<Rightarrow> stream" where
  "mark_run_active run_id thread_id w =
     (let k = (thread_key thread_id, run_id)
      in if \<not> sm_stopped w \<and> k \<notin> set (sm_pending_run_deletes w)
         then w\<lparr>sm_active_runs := List.insert k (sm_active_runs w)\<rparr> else w)"

definition clear_run_state :: "tkey \<Rightarrow> uuid \<Rightarrow> stream \<Rightarrow> stream" where
  "clear_run_state t r w =
     w\<lparr>sm_queues := nested_pop (sm_queues w) t r,
       sm_control_queues := nested_pop (sm_control_queues w) t r,
       sm_control_keys := nested_pop (sm_control_keys w) t r,
       sm_message_stores := nested_pop (sm_message_stores w) t r\<rparr>"

definition mark_run_inactive :: "uuid \<Rightarrow> uuid option \<Rightarrow> stream \<Rightarrow> stream" where
  "mark_run_inactive run_id thread_id w =
     (let t = thread_key thread_id;
          w = w\<lparr>sm_active_runs := removeAll (t, run_id) (sm_active_runs w)\<rparr>
      in if (t, run_id) \<in> set (sm_pending_run_deletes w)
         then (clear_run_state t run_id w)
                \<lparr>sm_pending_run_deletes := removeAll (t, run_id) (sm_pending_run_deletes w)\<rparr>
         else w)"

definition signal_run :: "codec \<Rightarrow> tkey \<Rightarrow> uuid \<Rightarrow> stream \<Rightarrow> stream" where
  "signal_run enc t r w =
     (let w = fold (finish_run_queue enc r) (list_at (sm_queues w) t r) w
      in fold (finish_control_queue r) (list_at (sm_control_queues w) t r) w)"

definition defer_delete :: "tkey \<Rightarrow> uuid \<Rightarrow> stream \<Rightarrow> stream" where
  "defer_delete t r w =
     (if (t, r) \<in> set (sm_active_runs w)
      then w\<lparr>sm_pending_run_deletes := List.insert (t, r) (sm_pending_run_deletes w)\<rparr> else w)"

text \<open>The steps \<open>delete_run\<close> and the loop of \<open>delete_thread\<close> take for one run.\<close>

definition release_run :: "codec \<Rightarrow> tkey \<Rightarrow> uuid \<Rightarrow> stream \<Rightarrow> stream" where
  "release_run enc t r w = clear_run_state t r (defer_delete t r (signal_run enc t r w))"

definition delete_run :: "codec \<Rightarrow> uuid \<Rightarrow> uuid option \<Rightarrow> stream \<Rightarrow> stream" where
  "delete_run enc run_id thread_id w = release_run enc (thread_key thread_id) run_id w"

text \<open>
  The set \<open>run_ids\<close> of \<open>delete_thread\<close> and \<open>run_keys\<close> of \<open>close\<close>. Python iterates over a set in
  an order of its own; the model takes the order in which the keys were collected.
\<close>

definition thread_run_ids :: "tkey \<Rightarrow> stream \<Rightarrow> uuid list" where
  "thread_run_ids t w =
     remdups (map fst (inner (sm_queues w) t) @ map fst (inner (sm_control_queues w) t)
              @ map fst (inner (sm_control_keys w) t) @ map fst (inner (sm_message_stores w) t)
              @ map snd (filter (\<lambda>k. fst k = t) (sm_active_runs w)))"

definition stream_delete_thread :: "codec \<Rightarrow> uuid \<Rightarrow> stream \<Rightarrow> stream" where
  "stream_delete_thread enc thread_id w =
     (let t = TKey thread_id;
          w = fold (release_run enc t) (thread_run_ids t w) w;
          w = w\<lparr>sm_queues := AList.delete t (sm_queues w),
                sm_control_queues := AList.delete t (sm_control_queues w),
                sm_control_keys := AList.delete t (sm_control_keys w),
                sm_message_stores := AList.delete t (sm_message_stores w)\<rparr>;
          w = fold close_queue (dict_get (sm_thread_streams w) thread_id []) w
      in w\<lparr>sm_thread_streams := AList.delete thread_id (sm_thread_streams w)\<rparr>)"

definition nested_keys :: "(tkey, uuid, 'v) nested \<Rightarrow> (tkey \<times> uuid) list" where
  "nested_keys d = concat (map (\<lambda>(t, i). map (\<lambda>e. (t, fst e)) i) d)"

definition close_stream :: "codec \<Rightarrow> stream \<Rightarrow> stream" where
  "close_stream enc w =
     (let w = w\<lparr>sm_stopped := True\<rparr>;
          run_keys = remdups (nested_keys (sm_queues w) @ nested_keys (sm_control_queues w)
                       @ nested_keys (sm_control_keys w) @ nested_keys (sm_message_stores w));
          w = fold (\<lambda>(t, r). signal_run enc t r) run_keys w;
          w = fold close_queue (concat (map snd (sm_thread_streams w))) w
      in w\<lparr>sm_queues := [], sm_control_keys := [], sm_control_queues := [],
           sm_thread_streams := [], sm_message_stores := [], sm_active_runs := [],
           sm_pending_run_deletes := []\<rparr>)"

definition start_stream :: "codec \<Rightarrow> stream \<Rightarrow> stream" where
  "start_stream enc w =
     (let w = close_stream enc w in new_stream (sm_heap w) (sm_next_queue w) (sm_ids w))"

definition stop_stream :: "codec \<Rightarrow> stream \<Rightarrow> stream" where
  "stop_stream enc w = close_stream enc w"

section \<open>Invariant and steps\<close>

text \<open>
  The clock readings are not negative, and the id state is either the initial one or holds an
  id that was emitted. \<open>id_log_ok\<close>: every id of a log parses, they increase strictly, and none
  is beyond the last id emitted.
\<close>

definition ids_ok :: "id_state \<Rightarrow> bool" where
  "ids_ok s \<longleftrightarrow> (\<forall>n. 0 \<le> wall_ms s n) \<and>
     (last_stream_ms s = - 1 \<and> last_stream_seq s = - 1 \<or> 0 \<le> last_stream_ms s \<and> 0 \<le> last_stream_seq s)"

definition id_pos :: "id_state \<Rightarrow> stream_pos" where
  "id_pos s = StreamPos (last_stream_ms s) (last_stream_seq s)"

definition id_log_ok :: "(string \<Rightarrow> 'p :: linorder res) \<Rightarrow> 'p \<Rightarrow> string list \<Rightarrow> bool" where
  "id_log_ok pos b is \<longleftrightarrow>
     (\<exists>ps. map pos is = map Inr ps \<and> sorted_wrt (<) ps \<and> (\<forall>p \<in> set ps. p \<le> b))"

definition store_ok :: "id_state \<Rightarrow> message list \<Rightarrow> bool" where
  "store_ok s ms \<longleftrightarrow> (\<exists>is. map m_id ms = map Some is \<and> id_log_ok parse_ms_seq_id (id_pos s) is)"

text \<open>The manager holds nothing for a run.\<close>

definition run_absent :: "tkey \<Rightarrow> uuid \<Rightarrow> stream \<Rightarrow> bool" where
  "run_absent t r w \<longleftrightarrow>
     nested_get (sm_queues w) t r = None \<and> nested_get (sm_control_queues w) t r = None \<and>
     nested_get (sm_control_keys w) t r = None \<and> nested_get (sm_message_stores w) t r = None"

definition tidy_queues :: "queue_table \<Rightarrow> bool" where
  "tidy_queues d \<longleftrightarrow> no_empty d \<and> (\<forall>t r. nested_get d t r \<noteq> Some [])"

definition tables_empty :: "stream \<Rightarrow> bool" where
  "tables_empty w \<longleftrightarrow>
     sm_queues w = [] \<and> sm_control_queues w = [] \<and> sm_control_keys w = [] \<and>
     sm_message_stores w = [] \<and> sm_thread_streams w = [] \<and> sm_active_runs w = [] \<and>
     sm_pending_run_deletes w = []"

definition stream_inv :: "stream \<Rightarrow> bool" where
  "stream_inv w \<longleftrightarrow>
     ids_ok (sm_ids w) \<and>
     set (sm_pending_run_deletes w) \<subseteq> set (sm_active_runs w) \<and>
     (\<forall>t r. (t, r) \<in> set (sm_pending_run_deletes w) \<longrightarrow> run_absent t r w) \<and>
     tidy_queues (sm_queues w) \<and> tidy_queues (sm_control_queues w) \<and>
     no_empty (sm_control_keys w) \<and> no_empty (sm_message_stores w) \<and>
     (\<forall>t r ms. nested_get (sm_message_stores w) t r = Some ms \<longrightarrow> ms \<noteq> [] \<and> store_ok (sm_ids w) ms) \<and>
     no_empty (sm_thread_streams w) \<and>
     (sm_stopped w \<longrightarrow> tables_empty w)"

inductive stream_step :: "codec \<Rightarrow> stream \<Rightarrow> stream \<Rightarrow> bool" for enc where
  step_put: "stream_step enc w (put_message r t m b w)"
| step_put_thread: "stream_step enc w (put_thread u m w)"
| step_add_queue: "stream_step enc w (snd (add_queue r t w))"
| step_add_control_queue: "stream_step enc w (snd (add_control_queue r t w))"
| step_add_thread_stream: "stream_step enc w (snd (add_thread_stream u w))"
| step_remove_queue: "stream_step enc w (remove_queue r t q w)"
| step_remove_control_queue: "stream_step enc w (remove_control_queue r t q w)"
| step_remove_thread_stream: "stream_step enc w (remove_thread_stream u q w)"
| step_read: "stream_step enc w (w\<lparr>sm_heap := h\<rparr>)"
| step_active: "stream_step enc w (mark_run_active r t w)"
| step_inactive: "stream_step enc w (mark_run_inactive r t w)"
| step_delete_run: "stream_step enc w (delete_run enc r t w)"
| step_delete_thread: "stream_step enc w (stream_delete_thread enc u w)"
| step_start: "stream_step enc w (start_stream enc w)"
| step_stop: "stream_step enc w (stop_stream enc w)"

text \<open>\<open>step_read\<close> is any consumer taking messages out of its queue (\<open>get\<close>, \<open>get_nowait\<close>,
  \<^const>\<open>context_queue_exit\<close>).\<close>

definition init_ids :: "(nat \<Rightarrow> int) \<Rightarrow> id_state" where
  "init_ids wall = \<lparr>last_stream_ms = - 1, last_stream_seq = - 1, wall_ms = wall, clock_reads = 0\<rparr>"

inductive stream_reachable :: "codec \<Rightarrow> (nat \<Rightarrow> int) \<Rightarrow> stream \<Rightarrow> bool" for enc wall where
  reach_init: "stream_reachable enc wall (new_stream (\<lambda>_. []) 0 (init_ids wall))"
| reach_step: "stream_reachable enc wall w \<Longrightarrow> stream_step enc w w' \<Longrightarrow> stream_reachable enc wall w'"

section \<open>Monotone ids\<close>

locale monotone_ids =
  fixes gen :: "'s \<Rightarrow> string \<times> 's"
    and pos :: "string \<Rightarrow> 'p :: linorder res"
    and last_pos :: "'s \<Rightarrow> 'p"
    and ok :: "'s \<Rightarrow> bool"
  assumes gen_ok: "ok s \<Longrightarrow> ok (snd (gen s))"
    and gen_pos: "ok s \<Longrightarrow> pos (fst (gen s)) = Inr (last_pos (snd (gen s)))"
    and gen_less: "ok s \<Longrightarrow> last_pos s < last_pos (snd (gen s))"
begin

lemma log_append:
  assumes "ok s" and "id_log_ok pos (last_pos s) is"
  shows "id_log_ok pos (last_pos (snd (gen s))) (is @ [fst (gen s)])"
proof -
  obtain ps where ps: "map pos is = map Inr ps" "sorted_wrt (<) ps" "\<forall>p \<in> set ps. p \<le> last_pos s"
    using assms(2) by (auto simp: id_log_ok_def)
  have "\<forall>p \<in> set ps. p < last_pos (snd (gen s))"
    using ps(3) gen_less [OF assms(1)] by auto
  then show ?thesis
    using ps gen_pos [OF assms(1)]
    by (auto simp: id_log_ok_def sorted_wrt_append less_imp_le intro!: exI [of _ "ps @ [last_pos (snd (gen s))]"])
qed

lemma log_later: "id_log_ok pos b is \<Longrightarrow> b \<le> b' \<Longrightarrow> id_log_ok pos b' is"
  unfolding id_log_ok_def by (meson order_trans)

lemma log_resume:
  assumes "id_log_ok pos b (map f xs)" and "k < length xs" and "pos (f (xs ! k)) = Inr p"
  shows "filter (\<lambda>x. case pos (f x) of Inl _ \<Rightarrow> False | Inr c \<Rightarrow> c > p) xs = drop (Suc k) xs"
proof -
  obtain ps where ps: "map pos (map f xs) = map Inr ps" "sorted_wrt (<) ps"
    using assms(1) by (auto simp: id_log_ok_def)
  have len: "length xs = length ps"
    using arg_cong [OF ps(1), of length] by simp
  have nth: "pos (f (xs ! j)) = Inr (ps ! j)" if "j < length xs" for j
    using arg_cong [OF ps(1), of "\<lambda>ys. ys ! j"] that len by simp
  have p: "p = ps ! k"
    using nth [OF assms(2)] assms(3) by simp
  let ?P = "\<lambda>x. case pos (f x) of Inl _ \<Rightarrow> False | Inr c \<Rightarrow> c > p"
  have "filter ?P (take (Suc k) xs) = []"
  proof -
    have "\<not> ?P i" if i: "i \<in> set (take (Suc k) xs)" for i
    proof -
      obtain j where "j < length (take (Suc k) xs)" "i = take (Suc k) xs ! j"
        using i unfolding in_set_conv_nth by blast
      then have j: "j \<le> k" "i = xs ! j" "j < length xs" by auto
      moreover have "ps ! j \<le> ps ! k"
        using j(1) sorted_wrt_nth_less [OF ps(2), of j k] assms(2) len
        by (cases "j = k") (auto simp: less_imp_le)
      ultimately show ?thesis
        using nth p j by auto
    qed
    then show ?thesis by (auto simp: filter_empty_conv)
  qed
  moreover have "filter ?P (drop (Suc k) xs) = drop (Suc k) xs"
  proof -
    have "?P i" if i: "i \<in> set (drop (Suc k) xs)" for i
    proof -
      obtain j where "j < length (drop (Suc k) xs)" "i = drop (Suc k) xs ! j"
        using i unfolding in_set_conv_nth by blast
      then have "i = xs ! (Suc k + j)" "Suc k + j < length xs" by auto
      then show ?thesis
        using nth p sorted_wrt_nth_less [OF ps(2), of k "Suc k + j"] len by auto
    qed
    then show ?thesis by (simp add: filter_id_conv)
  qed
  ultimately show ?thesis
    by (metis append_Nil append_take_drop_id filter_append)
qed

end

lemma digits_no_hyphen: "CHR ''-'' \<notin> set (show_nat n)"
  using digit_not_sign show_nat_digits by blast

lemma parse_generated:
  "0 \<le> ms \<Longrightarrow> 0 \<le> sq \<Longrightarrow> parse_ms_seq_id (show_int ms @ ''-'' @ show_int sq) = Inr (StreamPos ms sq)"
  using partition_at_sep [of "CHR ''-''" "show_int ms" "show_int sq"]
  by (simp add: parse_ms_seq_id_def show_int_def digits_no_hyphen py_int_of_show_nat)

lemma generate_state:
  assumes "ids_ok s"
  shows "ids_ok (snd (generate_ms_seq_id s))"
    and "id_pos s < id_pos (snd (generate_ms_seq_id s))"
    and "0 \<le> last_stream_ms (snd (generate_ms_seq_id s))"
    and "0 \<le> last_stream_seq (snd (generate_ms_seq_id s))"
proof -
  have w: "0 \<le> wall_ms s (clock_reads s)"
    using assms by (simp add: ids_ok_def)
  show "ids_ok (snd (generate_ms_seq_id s))"
  proof (cases "wall_ms s (clock_reads s) \<le> last_stream_ms s")
    case True
    with w have "0 \<le> last_stream_ms s" by simp
    with assms True show ?thesis
      by (auto simp: ids_ok_def generate_ms_seq_id_def Let_def max_def)
  next
    case False
    with assms w show ?thesis
      by (simp add: ids_ok_def generate_ms_seq_id_def Let_def max_def)
  qed
  show "id_pos s < id_pos (snd (generate_ms_seq_id s))"
    by (auto simp: id_pos_def generate_ms_seq_id_def Let_def max_def less_stream_pos_def)
  show "0 \<le> last_stream_ms (snd (generate_ms_seq_id s))"
    using w by (auto simp: generate_ms_seq_id_def Let_def max_def)
  show "0 \<le> last_stream_seq (snd (generate_ms_seq_id s))"
    using assms w by (auto simp: ids_ok_def generate_ms_seq_id_def Let_def max_def split: if_splits)
qed

lemma fst_generate:
  "fst (generate_ms_seq_id s) =
     show_int (last_stream_ms (snd (generate_ms_seq_id s))) @ ''-''
       @ show_int (last_stream_seq (snd (generate_ms_seq_id s)))"
  by (simp add: generate_ms_seq_id_def Let_def)

interpretation stream_ids: monotone_ids generate_ms_seq_id parse_ms_seq_id id_pos ids_ok
proof unfold_locales
  fix s
  assume ok: "ids_ok s"
  show "ids_ok (snd (generate_ms_seq_id s))"
    by (rule generate_state(1) [OF ok])
  show "id_pos s < id_pos (snd (generate_ms_seq_id s))"
    by (rule generate_state(2) [OF ok])
  show "parse_ms_seq_id (fst (generate_ms_seq_id s)) = Inr (id_pos (snd (generate_ms_seq_id s)))"
    unfolding fst_generate id_pos_def
    by (rule parse_generated) (use generate_state(3,4) [OF ok] in simp_all)
qed

end
