(* ===== verification/Stream_Safety.thy ===== *)
theory Stream_Safety
  imports Stream
begin

text \<open>
  The invariant of the stream manager and what follows from it: a deleted run's state cannot
  come back while its context is active, nothing is kept for keys without entries, a resumed
  stream continues exactly after its cursor, and a published message reaches the subscribers
  of its run and nobody else.
\<close>

section \<open>Frames\<close>

text \<open>Every table of the manager, as opposed to the queue contents and the id state.\<close>

definition tables :: "stream \<Rightarrow> queue_table \<times> (tkey, uuid, message) nested \<times> queue_table \<times>
    (uuid \<times> nat list) list \<times> (tkey, uuid, message list) nested \<times> (tkey \<times> uuid) list \<times>
    (tkey \<times> uuid) list \<times> bool" where
  "tables w = (sm_queues w, sm_control_keys w, sm_control_queues w, sm_thread_streams w,
     sm_message_stores w, sm_active_runs w, sm_pending_run_deletes w, sm_stopped w)"

lemma tables_eqD:
  assumes "tables w' = tables w"
  shows "sm_queues w' = sm_queues w" "sm_control_keys w' = sm_control_keys w"
    "sm_control_queues w' = sm_control_queues w" "sm_thread_streams w' = sm_thread_streams w"
    "sm_message_stores w' = sm_message_stores w" "sm_active_runs w' = sm_active_runs w"
    "sm_pending_run_deletes w' = sm_pending_run_deletes w" "sm_stopped w' = sm_stopped w"
  using assms by (auto simp: tables_def)

text \<open>An operation that only puts messages into queues: the tables stay, the ids advance.\<close>

definition only_messages :: "stream \<Rightarrow> stream \<Rightarrow> bool" where
  "only_messages w w' \<longleftrightarrow> tables w' = tables w \<and>
     (ids_ok (sm_ids w) \<longrightarrow> ids_ok (sm_ids w') \<and> id_pos (sm_ids w) \<le> id_pos (sm_ids w'))"

named_theorems only_messages_intros \<open>operations that only put messages into queues\<close>

lemma only_messages_refl [only_messages_intros]: "only_messages w w"
  by (simp add: only_messages_def)

lemma only_messages_trans: "only_messages u v \<Longrightarrow> only_messages v w \<Longrightarrow> only_messages u w"
  by (auto simp: only_messages_def)

lemma only_messages_fold [only_messages_intros]:
  "(\<And>x w. only_messages w (f x w)) \<Longrightarrow> only_messages w (fold f xs w)"
  by (induction xs arbitrary: w) (auto intro: only_messages_refl only_messages_trans)

lemma only_messages_heap [only_messages_intros]: "only_messages w (w\<lparr>sm_heap := h\<rparr>)"
  by (simp add: only_messages_def tables_def)

lemma only_messages_queue_put [only_messages_intros]: "only_messages w (queue_put m q w)"
  by (simp add: queue_put_def only_messages_heap)

lemma only_messages_new_queue [only_messages_intros]: "only_messages w (snd (new_queue w))"
  by (simp add: new_queue_def only_messages_def tables_def)

lemma only_messages_stamp [only_messages_intros]: "only_messages w (snd (stamp m w))"
  using generate_state(1,2) [of "sm_ids w"]
  by (auto simp: stamp_def only_messages_def tables_def split: prod.splits)

lemma stamp_put [only_messages_intros]:
  "only_messages w (case stamp m w of (m', w') \<Rightarrow> queue_put m' q w')"
proof -
  obtain m' w' where s: "stamp m w = (m', w')" by fastforce
  then have "only_messages w w'"
    using only_messages_stamp [of w m] by simp
  then show ?thesis
    using s by (auto intro: only_messages_trans only_messages_queue_put)
qed

lemma only_messages_finish [only_messages_intros]:
  "only_messages w (close_queue q w)" "only_messages w (finish_control_queue r q w)"
  "only_messages w (finish_run_queue enc r q w)"
  by (simp_all add: close_queue_def finish_control_queue_def finish_run_queue_def stamp_put)

lemma only_messages_signal [only_messages_intros]: "only_messages w (signal_run enc t r w)"
  unfolding signal_run_def Let_def
  by (rule only_messages_trans) (rule only_messages_fold, rule only_messages_finish)+

lemma only_messages_put_thread [only_messages_intros]: "only_messages w (put_thread u m w)"
proof (cases "sm_stopped w")
  case True
  then show ?thesis by (simp add: put_thread_def only_messages_refl)
next
  case False
  obtain m' w' where s: "stamp m w = (m', w')" by fastforce
  have "only_messages w w'"
    using only_messages_stamp [of w m] s by simp
  then show ?thesis
    using False s by (auto simp: put_thread_def intro: only_messages_trans only_messages_fold
        only_messages_queue_put)
qed

section \<open>The invariant is kept\<close>

lemma store_ok_later: "store_ok s ms \<Longrightarrow> id_pos s \<le> id_pos s' \<Longrightarrow> store_ok s' ms"
  unfolding store_ok_def by (meson stream_ids.log_later)

lemma stream_inv_only_messages:
  assumes "stream_inv w" and "only_messages w w'"
  shows "stream_inv w'"
proof -
  have ids: "ids_ok (sm_ids w')" "id_pos (sm_ids w) \<le> id_pos (sm_ids w')"
    using assms by (auto simp: stream_inv_def only_messages_def)
  have t: "tables w' = tables w"
    using assms(2) by (simp add: only_messages_def)
  show ?thesis
    using assms(1) ids unfolding stream_inv_def run_absent_def tables_empty_def tables_eqD [OF t]
    by (blast intro: store_ok_later)
qed

lemma tidy_queues_Nil [simp]: "tidy_queues []"
  by (simp add: tidy_queues_def)

lemma tidy_queues_put: "tidy_queues d \<Longrightarrow> qs \<noteq> [] \<Longrightarrow> tidy_queues (nested_put d t r qs)"
  by (auto simp: tidy_queues_def no_empty_put dict_simps)

lemma tidy_queues_pop: "tidy_queues d \<Longrightarrow> tidy_queues (nested_pop d t r)"
  by (auto simp: tidy_queues_def no_empty_pop dict_simps)

lemma tidy_queues_delete: "tidy_queues d \<Longrightarrow> tidy_queues (AList.delete t d)"
  by (auto simp: tidy_queues_def no_empty_delete dict_simps)

lemma tidy_queues_remove_from: "tidy_queues d \<Longrightarrow> tidy_queues (remove_from d t r q)"
  by (auto simp: remove_from_def Let_def tidy_queues_put tidy_queues_pop split: option.splits)

lemma remove_from_Nil [simp]: "remove_from [] t r q = []"
  by (simp add: remove_from_def)

lemma remove_from_None:
  "nested_get d t' r' = None \<Longrightarrow> nested_get (remove_from d t r q) t' r' = None"
  by (auto simp: remove_from_def Let_def dict_simps split: option.splits)

lemma stream_inv_put:
  assumes "stream_inv w"
  shows "stream_inv (put_message r th m b w)"
proof (cases "sm_stopped w \<or> (thread_key th, r) \<in> set (sm_pending_run_deletes w)")
  case True
  then show ?thesis using assms by (simp add: put_message_def Let_def)
next
  case False
  let ?t = "thread_key th"
  obtain i s where g: "generate_ms_seq_id (sm_ids w) = (i, s)" by fastforce
  let ?m = "m\<lparr>m_id := Some i\<rparr>"
  let ?w1 = "w\<lparr>sm_ids := s\<rparr>"
  let ?ms = "list_at (sm_message_stores w) ?t r @ [?m]"
  have inv1: "stream_inv ?w1"
    using stream_inv_only_messages [OF assms only_messages_stamp [of w m]] g by (simp add: stamp_def)
  have ok: "ids_ok (sm_ids w)"
    using assms by (simp add: stream_inv_def)
  have new: "store_ok s ?ms"
  proof -
    have "store_ok (sm_ids w) (list_at (sm_message_stores w) ?t r)"
      using assms by (auto simp: stream_inv_def list_at_def store_ok_def id_log_ok_def split: option.splits)
    then obtain js where "map m_id (list_at (sm_message_stores w) ?t r) = map Some js"
        "id_log_ok parse_ms_seq_id (id_pos (sm_ids w)) js"
      by (auto simp: store_ok_def)
    then show ?thesis
      using stream_ids.log_append [OF ok, of js] g
      by (auto simp: store_ok_def intro!: exI [of _ "js @ [i]"])
  qed
  let ?w2 = "(if b then ?w1\<lparr>sm_message_stores := nested_put (sm_message_stores w) ?t r ?ms\<rparr> else ?w1)"
  have inv2: "stream_inv ?w2"
    using inv1 new False by (auto simp: stream_inv_def run_absent_def no_empty_put dict_simps)
  let ?w3 = "?w2\<lparr>sm_control_keys := nested_put (sm_control_keys w) ?t r ?m\<rparr>"
  have inv3: "stream_inv ?w3"
    using inv2 False by (cases b) (auto simp: stream_inv_def run_absent_def no_empty_put dict_simps)
  have "put_message r th m b w =
      (if substring ''control'' (m_topic m)
       then fold (queue_put ?m) (list_at (sm_control_queues w) ?t r) ?w3
       else fold (queue_put ?m) (list_at (sm_queues w) ?t r) ?w2)"
    using False g by (auto simp: put_message_def stamp_def Let_def)
  then show ?thesis
    using stream_inv_only_messages [OF inv2 only_messages_fold [OF only_messages_queue_put]]
      stream_inv_only_messages [OF inv3 only_messages_fold [OF only_messages_queue_put]]
    by auto
qed

lemma stream_inv_new_queue: "stream_inv w \<Longrightarrow> stream_inv (snd (new_queue w))"
  by (rule stream_inv_only_messages [OF _ only_messages_new_queue])

lemma stream_inv_close_queue: "stream_inv w \<Longrightarrow> stream_inv (close_queue q w)"
  by (rule stream_inv_only_messages [OF _ only_messages_finish(1)])

lemma stream_inv_finish_control_queue: "stream_inv w \<Longrightarrow> stream_inv (finish_control_queue r q w)"
  by (rule stream_inv_only_messages [OF _ only_messages_finish(2)])

lemma stream_inv_add_queue: "stream_inv w \<Longrightarrow> stream_inv (snd (add_queue r th w))"
  using stream_inv_new_queue [of w]
  by (auto simp: add_queue_def Let_def stream_inv_close_queue split: prod.splits)
     (auto simp: stream_inv_def run_absent_def tidy_queues_put dict_simps)

lemma stream_inv_add_control_queue: "stream_inv w \<Longrightarrow> stream_inv (snd (add_control_queue r th w))"
  using stream_inv_new_queue [of w]
  by (auto simp: add_control_queue_def Let_def stream_inv_finish_control_queue split: prod.splits)
     (auto simp: stream_inv_def run_absent_def tidy_queues_put dict_simps)

lemma no_empty_update: "no_empty d \<Longrightarrow> v \<noteq> [] \<Longrightarrow> no_empty (AList.update k v d)"
  by (auto simp: no_empty_def dict_simps)

lemma stream_inv_add_thread_stream: "stream_inv w \<Longrightarrow> stream_inv (snd (add_thread_stream u w))"
  using stream_inv_new_queue [of w]
  by (auto simp: add_thread_stream_def Let_def stream_inv_close_queue split: prod.splits)
     (auto simp: stream_inv_def run_absent_def no_empty_update)

lemma stream_inv_remove_queue: "stream_inv w \<Longrightarrow> stream_inv (remove_queue r th q w)"
  by (auto simp: stream_inv_def remove_queue_def run_absent_def tables_empty_def
      tidy_queues_remove_from remove_from_None)

lemma stream_inv_remove_control_queue: "stream_inv w \<Longrightarrow> stream_inv (remove_control_queue r th q w)"
  by (auto simp: stream_inv_def remove_control_queue_def run_absent_def tables_empty_def
      tidy_queues_remove_from remove_from_None)

lemma stream_inv_remove_thread_stream: "stream_inv w \<Longrightarrow> stream_inv (remove_thread_stream u q w)"
  by (auto simp: stream_inv_def remove_thread_stream_def run_absent_def tables_empty_def Let_def
      no_empty_update no_empty_delete split: option.splits)

lemma stream_inv_mark_run_active: "stream_inv w \<Longrightarrow> stream_inv (mark_run_active r th w)"
  by (auto simp: stream_inv_def mark_run_active_def run_absent_def tables_empty_def Let_def)

lemma run_absent_clear [simp]:
  "run_absent t' r' (clear_run_state t r w) \<longleftrightarrow> t' = t \<and> r' = r \<or> run_absent t' r' w"
  by (auto simp: run_absent_def clear_run_state_def dict_simps)

lemma nested_pop_Nil [simp]: "nested_pop [] t r = []"
  by (simp add: nested_pop_def)

lemma stream_inv_clear: "stream_inv w \<Longrightarrow> stream_inv (clear_run_state t r w)"
  by (auto simp: stream_inv_def clear_run_state_def run_absent_def tables_empty_def
      tidy_queues_pop no_empty_pop dict_simps)

lemma stream_inv_mark_run_inactive: "stream_inv w \<Longrightarrow> stream_inv (mark_run_inactive r th w)"
  by (auto simp: stream_inv_def mark_run_inactive_def clear_run_state_def run_absent_def
      tables_empty_def tidy_queues_pop no_empty_pop dict_simps Let_def)

lemma stream_inv_release: "stream_inv w \<Longrightarrow> stream_inv (release_run enc t r w)"
proof -
  assume "stream_inv w"
  then have s: "stream_inv (signal_run enc t r w)"
    by (rule stream_inv_only_messages [OF _ only_messages_signal])
  show ?thesis
    using s unfolding release_run_def defer_delete_def
    by (auto simp: stream_inv_clear) (auto simp: stream_inv_def clear_run_state_def run_absent_def
        tables_empty_def tidy_queues_pop no_empty_pop dict_simps)
qed

lemma stream_inv_fold:
  "(\<And>x w. stream_inv w \<Longrightarrow> stream_inv (f x w)) \<Longrightarrow> stream_inv w \<Longrightarrow> stream_inv (fold f xs w)"
  by (induction xs arbitrary: w) auto

lemma stream_inv_drop_thread:
  "stream_inv w \<Longrightarrow> stream_inv (w\<lparr>sm_queues := AList.delete t (sm_queues w),
     sm_control_queues := AList.delete t (sm_control_queues w),
     sm_control_keys := AList.delete t (sm_control_keys w),
     sm_message_stores := AList.delete t (sm_message_stores w)\<rparr>)"
  by (auto simp: stream_inv_def run_absent_def tables_empty_def tidy_queues_delete no_empty_delete
      dict_simps)

lemma stream_inv_drop_thread_stream:
  "stream_inv w \<Longrightarrow> stream_inv (w\<lparr>sm_thread_streams := AList.delete u (sm_thread_streams w)\<rparr>)"
  by (auto simp: stream_inv_def run_absent_def tables_empty_def no_empty_delete)

lemma stream_inv_delete_thread: "stream_inv w \<Longrightarrow> stream_inv (stream_delete_thread enc u w)"
  unfolding stream_delete_thread_def Let_def
  by (intro stream_inv_drop_thread_stream stream_inv_fold [of close_queue] stream_inv_close_queue
      stream_inv_drop_thread stream_inv_fold [of "release_run enc (TKey u)"] stream_inv_release)

lemma ids_close_stream:
  "ids_ok (sm_ids w) \<Longrightarrow> ids_ok (sm_ids (close_stream enc w))"
proof -
  assume ok: "ids_ok (sm_ids w)"
  let ?w = "w\<lparr>sm_stopped := True\<rparr>"
  have m: "only_messages ?w (fold close_queue ys (fold (\<lambda>(t, r). signal_run enc t r) xs ?w))" for xs ys
    by (rule only_messages_trans; rule only_messages_fold)
       (auto intro: only_messages_intros)
  show ?thesis
    using m ok by (auto simp: close_stream_def Let_def only_messages_def)
qed

lemma stream_inv_new: "ids_ok i \<Longrightarrow> stream_inv (new_stream h n i)"
  by (simp add: stream_inv_def new_stream_def)

lemma close_stream_tables:
  "tables_empty (close_stream enc w)"
  by (simp add: close_stream_def Let_def tables_empty_def)

lemma stream_inv_close: "stream_inv w \<Longrightarrow> stream_inv (close_stream enc w)"
  using close_stream_tables [of enc w] ids_close_stream [of w enc]
  by (simp add: stream_inv_def tables_empty_def run_absent_def)

lemma stream_inv_start: "stream_inv w \<Longrightarrow> stream_inv (start_stream enc w)"
  using stream_inv_new [OF ids_close_stream [of w enc]]
  by (simp add: start_stream_def Let_def stream_inv_def)

lemmas stream_inv_intros = stream_inv_put stream_inv_add_queue stream_inv_add_control_queue
  stream_inv_add_thread_stream stream_inv_remove_queue stream_inv_remove_control_queue
  stream_inv_remove_thread_stream stream_inv_mark_run_active stream_inv_mark_run_inactive
  stream_inv_delete_thread stream_inv_start

lemma stream_inv_step: "stream_step enc w w' \<Longrightarrow> stream_inv w \<Longrightarrow> stream_inv w'"
  by (induction rule: stream_step.induct)
     (auto intro: stream_inv_intros
        stream_inv_only_messages only_messages_put_thread only_messages_heap
        simp: delete_run_def stream_inv_release stop_stream_def stream_inv_close)

lemma stream_inv_reachable:
  assumes "stream_reachable enc wall w" and "\<And>n. 0 \<le> wall n"
  shows "stream_inv w"
  using assms
proof (induction rule: stream_reachable.induct)
  case reach_init
  then show ?case by (simp add: stream_inv_new init_ids_def ids_ok_def)
next
  case (reach_step w w')
  then show ?case by (blast intro: stream_inv_step)
qed

section \<open>What the operations do to one run\<close>

lemma signal_run_tables [simp]: "tables (signal_run enc t r w) = tables w"
  using only_messages_signal [of w enc t r] by (simp add: only_messages_def)

lemmas signal_run_fields [simp] = tables_eqD [OF signal_run_tables]

lemma release_run_tables:
  "nested_get (sm_queues (release_run enc t r w)) t' r' =
     (if t' = t \<and> r' = r then None else nested_get (sm_queues w) t' r')"
  "nested_get (sm_control_queues (release_run enc t r w)) t' r' =
     (if t' = t \<and> r' = r then None else nested_get (sm_control_queues w) t' r')"
  "nested_get (sm_control_keys (release_run enc t r w)) t' r' =
     (if t' = t \<and> r' = r then None else nested_get (sm_control_keys w) t' r')"
  "nested_get (sm_message_stores (release_run enc t r w)) t' r' =
     (if t' = t \<and> r' = r then None else nested_get (sm_message_stores w) t' r')"
  "sm_active_runs (release_run enc t r w) = sm_active_runs w"
  "set (sm_pending_run_deletes (release_run enc t r w)) =
     set (sm_pending_run_deletes w) \<union> ({(t, r)} \<inter> set (sm_active_runs w))"
  "sm_thread_streams (release_run enc t r w) = sm_thread_streams w"
  "sm_stopped (release_run enc t r w) = sm_stopped w"
  by (auto simp: release_run_def clear_run_state_def defer_delete_def dict_simps)

lemma fold_queue_put_heap:
  "sm_heap (fold (queue_put m) qs w) q = sm_heap w q @ replicate (count_list qs q) m"
  by (induction qs arbitrary: w) (auto simp: queue_put_def replicate_append_same)

lemma fold_queue_put_ids [simp]: "sm_ids (fold (queue_put m) qs w) = sm_ids w"
  by (induction qs arbitrary: w) (auto simp: queue_put_def)

lemma after_cursor_the:
  "m_id m = Some i \<Longrightarrow> after_cursor p m = (case parse_ms_seq_id (the (m_id m)) of Inl _ \<Rightarrow> False | Inr c \<Rightarrow> c > p)"
  by (simp add: after_cursor_def)

lemma parse_has_hyphen: "parse_ms_seq_id s = Inr p \<Longrightarrow> CHR ''-'' \<in> set s"
  by (auto simp: parse_ms_seq_id_def partition_at_def Let_def split: if_splits)

lemma store_resume:
  assumes "store_ok st ms" and "k < length ms" and "m_id (ms ! k) = Some i"
  shows "\<exists>p. parse_ms_seq_id i = Inr p \<and> filter (after_cursor p) ms = drop (Suc k) ms"
proof -
  obtain js where js: "map m_id ms = map Some js" "id_log_ok parse_ms_seq_id (id_pos st) js"
    using assms(1) by (auto simp: store_ok_def)
  have the_is: "map (\<lambda>m. the (m_id m)) ms = js"
    using arg_cong [OF js(1), of "map the"] by (simp add: comp_def)
  have some: "\<forall>m \<in> set ms. m_id m \<noteq> None"
    using js(1) by (metis (no_types, lifting) ex_map_conv option.distinct(1) list.set_map image_eqI imageE)
  obtain ps where ps: "map parse_ms_seq_id js = map Inr ps"
    using js(2) by (auto simp: id_log_ok_def)
  have len: "length js = length ps"
    using arg_cong [OF ps, of length] by simp
  have "k < length js"
    using the_is assms(2) by auto
  then have "parse_ms_seq_id (js ! k) = Inr (ps ! k)"
    using arg_cong [OF ps, of "\<lambda>ys. ys ! k"] len by simp
  moreover have "js ! k = i"
    using the_is assms(2,3) by auto
  ultimately have p: "parse_ms_seq_id i = Inr (ps ! k)" by simp
  have "filter (after_cursor (ps ! k)) ms =
      filter (\<lambda>m. case parse_ms_seq_id (the (m_id m)) of Inl _ \<Rightarrow> False | Inr c \<Rightarrow> c > ps ! k) ms"
    using some by (intro filter_cong) (auto simp: after_cursor_the)
  also have "\<dots> = drop (Suc k) ms"
    by (rule stream_ids.log_resume [of "id_pos st" "\<lambda>m. the (m_id m)"])
       (use js(2) the_is assms p in auto)
  finally show ?thesis using p by blast
qed

lemma fold_release_tables:
  "nested_get (sm_queues (fold (release_run enc t) rs w)) t' r' =
     (if t' = t \<and> r' \<in> set rs then None else nested_get (sm_queues w) t' r')"
  "nested_get (sm_control_queues (fold (release_run enc t) rs w)) t' r' =
     (if t' = t \<and> r' \<in> set rs then None else nested_get (sm_control_queues w) t' r')"
  "nested_get (sm_control_keys (fold (release_run enc t) rs w)) t' r' =
     (if t' = t \<and> r' \<in> set rs then None else nested_get (sm_control_keys w) t' r')"
  "nested_get (sm_message_stores (fold (release_run enc t) rs w)) t' r' =
     (if t' = t \<and> r' \<in> set rs then None else nested_get (sm_message_stores w) t' r')"
  "sm_active_runs (fold (release_run enc t) rs w) = sm_active_runs w"
  "set (sm_pending_run_deletes (fold (release_run enc t) rs w)) =
     set (sm_pending_run_deletes w) \<union> ({t} \<times> set rs \<inter> set (sm_active_runs w))"
  "sm_thread_streams (fold (release_run enc t) rs w) = sm_thread_streams w"
  by (induction rs arbitrary: w) (auto simp: release_run_tables)

lemma fold_close_queue_tables [simp]: "tables (fold close_queue qs w) = tables w"
  using only_messages_fold [of close_queue w qs] only_messages_finish(1)
  by (auto simp: only_messages_def)

lemmas fold_close_queue_fields [simp] = tables_eqD [OF fold_close_queue_tables]

lemma active_in_thread_run_ids: "(t, r) \<in> set (sm_active_runs w) \<Longrightarrow> r \<in> set (thread_run_ids t w)"
proof -
  assume "(t, r) \<in> set (sm_active_runs w)"
  then have "(t, r) \<in> set (filter (\<lambda>k. fst k = t) (sm_active_runs w))" by simp
  then have "snd (t, r) \<in> snd ` set (filter (\<lambda>k. fst k = t) (sm_active_runs w))" by (rule imageI)
  then show ?thesis unfolding thread_run_ids_def set_remdups set_append set_map by (simp only: snd_conv UnI2)
qed

text \<open>The ids of \<open>n\<close> successive messages.\<close>

fun generate_many :: "nat \<Rightarrow> id_state \<Rightarrow> string list \<times> id_state" where
  "generate_many 0 s = ([], s)"
| "generate_many (Suc n) s =
     (let (is, s) = generate_many n s; (i, s) = generate_ms_seq_id s in (is @ [i], s))"

lemma generate_many_log:
  "ids_ok s \<Longrightarrow> ids_ok (snd (generate_many n s)) \<and>
     id_log_ok parse_ms_seq_id (id_pos (snd (generate_many n s))) (fst (generate_many n s))"
proof (induction n)
  case 0
  then show ?case by (simp add: id_log_ok_def)
next
  case (Suc n)
  obtain js t where m: "generate_many n s = (js, t)" by fastforce
  obtain i u where g: "generate_ms_seq_id t = (i, u)" by fastforce
  show ?case
    using Suc m g stream_ids.log_append [of t js] generate_state(1) [of t] by simp
qed

section \<open>Properties\<close>

text \<open>C2: After a reconnection with the id of a stored message as its cursor, a resumable run
  stream replays exactly the messages stored after that one: none is lost, none is repeated,
  whatever the wall clock did in between.\<close>

theorem resume_after_cursor:
  assumes "stream_reachable enc wall w" and "\<forall>n. 0 \<le> wall n"
    and "nested_get (sm_message_stores w) (thread_key th) r = Some ms"
    and "k < length ms" and "m_id (ms ! k) = Some i"
  shows "restore_messages r th (Some i) w = Inr (drop (Suc k) ms)"
proof -
  have "stream_inv w"
    using assms(1,2) stream_inv_reachable by blast
  then have "store_ok (sm_ids w) ms"
    using assms(3) by (simp add: stream_inv_def)
  then obtain p where "parse_ms_seq_id i = Inr p" "filter (after_cursor p) ms = drop (Suc k) ms"
    using store_resume assms(4,5) by blast
  then show ?thesis
    using assms(3) parse_has_hyphen by (auto simp: restore_messages_def list_at_def)
qed

text \<open>C3: While a deleted run's context is still active, its late publications and
  subscriptions cannot bring its stream state back: in every reachable state a run with a
  pending deletion has no queue, control queue, control key or stored message, and none
  appears when a message is put or a queue is added for it.\<close>

theorem pending_delete_stays_absent:
  assumes "stream_reachable enc wall w" and "\<forall>n. 0 \<le> wall n"
    and "(thread_key th, r) \<in> set (sm_pending_run_deletes w)"
  shows "run_absent (thread_key th) r w \<and>
    run_absent (thread_key th) r (put_message r th m b w) \<and>
    run_absent (thread_key th) r (snd (add_queue r th w)) \<and>
    run_absent (thread_key th) r (snd (add_control_queue r th w))"
proof -
  let ?k = "(thread_key th, r)"
  have absent: "run_absent (thread_key th) r w'"
    if "stream_inv w'" "sm_pending_run_deletes w' = sm_pending_run_deletes w" for w'
    using that assms(3) by (auto simp: stream_inv_def)
  have inv: "stream_inv w"
    using assms(1,2) stream_inv_reachable by blast
  have pend: "sm_pending_run_deletes (put_message r th m b w) = sm_pending_run_deletes w"
    using assms(3) by (simp add: put_message_def)
  obtain q w1 where n: "new_queue w = (q, w1)" by fastforce
  have p1: "sm_pending_run_deletes w1 = sm_pending_run_deletes w"
    using n by (auto simp: new_queue_def)
  have p2: "sm_pending_run_deletes (snd (add_queue r th w)) = sm_pending_run_deletes w"
    using n p1 assms(3) tables_eqD(7) [of "close_queue q w1" w1] only_messages_finish(1) [of w1 q]
    by (simp add: add_queue_def only_messages_def)
  have p3: "sm_pending_run_deletes (snd (add_control_queue r th w)) = sm_pending_run_deletes w"
    using n p1 assms(3) tables_eqD(7) [of "finish_control_queue r q w1" w1]
      only_messages_finish(2) [of w1 r q]
    by (simp add: add_control_queue_def only_messages_def)
  show ?thesis
    using absent [OF inv] absent [OF stream_inv_put [OF inv] pend]
      absent [OF stream_inv_add_queue [OF inv] p2] absent [OF stream_inv_add_control_queue [OF inv] p3]
    by simp
qed


text \<open>C5: A published message is appended to every queue subscribed to its run (a control
  message to the run's control queues), once per subscription, and to no other queue.\<close>

theorem put_delivers_to_subscribers:
  assumes "\<not> sm_stopped w" and "(thread_key th, r) \<notin> set (sm_pending_run_deletes w)"
  shows "sm_heap (put_message r th m b w) q =
     sm_heap w q @
       replicate
         (count_list (if substring ''control'' (m_topic m) then get_control_queues r th w
                      else get_queues r th w) q)
         (m\<lparr>m_id := Some (fst (generate_ms_seq_id (sm_ids w)))\<rparr>)"
  using assms
  by (auto simp: put_message_def stamp_def Let_def fold_queue_put_heap get_queues_def
      get_control_queues_def split: prod.splits)

text \<open>Deleting a thread releases the stream state of every one of its runs and its
  thread-level subscriptions, remembers the deletion for exactly those of its runs whose context
  is active, and leaves the other threads' tables alone.\<close>

theorem delete_thread_isolated:
  "(\<forall>r. run_absent (TKey u) r (stream_delete_thread enc u w)) \<and>
   map_of (sm_thread_streams (stream_delete_thread enc u w)) u = None \<and>
   (\<forall>t r. t \<noteq> TKey u \<longrightarrow>
      nested_get (sm_queues (stream_delete_thread enc u w)) t r = nested_get (sm_queues w) t r \<and>
      nested_get (sm_control_queues (stream_delete_thread enc u w)) t r = nested_get (sm_control_queues w) t r \<and>
      nested_get (sm_control_keys (stream_delete_thread enc u w)) t r = nested_get (sm_control_keys w) t r \<and>
      nested_get (sm_message_stores (stream_delete_thread enc u w)) t r = nested_get (sm_message_stores w) t r) \<and>
   set (sm_pending_run_deletes (stream_delete_thread enc u w)) =
     set (sm_pending_run_deletes w) \<union> {k \<in> set (sm_active_runs w). fst k = TKey u}"
  by (auto simp: stream_delete_thread_def Let_def run_absent_def fold_release_tables dict_simps
      intro: active_in_thread_run_ids)

text \<open>C6: Message ids are unique and monotone for the whole process: however the wall clock
  moves, backwards included, the ids of any number of successive messages parse back to
  millisecond-sequence pairs that increase strictly.\<close>

theorem generated_ids_increase:
  assumes "ids_ok s"
  shows "\<exists>ps. map parse_ms_seq_id (fst (generate_many n s)) = map Inr ps \<and> sorted_wrt (<) ps \<and>
    length ps = n"
proof -
  have len: "length (fst (generate_many n s)) = n"
    by (induction n) (auto split: prod.splits)
  obtain ps where ps: "map parse_ms_seq_id (fst (generate_many n s)) = map Inr ps" "sorted_wrt (<) ps"
    using generate_many_log [OF assms, of n] by (auto simp: id_log_ok_def)
  then have "length ps = n"
    using map_eq_imp_length_eq [OF ps(1)] len by simp
  with ps show ?thesis by blast
qed

section \<open>Witnesses\<close>

definition demo_codec :: codec where
  "demo_codec e d = e @ '':'' @ d"

definition demo_msg :: message where
  "demo_msg = \<lparr>m_topic = ''run:1:stream'', m_data = ''x'', m_id = None\<rparr>"

text \<open>A run with two stored messages, published while the clock stood still; and the same run
  deleted while its context is active.\<close>

definition demo_stored :: stream where
  "demo_stored =
     put_message 1 (Some 2) demo_msg True
       (put_message 1 (Some 2) demo_msg True
         (mark_run_active 1 (Some 2) (new_stream (\<lambda>_. []) 0 (init_ids (\<lambda>_. 5)))))"

definition demo_deleted :: stream where
  "demo_deleted = delete_run demo_codec 1 (Some 2) demo_stored"

lemma demo_stored_reachable: "stream_reachable demo_codec (\<lambda>_. 5) demo_stored"
  unfolding demo_stored_def
  by (intro reach_step [OF _ step_put] reach_step [OF _ step_active] reach_init)

lemma demo_deleted_reachable: "stream_reachable demo_codec (\<lambda>_. 5) demo_deleted"
  unfolding demo_deleted_def
  by (rule reach_step [OF demo_stored_reachable step_delete_run])

theorem resume_after_cursor_witness:
  "restore_messages 1 (Some 2) (Some ''5-0'') demo_stored =
     Inr (drop (Suc 0) [demo_msg\<lparr>m_id := Some ''5-0''\<rparr>, demo_msg\<lparr>m_id := Some ''5-1''\<rparr>])"
proof -
  have "nested_get (sm_message_stores demo_stored) (thread_key (Some 2)) 1 =
      Some [demo_msg\<lparr>m_id := Some ''5-0''\<rparr>, demo_msg\<lparr>m_id := Some ''5-1''\<rparr>]"
    by code_simp
  from resume_after_cursor [OF demo_stored_reachable _ this, of 0 "''5-0''"]
  show ?thesis by simp
qed

theorem pending_delete_stays_absent_witness:
  "run_absent (thread_key (Some 2)) 1 (put_message 1 (Some 2) demo_msg True demo_deleted)"
proof -
  have "(thread_key (Some 2), 1) \<in> set (sm_pending_run_deletes demo_deleted)"
    by code_simp
  from pending_delete_stays_absent [OF demo_deleted_reachable _ this] show ?thesis by simp
qed

theorem put_delivers_to_subscribers_witness:
  "sm_heap (put_message 1 (Some 2) demo_msg True (snd (add_queue 1 (Some 2) demo_stored))) 0 =
     [demo_msg\<lparr>m_id := Some ''5-2''\<rparr>]"
proof -
  let ?w = "snd (add_queue 1 (Some 2) demo_stored)"
  have h: "\<not> sm_stopped ?w" "(thread_key (Some 2), 1) \<notin> set (sm_pending_run_deletes ?w)"
    by code_simp+
  have "sm_heap ?w 0 = []" "get_queues 1 (Some 2) ?w = [0]"
      "fst (generate_ms_seq_id (sm_ids ?w)) = ''5-2''" "\<not> substring ''control'' (m_topic demo_msg)"
    by code_simp+
  then show ?thesis
    using put_delivers_to_subscribers [OF h, of demo_msg True 0] by simp
qed

theorem generated_ids_increase_witness:
  "\<exists>ps. map parse_ms_seq_id (fst (generate_many 3 (init_ids (\<lambda>n. if n = 1 then 3 else 5)))) = map Inr ps \<and>
    sorted_wrt (<) ps \<and> length ps = 3"
  by (rule generated_ids_increase) (simp add: ids_ok_def init_ids_def)


theorem delete_thread_isolated_witness:
  "run_absent (TKey 2) 1 (stream_delete_thread demo_codec 2 demo_stored) \<and>
   nested_get (sm_message_stores demo_stored) (TKey 2) 1 \<noteq> None \<and>
   nested_get (sm_message_stores (stream_delete_thread demo_codec 3 demo_stored)) (TKey 2) 1 =
     nested_get (sm_message_stores demo_stored) (TKey 2) 1"
proof -
  have "nested_get (sm_message_stores demo_stored) (TKey 2) 1 \<noteq> None"
    by code_simp
  then show ?thesis
    using delete_thread_isolated [of 2 demo_codec demo_stored]
      delete_thread_isolated [of 3 demo_codec demo_stored] by simp
qed

end
