(* ===== verification/Delta_Walk.thy ===== *)
theory Delta_Walk
  imports Prelude
begin

text \<open>
  The ancestor walk that both savers run before they delete checkpoints: from the parent of a
  surviving checkpoint up the parent links, as long as some channel has not met a materialized
  snapshot (\<open>prune\<close> and \<open>delete_for_runs\<close> of \<open>checkpoint.py\<close>, \<open>_remove_history\<close> of
  \<open>postgres.py\<close>).

  The walk is generic in the checkpoints (\<open>cps\<close>, a dictionary), the parent link \<open>par\<close> and the
  test \<open>sat\<close> that an entry holds a materialized snapshot of a channel. The parent links of
  stored data may be cyclic or dangling: the \<open>visited\<close> set ends the loop.
\<close>

section \<open>The walk\<close>

function delta_walk ::
  "('i \<times> 'e) list \<Rightarrow> ('e \<Rightarrow> 'i option) \<Rightarrow> ('e \<Rightarrow> string \<Rightarrow> bool) \<Rightarrow> 'i list \<Rightarrow> string list \<Rightarrow> 'i option
     \<Rightarrow> 'i list" where
  "delta_walk cps par sat visited needed None = []"
| "delta_walk cps par sat visited needed (Some p) =
     (if needed = [] \<or> p \<in> set visited then []
      else case map_of cps p of
             None \<Rightarrow> []
           | Some e \<Rightarrow>
               p # delta_walk cps par sat (p # visited) (filter (\<lambda>ch. \<not> sat e ch) needed) (par e))"
  by pat_completeness auto

termination
proof (relation "measure (\<lambda>(cps, _, _, visited, _, _). card (fst ` set cps - set visited))", goal_cases)
  case 1
  show ?case by simp
next
  case (2 cps par sat visited needed p e)
  then have "p \<in> fst ` set cps - set visited"
    by (auto dest: map_of_SomeD intro: rev_image_eqI)
  then have "card (fst ` set cps - set (p # visited)) < card (fst ` set cps - set visited)"
    by (intro psubset_card_mono) auto
  then show ?case by simp
qed

declare delta_walk.simps(2) [simp del]

text \<open>
  What the walk is for: \<open>needs cps par sat p ch q\<close> holds when rebuilding channel \<open>ch\<close> from \<open>p\<close>
  upwards reads checkpoint \<open>q\<close>.
\<close>

inductive needs ::
  "('i \<times> 'e) list \<Rightarrow> ('e \<Rightarrow> 'i option) \<Rightarrow> ('e \<Rightarrow> string \<Rightarrow> bool) \<Rightarrow> 'i option \<Rightarrow> string \<Rightarrow> 'i \<Rightarrow> bool"
  for cps par sat where
  needs_here: "map_of cps p = Some e \<Longrightarrow> needs cps par sat (Some p) ch p"
| needs_up: "map_of cps p = Some e \<Longrightarrow> \<not> sat e ch \<Longrightarrow> needs cps par sat (par e) ch q \<Longrightarrow>
    needs cps par sat (Some p) ch q"

inductive_cases needs_NoneE: "needs cps par sat None ch q"
inductive_cases needs_SomeE: "needs cps par sat (Some p) ch q"

section \<open>The walk collects exactly what is needed\<close>

lemma walk_sound:
  "q \<in> set (delta_walk cps par sat visited needed p) \<Longrightarrow>
     \<exists>ch \<in> set needed. needs cps par sat p ch q"
proof (induction cps par sat visited needed p rule: delta_walk.induct)
  case (1 cps par sat visited needed)
  then show ?case by simp
next
  case (2 cps par sat visited needed p)
  from "2.prems" obtain e where
      e: "needed \<noteq> []" "p \<notin> set visited" "map_of cps p = Some e"
    by (cases "map_of cps p") (auto simp: delta_walk.simps(2) split: if_splits)
  with "2.prems" have
      q: "q = p \<or> q \<in> set (delta_walk cps par sat (p # visited) (filter (\<lambda>ch. \<not> sat e ch) needed) (par e))"
    by (simp add: delta_walk.simps(2))
  from q show ?case
  proof
    assume "q = p"
    then show ?thesis
      using e needs_here by (metis last_in_set)
  next
    assume "q \<in> set (delta_walk cps par sat (p # visited) (filter (\<lambda>ch. \<not> sat e ch) needed) (par e))"
    then obtain ch where "ch \<in> set needed" "\<not> sat e ch" "needs cps par sat (par e) ch q"
      using "2.IH" [OF _ e(3)] e(1,2) by auto
    then show ?thesis
      using needs_up [OF e(3)] by blast
  qed
qed

text \<open>
  The visited checkpoints lie on the path the walk has taken: each is stored, satisfies none of
  the channels still needed, and its parent is visited too or is where the walk stands.
\<close>

definition on_path ::
  "('i \<times> 'e) list \<Rightarrow> ('e \<Rightarrow> 'i option) \<Rightarrow> ('e \<Rightarrow> string \<Rightarrow> bool) \<Rightarrow> 'i list \<Rightarrow> string list \<Rightarrow> 'i option \<Rightarrow> bool"
  where
  "on_path cps par sat visited needed p \<longleftrightarrow>
     (\<forall>v \<in> set visited. \<exists>e. map_of cps v = Some e \<and> (\<forall>ch \<in> set needed. \<not> sat e ch) \<and>
        (par e = p \<or> par e \<in> Some ` set visited))"

lemma needs_closed:
  assumes "needs cps par sat p ch q"
    and "\<And>v e. v \<in> V \<Longrightarrow> map_of cps v = Some e \<Longrightarrow> par e \<in> Some ` V \<or> par e = None"
    and "p \<in> Some ` V"
  shows "q \<in> V"
  using assms(1,3)
proof (induction rule: needs.induct)
  case (needs_here p e ch)
  then show ?case by auto
next
  case (needs_up p e ch q)
  then show ?case
    using assms(2) [of p e] by (metis image_iff needs_NoneE option.inject)
qed

lemma walk_complete:
  assumes "needs cps par sat p ch q" and "ch \<in> set needed" and "on_path cps par sat visited needed p"
  shows "q \<in> set visited \<union> set (delta_walk cps par sat visited needed p)"
  using assms
proof (induction cps par sat visited needed p arbitrary: q rule: delta_walk.induct)
  case (1 cps par sat visited needed)
  then show ?case by (auto elim: needs_NoneE)
next
  case (2 cps par sat visited needed p)
  obtain e where e: "map_of cps p = Some e"
    using "2.prems"(1) by (auto elim: needs_SomeE)
  show ?case
  proof (cases "p \<in> set visited")
    case True
    have "par e' \<in> Some ` set visited"
      if "v \<in> set visited" "map_of cps v = Some e'" for v e'
      using "2.prems"(3) that True by (auto simp: on_path_def)
    then show ?thesis
      using needs_closed [OF "2.prems"(1), of "set visited"] True by auto
  next
    case False
    have ne: "needed \<noteq> []"
      using "2.prems"(2) by auto
    have path: "on_path cps par sat (p # visited) (filter (\<lambda>ch. \<not> sat e ch) needed) (par e)"
      using "2.prems"(3) e by (fastforce simp: on_path_def)
    from "2.prems"(1) show ?thesis
    proof (cases rule: needs.cases)
      case needs_here
      then show ?thesis
        using False ne e by (simp add: delta_walk.simps(2))
    next
      case (needs_up e')
      then have "needs cps par sat (par e) ch q" "ch \<in> set (filter (\<lambda>ch. \<not> sat e ch) needed)"
        using e "2.prems"(2) by auto
      then show ?thesis
        using "2.IH" [OF _ e _ _ path, of q] False ne e by (auto simp: delta_walk.simps(2))
    qed
  qed
qed

lemma set_delta_walk:
  "set (delta_walk cps par sat [] needed p) = {q. \<exists>ch \<in> set needed. needs cps par sat p ch q}"
proof (rule set_eqI, rule iffI)
  fix q
  assume "q \<in> set (delta_walk cps par sat [] needed p)"
  then show "q \<in> {q. \<exists>ch \<in> set needed. needs cps par sat p ch q}"
    using walk_sound by fastforce
next
  fix q
  assume "q \<in> {q. \<exists>ch \<in> set needed. needs cps par sat p ch q}"
  then show "q \<in> set (delta_walk cps par sat [] needed p)"
    using walk_complete [of cps par sat p _ q needed "[]"] by (auto simp: on_path_def)
qed

lemma walk_stored:
  "q \<in> set (delta_walk cps par sat visited needed p) \<Longrightarrow> map_of cps q \<noteq> None"
proof (induction cps par sat visited needed p rule: delta_walk.induct)
  case (2 cps par sat visited needed p)
  then show ?case
    by (cases "map_of cps p") (auto simp: delta_walk.simps(2) split: if_splits)
qed simp

lemma walk_mono:
  "ch \<in> set needed \<Longrightarrow>
     set (delta_walk cps par sat [] [ch] p) \<subseteq> set (delta_walk cps par sat [] needed p)"
  by (auto simp: set_delta_walk)

section \<open>Deleting what is not needed\<close>

text \<open>A walk over fewer checkpoints is the same walk if every checkpoint it meets is still there.\<close>

lemma walk_restrict:
  assumes "\<And>q e. map_of cps' q = Some e \<Longrightarrow> map_of cps q = Some e"
    and "\<And>q e ch. q \<in> set (delta_walk cps par sat visited needed p) \<Longrightarrow> map_of cps q = Some e \<Longrightarrow>
           ch \<in> set needed \<Longrightarrow> map_of cps' q = Some e \<and> sat' e ch = sat e ch"
  shows "delta_walk cps' par sat' visited needed p = delta_walk cps par sat visited needed p"
  using assms
proof (induction cps par sat visited needed p rule: delta_walk.induct)
  case (1 cps par sat visited needed)
  then show ?case by simp
next
  case (2 cps par sat visited needed p)
  show ?case
  proof (cases "needed = [] \<or> p \<in> set visited \<or> map_of cps p = None")
    case True
    then have "needed = [] \<or> p \<in> set visited \<or> map_of cps' p = None"
      using "2.prems"(1) by (cases "map_of cps' p") auto
    with True show ?thesis
      by (auto simp: delta_walk.simps(2) split: option.splits)
  next
    case False
    then obtain e where e: "needed \<noteq> []" "p \<notin> set visited" "map_of cps p = Some e" by auto
    let ?rest = "filter (\<lambda>ch. \<not> sat e ch) needed"
    have w: "delta_walk cps par sat visited needed (Some p) =
        p # delta_walk cps par sat (p # visited) ?rest (par e)"
      using e by (simp add: delta_walk.simps(2))
    have here: "map_of cps' p = Some e \<and> sat' e ch = sat e ch" if "ch \<in> set needed" for ch
      using "2.prems"(2) [of p e ch] w e(3) that by simp
    then have "map_of cps' p = Some e" "filter (\<lambda>ch. \<not> sat' e ch) needed = ?rest"
      using here [of "hd needed"] e(1) by (auto intro: filter_cong)
    moreover have "delta_walk cps' par sat' (p # visited) ?rest (par e) =
        delta_walk cps par sat (p # visited) ?rest (par e)"
    proof (rule "2.IH" [OF _ e(3) "2.prems"(1)])
      show "\<not> (needed = [] \<or> p \<in> set visited)"
        using e by simp
      show "map_of cps' q = Some f \<and> sat' f ch = sat f ch"
        if "q \<in> set (delta_walk cps par sat (p # visited) ?rest (par e))" "map_of cps q = Some f"
          "ch \<in> set ?rest" for q f ch
        using "2.prems"(2) [of q f ch] w that by simp
    qed
    ultimately show ?thesis
      using w e by (simp add: delta_walk.simps(2))
  qed
qed

text \<open>
  A retention policy keeps some of the checkpoints of a history. It is safe when it keeps the
  ones it must and, for each of those, the walk for the channels they need: then every
  single-channel walk from a kept checkpoint is unchanged by the deletion.
\<close>

locale retention =
  fixes cps :: "('i \<times> 'e) list"
    and par :: "'e \<Rightarrow> 'i option"
    and sat :: "'e \<Rightarrow> string \<Rightarrow> bool"
    and need :: "'e \<Rightarrow> string list"
    and must :: "'i \<Rightarrow> bool"
    and keep :: "'i \<Rightarrow> bool"
  assumes keeps_must: "must i \<Longrightarrow> keep i"
    and keeps_walk: "must i \<Longrightarrow> map_of cps i = Some e \<Longrightarrow>
      q \<in> set (delta_walk cps par sat [] (need e) (par e)) \<Longrightarrow> keep q"
begin

definition kept :: "('i \<times> 'e) list" where
  "kept = filter (\<lambda>(i, e). keep i) cps"

lemma map_of_kept: "map_of kept i = (if keep i then map_of cps i else None)"
  unfolding kept_def by (induction cps) auto

lemma must_stays: "must i \<Longrightarrow> map_of kept i = map_of cps i"
  by (simp add: map_of_kept keeps_must)

lemma chain_stays:
  assumes "must i" and "map_of cps i = Some e" and "ch \<in> set (need e)"
    and "\<And>q f. keep q \<Longrightarrow> map_of cps q = Some f \<Longrightarrow> sat' f ch = sat f ch"
  shows "delta_walk kept par sat' [] [ch] (par e) = delta_walk cps par sat [] [ch] (par e)"
proof (rule walk_restrict)
  show "map_of cps q = Some f" if "map_of kept q = Some f" for q f
    using that by (simp add: map_of_kept split: if_splits)
  show "map_of kept q = Some f \<and> sat' f c = sat f c"
    if "q \<in> set (delta_walk cps par sat [] [ch] (par e))" "map_of cps q = Some f" "c \<in> set [ch]" for q f c
  proof -
    have "keep q"
      by (rule keeps_walk [OF assms(1,2)]) (rule subsetD [OF walk_mono [OF assms(3)] that(1)])
    then show ?thesis
      using that(2,3) assms(4) by (simp add: map_of_kept)
  qed
qed

end

end
