(* ===== verification/Size_Tracking.thy ===== *)
theory Size_Tracking
  imports Prelude
begin

text \<open>
  Byte accounting: the per-entry tracker of \<open>size_tracking.py\<close> (\<open>SizeTracker\<close>) and the per-thread
  aggregate of \<open>checkpoint.py\<close> (\<open>_CheckpointSizeState\<close>). Both keep a running total beside their
  entries; the locale \<open>size_ledger\<close> is what the stores rely on: the total is the sum of the
  entries, and an update changes one entry. The re-entrant locks serialise the operations, so that
  each is one step.
\<close>

section \<open>The contract\<close>

locale size_ledger =
  fixes get :: "'s \<Rightarrow> 'k \<Rightarrow> int"
    and total :: "'s \<Rightarrow> int"
    and ok :: "'s \<Rightarrow> bool"
    and upd :: "'s \<Rightarrow> 'k \<Rightarrow> int \<Rightarrow> 's"
  assumes finite_get: "ok s \<Longrightarrow> finite {k. get s k \<noteq> 0}"
    and get_nonneg: "ok s \<Longrightarrow> 0 \<le> get s k"
    and total_sum: "ok s \<Longrightarrow> total s = (\<Sum>k | get s k \<noteq> 0. get s k)"
    and upd_ok: "ok s \<Longrightarrow> 0 \<le> n \<Longrightarrow> ok (upd s k n)"
    and get_upd: "ok s \<Longrightarrow> 0 \<le> n \<Longrightarrow> get (upd s k n) j = (if j = k then n else get s j)"
begin

lemma total_over:
  assumes "ok s" and "finite K" and "\<And>k. get s k \<noteq> 0 \<Longrightarrow> k \<in> K"
  shows "total s = (\<Sum>k \<in> K. get s k)"
  unfolding total_sum [OF assms(1)] by (rule sum.mono_neutral_left) (use assms(2,3) in auto)

lemma total_nonneg: "ok s \<Longrightarrow> 0 \<le> total s"
  by (simp add: total_sum get_nonneg sum_nonneg)

lemma total_upd:
  assumes "ok s" and "0 \<le> n"
  shows "total (upd s k n) = total s - get s k + n"
proof -
  let ?K = "insert k {j. get s j \<noteq> 0}"
  have fin: "finite ?K"
    using finite_get [OF assms(1)] by simp
  have "total (upd s k n) = (\<Sum>j \<in> ?K. get (upd s k n) j)"
    by (rule total_over [OF upd_ok [OF assms] fin]) (auto simp: get_upd [OF assms] split: if_splits)
  also have "\<dots> = n + (\<Sum>j \<in> ?K - {k}. get s j)"
    by (subst sum.remove [OF fin, of k]) (auto simp: get_upd [OF assms] intro: sum.cong)
  also have "\<dots> = n + ((\<Sum>j \<in> ?K. get s j) - get s k)"
    using sum.remove [OF fin, of k "get s"] by simp
  also have "(\<Sum>j \<in> ?K. get s j) = total s"
    by (rule total_over [OF assms(1) fin, symmetric]) simp
  finally show ?thesis by simp
qed

lemma exact_upd:
  assumes "ok s" and "0 \<le> n" and "\<And>j. get s j = f j" and "\<And>j. g j = (if j = k then n else f j)"
  shows "get (upd s k n) j = g j"
  using assms by (simp add: get_upd)

end

section \<open>SizeTracker\<close>

record 'k size_tracker =
  st_entries :: "('k \<times> int) list"
  st_total_bytes :: int

definition new_size_tracker :: "'k size_tracker" where
  "new_size_tracker = \<lparr>st_entries = [], st_total_bytes = 0\<rparr>"

definition set_size :: "'k \<Rightarrow> int \<Rightarrow> 'k size_tracker \<Rightarrow> 'k size_tracker" where
  "set_size entry size_bytes s =
     (let size_bytes = max 0 size_bytes;
          old_size = dict_get (st_entries s) entry 0;
          delta = size_bytes - old_size
      in s\<lparr>st_entries := AList.update entry size_bytes (st_entries s),
           st_total_bytes := st_total_bytes s + delta\<rparr>)"

definition tracker_remove :: "'k \<Rightarrow> 'k size_tracker \<Rightarrow> int \<times> 'k size_tracker" where
  "tracker_remove entry s =
     (let size_bytes = dict_get (st_entries s) entry 0
      in (size_bytes,
          s\<lparr>st_entries := AList.delete entry (st_entries s),
            st_total_bytes := st_total_bytes s - size_bytes\<rparr>))"

definition tracker_clear :: "'k size_tracker \<Rightarrow> 'k size_tracker" where
  "tracker_clear s = s\<lparr>st_entries := [], st_total_bytes := 0\<rparr>"

definition tracker_ok :: "'k size_tracker \<Rightarrow> bool" where
  "tracker_ok s \<longleftrightarrow> distinct (map fst (st_entries s)) \<and> (\<forall>n \<in> snd ` set (st_entries s). 0 \<le> n) \<and>
     st_total_bytes s = sum_list (map snd (st_entries s))"

definition tracked :: "'k size_tracker \<Rightarrow> 'k \<Rightarrow> int" where
  "tracked s k = dict_get (st_entries s) k 0"

lemma sum_list_update:
  "distinct (map fst d) \<Longrightarrow>
     sum_list (map snd (AList.update k (n :: int) d)) = sum_list (map snd d) - dict_get d k 0 + n"
  by (induction d) (auto simp: dict_get_def split: option.splits dest: map_of_SomeD)

lemma sum_list_delete:
  "distinct (map fst d) \<Longrightarrow>
     sum_list (map snd (AList.delete k d)) = sum_list (map snd d) - dict_get d k (0 :: int)"
  by (induction d)
    (auto simp: dict_get_def AList.delete_eq filter_id_conv split: option.splits
      intro!: arg_cong [of _ _ "\<lambda>xs. sum_list (map snd xs)"] simp flip: map_of_eq_None_iff)

lemma snd_update_subset: "snd ` set (AList.update k n d) \<subseteq> insert n (snd ` set d)"
  by (induction d) auto

lemma tracker_ok_new: "tracker_ok new_size_tracker"
  by (simp add: tracker_ok_def new_size_tracker_def)

lemma tracker_ok_set: "tracker_ok s \<Longrightarrow> tracker_ok (set_size k n s)"
proof -
  assume ok: "tracker_ok s"
  then have "\<forall>m \<in> snd ` set (AList.update k (max 0 n) (st_entries s)). 0 \<le> m"
    using snd_update_subset [of k "max 0 n" "st_entries s"]
    by (metis insertE max.cobounded1 subsetD tracker_ok_def)
  with ok show ?thesis
    by (simp add: tracker_ok_def set_size_def Let_def distinct_update sum_list_update)
qed

lemma tracker_ok_remove: "tracker_ok s \<Longrightarrow> tracker_ok (snd (tracker_remove k s))"
  by (auto simp: tracker_ok_def tracker_remove_def Let_def distinct_delete sum_list_delete)
    (auto simp: AList.delete_eq)

lemma tracker_ok_clear: "tracker_ok (tracker_clear s)"
  by (simp add: tracker_ok_def tracker_clear_def)

lemma tracked_nonneg: "tracker_ok s \<Longrightarrow> 0 \<le> tracked s k"
  by (auto simp: tracker_ok_def tracked_def dict_get_def split: option.splits dest!: map_of_SomeD)

lemma tracked_set: "tracked (set_size k n s) j = (if j = k then max 0 n else tracked s j)"
  by (simp add: tracked_def set_size_def Let_def dict_simps)

lemma tracked_remove: "tracked (snd (tracker_remove k s)) j = (if j = k then 0 else tracked s j)"
  by (simp add: tracked_def tracker_remove_def Let_def dict_simps)

lemma sum_entries:
  assumes "distinct (map fst d)"
  shows "sum_list (map snd d) = (\<Sum>k \<in> fst ` set d. dict_get d k (0 :: int))"
  using assms
proof (induction d)
  case (Cons x d)
  have "(\<Sum>k \<in> fst ` set d. dict_get (x # d) k 0) = (\<Sum>k \<in> fst ` set d. dict_get d k 0)"
    using Cons.prems by (intro sum.cong) (auto simp: dict_get_def image_iff)
  then show ?case
    using Cons by (cases x) (auto simp: dict_get_def)
qed simp

lemma nonzero_keys: "{k. dict_get d k (0 :: int) \<noteq> 0} \<subseteq> fst ` set d"
  by (auto simp: dict_get_def split: option.splits dest!: map_of_SomeD intro: rev_image_eqI)

lemma sum_nonzero:
  assumes "distinct (map fst d)"
  shows "sum_list (map snd d) = (\<Sum>k | dict_get d k (0 :: int) \<noteq> 0. dict_get d k 0)"
  unfolding sum_entries [OF assms]
  by (rule sum.mono_neutral_right) (use nonzero_keys [of d] in auto)

interpretation tracker: size_ledger tracked st_total_bytes tracker_ok "\<lambda>s k n. set_size k n s"
proof unfold_locales
  fix s :: "'a size_tracker" and k j :: 'a and n :: int
  assume ok: "tracker_ok s"
  then have d: "distinct (map fst (st_entries s))" "st_total_bytes s = sum_list (map snd (st_entries s))"
    by (simp_all add: tracker_ok_def)
  show "finite {k. tracked s k \<noteq> 0}"
    using finite_subset [OF nonzero_keys [of "st_entries s"]] by (simp add: tracked_def)
  show "st_total_bytes s = (\<Sum>k | tracked s k \<noteq> 0. tracked s k)"
    using d sum_nonzero [OF d(1)] by (simp add: tracked_def)
  show "0 \<le> tracked s k"
    by (rule tracked_nonneg [OF ok])
  show "tracker_ok (set_size k n s)"
    by (rule tracker_ok_set [OF ok])
  show "tracked (set_size k n s) j = (if j = k then n else tracked s j)" if "0 \<le> n"
    using that by (simp add: tracked_set)
qed

section \<open>Sizes in the log\<close>

text \<open>\<open>format_size\<close>: the value that is printed and its unit; \<open>None\<close> is printed as \<open>unknown\<close>. The
  last unit ends the loop whatever the value is, so that the \<open>return\<close> after it is never reached.\<close>

definition size_units :: "string list" where
  "size_units = [''B'', ''KB'', ''MB'', ''GB'', ''TB'']"

fun scale_size :: "rat \<Rightarrow> string list \<Rightarrow> rat \<times> string" where
  "scale_size v [] = (v, ''B'')"
| "scale_size v [u] = (v, u)"
| "scale_size v (u # us) = (if v < 1024 then (v, u) else scale_size (v / 1024) us)"

definition format_size :: "int option \<Rightarrow> (rat \<times> string) option" where
  "format_size size_bytes = map_option (\<lambda>n. scale_size (of_int (max 0 n)) size_units) size_bytes"

text \<open>\<open>round(q, 1)\<close>: to the nearest tenth, a tie to the even one.\<close>

definition round_tenth :: "rat \<Rightarrow> rat" where
  "round_tenth q =
     (let x = 10 * q; f = \<lfloor>x\<rfloor>; r = x - of_int f
      in of_int (if r < 1/2 \<or> r = 1/2 \<and> even f then f else f + 1) / 10)"

record size_fields =
  sf_deleted :: "(rat \<times> string) option"
  sf_deleted_bytes :: "int option"
  sf_total :: "(rat \<times> string) option"
  sf_total_bytes :: "int option"
  sf_ratio :: "rat option"

definition size_log_fields :: "int option \<Rightarrow> int option \<Rightarrow> size_fields" where
  "size_log_fields deleted total_before =
     \<lparr>sf_deleted = format_size deleted, sf_deleted_bytes = deleted, sf_total = format_size total_before, sf_total_bytes = total_before,
      sf_ratio = (case (deleted, total_before) of
                    (Some d, Some t) \<Rightarrow> Some (if t \<le> 0 then 0 else round_tenth (100 * of_int d / of_int t))
                  | _ \<Rightarrow> None)\<rparr>"

lemma scale_size_exact:
  assumes "us \<noteq> []" and "scale_size v us = (w, u)" and "0 \<le> v"
  obtains k where "k < length us" and "u = us ! k" and "v = w * 1024 ^ k" and "0 \<le> w"
    and "w < 1024 \<or> k = length us - 1" and "k = 0 \<or> 1 \<le> w"
proof -
  have "\<exists>k < length us. u = us ! k \<and> v = w * 1024 ^ k \<and> 0 \<le> w \<and> (w < 1024 \<or> k = length us - 1) \<and> (k = 0 \<or> 1 \<le> w)"
    using assms
  proof (induction v us rule: scale_size.induct)
    case (3 v a b us)
    show ?case
    proof (cases "v < 1024")
      case True
      with "3.prems" show ?thesis by (intro exI [of _ 0]) auto
    next
      case False
      with "3.IH" "3.prems" obtain k where k: "k < length (b # us)" "u = (b # us) ! k" "v / 1024 = w * 1024 ^ k" "0 \<le> w"
        "w < 1024 \<or> k = length (b # us) - 1" "k = 0 \<or> 1 \<le> w" by auto
      moreover have "1 \<le> w" using k(3,6) False by (cases k) auto
      ultimately show ?thesis by (intro exI [of _ "Suc k"]) (auto simp: field_simps)
    qed
  qed auto
  with that show thesis by blast
qed

text \<open>The printed value times its unit is the size, and it is below 1024 in every unit but the last.\<close>

lemma format_size_exact:
  assumes "format_size (Some n) = Some (w, u)"
  obtains k where "k < 5" and "u = size_units ! k" and "of_int (max 0 n) = w * 1024 ^ k" and "w < 1024 \<or> u = ''TB''"
proof -
  have s: "scale_size (of_int (max 0 n)) size_units = (w, u)" using assms by (simp add: format_size_def)
  obtain k where "k < length size_units" "u = size_units ! k" "of_int (max 0 n) = w * 1024 ^ k"
    "w < 1024 \<or> k = length size_units - 1"
    by (rule scale_size_exact [OF _ s]) (auto simp: size_units_def)
  then show thesis using that [of k] by (auto simp: size_units_def)
qed

text \<open>The ratio is a percentage when no more is deleted than there was.\<close>

lemma round_tenth_bounds:
  assumes "0 \<le> q" and "q \<le> 100"
  shows "0 \<le> round_tenth q" and "round_tenth q \<le> 100"
proof -
  let ?f = "\<lfloor>10 * q\<rfloor>"
  have f: "0 \<le> ?f" "?f \<le> 1000" using assms by linarith+
  obtain m where m: "round_tenth q = of_int m / 10" "m = ?f \<or> m = ?f + 1 \<and> 10 * q \<noteq> of_int ?f"
    by (auto simp: round_tenth_def Let_def)
  have "m \<le> 1000"
  proof (cases "?f = 1000")
    case True
    then have "10 * q = of_int ?f" using assms(2) of_int_floor_le [of "10 * q"] by simp
    with True m(2) show ?thesis by simp
  qed (use f m(2) in linarith)
  moreover have "0 \<le> m" using f m(2) by linarith
  ultimately show "0 \<le> round_tenth q" "round_tenth q \<le> 100" by (simp_all add: m(1))
qed

end
