(* ===== verification/Checkpoint.thy ===== *)
theory Checkpoint
  imports Delta_Walk Size_Tracking
begin

text \<open>
  The in-memory checkpoint saver (\<open>checkpoint.py\<close>): its dictionaries, the byte accounting of its
  components, and the operations that write and delete history.

  \<^item> \<open>storage[thread][ns][id]\<close>, \<open>writes[(thread, ns, id)]\<close> and \<open>blobs[(thread, ns, channel, version)]\<close>
    are the nested or keyed dictionaries of the code; thread and checkpoint ids may be \<open>str\<close> or
    legacy \<open>UUID\<close> objects. A channel version is a \<open>str\<close> or an \<open>int\<close>.
  \<^item> The serializer is a parameter: \<open>versions b\<close> is the \<open>channel_versions\<close> dictionary of the
    checkpoint that \<open>serde.loads_typed(b)\<close> returns (empty when the key is missing), and \<open>meta b\<close>
    is the value it returns for metadata.
  \<^item> The base class \<open>langgraph.checkpoint.memory.InMemorySaver\<close> is a parameter too: its \<open>put\<close>,
    \<open>put_writes\<close> and \<open>delete_thread\<close> are functions on the saver, and the predicates \<open>base_put_law\<close>,
    \<open>base_put_writes_law\<close> and \<open>base_delete_thread_law\<close> state what this code relies on.
\<close>

section \<open>Component sizes\<close>

datatype version = VStr string | VInt int

type_synonym typed = "string \<times> string"
datatype cp_entry = Entry (ce_checkpoint: typed) (ce_metadata: typed) (ce_parent: "id_arg option")
type_synonym wgroup = "((string \<times> int) \<times> (string \<times> string \<times> typed \<times> string)) list"
type_synonym wkey = "id_arg \<times> string \<times> id_arg"
type_synonym bkey = "id_arg \<times> string \<times> string \<times> version"
type_synonym checkpoints = "(id_arg \<times> cp_entry) list"
type_synonym namespaces = "(string \<times> checkpoints) list"

text \<open>The values \<open>_component_size\<close> is called with.\<close>

datatype component = CNone | CStr string | CBytes string | CInt int | CUUID uuid

definition component_size :: "component \<Rightarrow> int" where
  "component_size c =
     (case c of
        CNone \<Rightarrow> 0
      | CStr s \<Rightarrow> int (length s)
      | CBytes b \<Rightarrow> int (length b)
      | CInt i \<Rightarrow> int (length (show_int i))
      | CUUID u \<Rightarrow> int (length (uuid_str u)))"

definition id_component :: "id_arg \<Rightarrow> component" where
  "id_component i = (case i of IdStr s \<Rightarrow> CStr s | IdUUID u \<Rightarrow> CUUID u)"

definition parent_component :: "id_arg option \<Rightarrow> component" where
  "parent_component p = (case p of None \<Rightarrow> CNone | Some i \<Rightarrow> id_component i)"

definition version_component :: "version \<Rightarrow> component" where
  "version_component v = (case v of VStr s \<Rightarrow> CStr s | VInt i \<Rightarrow> CInt i)"

definition typed_payload_size :: "typed \<Rightarrow> int" where
  "typed_payload_size v = component_size (CStr (fst v)) + component_size (CBytes (snd v))"

definition checkpoint_entry_size :: "id_arg \<Rightarrow> cp_entry \<Rightarrow> int" where
  "checkpoint_entry_size checkpoint_id e =
     (case e of Entry checkpoint metadata parent_id \<Rightarrow>
        component_size (id_component checkpoint_id) + typed_payload_size checkpoint
        + typed_payload_size metadata + component_size (parent_component parent_id))"

definition write_size :: "(string \<times> int) \<times> (string \<times> string \<times> typed \<times> string) \<Rightarrow> int" where
  "write_size w =
     (case w of ((task_key, idx), (task_id, channel, value, task_path)) \<Rightarrow>
        component_size (CStr task_key) + component_size (CInt idx) + component_size (CStr task_id)
        + component_size (CStr channel) + typed_payload_size value + component_size (CStr task_path))"

definition write_group_size :: "id_arg \<Rightarrow> wgroup \<Rightarrow> int" where
  "write_group_size checkpoint_id writes =
     (if writes = [] then 0
      else component_size (id_component checkpoint_id) + sum_list (map write_size writes))"

definition blob_entry_size :: "string \<Rightarrow> version \<Rightarrow> typed \<Rightarrow> int" where
  "blob_entry_size channel v value =
     component_size (CStr channel) + component_size (version_component v) + typed_payload_size value"

section \<open>Per-thread aggregates\<close>

record size_state =
  by_thread :: "(string \<times> int \<times> int) list"
  total_bytes :: int
  total_checkpoints :: int

definition new_size_state :: size_state where
  "new_size_state = \<lparr>by_thread = [], total_bytes = 0, total_checkpoints = 0\<rparr>"

definition thread_sizes :: "size_state \<Rightarrow> string \<Rightarrow> int \<times> int" where
  "thread_sizes s t = dict_get (by_thread s) t (0, 0)"

definition thread_bytes :: "string \<Rightarrow> size_state \<Rightarrow> int" where
  "thread_bytes thread_id s = fst (thread_sizes s thread_id)"

definition thread_checkpoints :: "string \<Rightarrow> size_state \<Rightarrow> int" where
  "thread_checkpoints thread_id s = snd (thread_sizes s thread_id)"

text \<open>Replacing a thread's pair: the steps \<open>adjust\<close> and \<open>copy_thread\<close> share.\<close>

definition set_pair :: "string \<Rightarrow> int \<times> int \<Rightarrow> size_state \<Rightarrow> size_state" where
  "set_pair t new s =
     (case (thread_sizes s t, new) of ((old_size, old_count), (new_size, new_count)) \<Rightarrow>
        s\<lparr>total_bytes := total_bytes s + (new_size - old_size),
          total_checkpoints := total_checkpoints s + (new_count - old_count),
          by_thread := (if new_size \<noteq> 0 \<or> new_count \<noteq> 0
                        then AList.update t (new_size, new_count) (by_thread s)
                        else AList.delete t (by_thread s))\<rparr>)"

definition adjust :: "string \<Rightarrow> int \<Rightarrow> int \<Rightarrow> size_state \<Rightarrow> size_state" where
  "adjust thread_id size_delta checkpoint_delta s =
     (case thread_sizes s thread_id of (old_size, old_count) \<Rightarrow>
        set_pair thread_id (max 0 (old_size + size_delta), max 0 (old_count + checkpoint_delta)) s)"

definition remove_thread :: "string \<Rightarrow> size_state \<Rightarrow> int \<times> size_state" where
  "remove_thread thread_id s =
     (case thread_sizes s thread_id of (size_bytes, checkpoint_count) \<Rightarrow>
        (size_bytes,
         s\<lparr>by_thread := AList.delete thread_id (by_thread s),
           total_bytes := total_bytes s - size_bytes,
           total_checkpoints := total_checkpoints s - checkpoint_count\<rparr>))"

definition copy_thread :: "string \<Rightarrow> string \<Rightarrow> size_state \<Rightarrow> size_state" where
  "copy_thread source_thread_id target_thread_id s =
     set_pair target_thread_id (thread_sizes s source_thread_id) s"

section \<open>The saver\<close>

record saver =
  cp_storage :: "(id_arg \<times> namespaces) list"
  cp_writes :: "(wkey \<times> wgroup) list"
  cp_blobs :: "(bkey \<times> typed) list"
  cp_size :: size_state

definition rebuild_size_tracking :: "saver \<Rightarrow> saver" where
  "rebuild_size_tracking s =
     (let z = new_size_state;
          z = fold (\<lambda>(thread_id, nss).
                 fold (\<lambda>(_, checkpoints).
                   fold (\<lambda>(checkpoint_id, entry).
                     adjust (id_str thread_id) (checkpoint_entry_size checkpoint_id entry) 1)
                   checkpoints)
                 nss)
               (cp_storage s) z;
          z = fold (\<lambda>((thread_id, _, checkpoint_id), writes).
                 adjust (id_str thread_id) (write_group_size checkpoint_id writes) 0)
               (cp_writes s) z;
          z = fold (\<lambda>((thread_id, _, channel, v), value).
                 adjust (id_str thread_id) (blob_entry_size channel v value) 0)
               (cp_blobs s) z
      in s\<lparr>cp_size := z\<rparr>)"

definition copy_thread_size :: "id_arg \<Rightarrow> id_arg \<Rightarrow> saver \<Rightarrow> saver" where
  "copy_thread_size source target s =
     s\<lparr>cp_size := copy_thread (id_str source) (id_str target) (cp_size s)\<rparr>"

definition discard_checkpoint_size :: "id_arg \<Rightarrow> id_arg \<Rightarrow> cp_entry \<Rightarrow> saver \<Rightarrow> int \<times> saver" where
  "discard_checkpoint_size thread_id checkpoint_id entry s =
     (let size_bytes = checkpoint_entry_size checkpoint_id entry
      in (size_bytes, s\<lparr>cp_size := adjust (id_str thread_id) (- size_bytes) (- 1) (cp_size s)\<rparr>))"

subsection \<open>Writing\<close>

definition EXCLUDED_KEYS :: "string list" where
  "EXCLUDED_KEYS = [''checkpoint_ns'', ''checkpoint_id'', ''run_id'', ''thread_id'']"

definition TRANSIENT_CONFIGURABLE_KEYS :: "string list" where
  "TRANSIENT_CONFIGURABLE_KEYS =
     [''langgraph_request_id'', ''langgraph_auth_user'', ''langgraph_auth_user_id'',
      ''langgraph_auth_permissions'']"

definition put_metadata :: "dict \<Rightarrow> dict \<Rightarrow> dict \<Rightarrow> dict" where
  "put_metadata configurable config_metadata metadata =
     dict_merge
       (dict_merge
         (filter (\<lambda>(k, v). \<not> starts_with k ''__'' \<and> k \<notin> set EXCLUDED_KEYS
                     \<and> k \<notin> set TRANSIENT_CONFIGURABLE_KEYS) configurable)
         (filter (\<lambda>(k, v). k \<notin> set TRANSIENT_CONFIGURABLE_KEYS) config_metadata))
       (filter (\<lambda>(k, v). k \<notin> set TRANSIENT_CONFIGURABLE_KEYS) metadata)"

text \<open>\<open>config["configurable"][key]\<close> as an id or as a string.\<close>

definition conf_id :: "dict \<Rightarrow> string \<Rightarrow> id_arg res" where
  "conf_id c k =
     (case map_of c k of
        Some (PStr s) \<Rightarrow> Inr (IdStr s)
      | Some (PUUID u) \<Rightarrow> Inr (IdUUID u)
      | None \<Rightarrow> Inl KeyError
      | Some _ \<Rightarrow> Inl TypeError)"

definition conf_str :: "dict \<Rightarrow> string \<Rightarrow> string res" where
  "conf_str c k =
     (case map_of c k of Some (PStr s) \<Rightarrow> Inr s | None \<Rightarrow> Inl KeyError | Some _ \<Rightarrow> Inl TypeError)"

definition get_entry :: "saver \<Rightarrow> id_arg \<Rightarrow> string \<Rightarrow> id_arg \<Rightarrow> cp_entry option" where
  "get_entry s t ns i = map_of (dict_get (dict_get (cp_storage s) t []) ns []) i"

definition storage_put ::
  "id_arg \<Rightarrow> string \<Rightarrow> id_arg \<Rightarrow> cp_entry \<Rightarrow> (id_arg \<times> namespaces) list \<Rightarrow> (id_arg \<times> namespaces) list" where
  "storage_put t ns i e st =
     (let nss = dict_get st t []
      in AList.update t (AList.update ns (AList.update i e (dict_get nss ns [])) nss) st)"

type_synonym 'c base_put = "dict \<Rightarrow> 'c \<Rightarrow> dict \<Rightarrow> (string \<times> version) list \<Rightarrow> saver \<Rightarrow> saver"
type_synonym base_put_writes = "dict \<Rightarrow> (string \<times> pyval) list \<Rightarrow> string \<Rightarrow> string \<Rightarrow> saver \<Rightarrow> saver"
type_synonym base_delete_thread = "id_arg \<Rightarrow> saver \<Rightarrow> saver"

text \<open>\<open>cp_id c\<close> is \<open>checkpoint["id"]\<close>, a UUID or converted with \<open>str\<close>.\<close>

definition saver_put ::
  "'c base_put \<Rightarrow> ('c \<Rightarrow> id_arg) \<Rightarrow> dict \<Rightarrow> dict \<Rightarrow> 'c \<Rightarrow> dict \<Rightarrow> (string \<times> version) list \<Rightarrow> saver \<Rightarrow> saver res" where
  "saver_put base_put cp_id configurable config_metadata checkpoint metadata new_versions s =
     (let metadata = put_metadata configurable config_metadata metadata in
      res_bind (conf_id configurable ''thread_id'') (\<lambda>thread_id.
      res_bind (conf_str configurable ''checkpoint_ns'') (\<lambda>checkpoint_ns.
        let checkpoint_id = cp_id checkpoint;
            old_entry = get_entry s thread_id checkpoint_ns checkpoint_id;
            old_size = (case old_entry of None \<Rightarrow> 0 | Some e \<Rightarrow> checkpoint_entry_size checkpoint_id e);
            old_size = old_size + sum_list (map (\<lambda>(channel, v).
                case map_of (cp_blobs s) (thread_id, checkpoint_ns, channel, v) of
                  None \<Rightarrow> 0 | Some b \<Rightarrow> blob_entry_size channel v b) new_versions);
            s = base_put configurable checkpoint metadata new_versions s
        in case get_entry s thread_id checkpoint_ns checkpoint_id of
             None \<Rightarrow> Inl KeyError
           | Some e \<Rightarrow>
               if \<exists>(channel, v) \<in> set new_versions.
                    map_of (cp_blobs s) (thread_id, checkpoint_ns, channel, v) = None
               then Inl KeyError
               else
                 let new_size = checkpoint_entry_size checkpoint_id e
                       + sum_list (map (\<lambda>(channel, v).
                           case map_of (cp_blobs s) (thread_id, checkpoint_ns, channel, v) of
                             None \<Rightarrow> 0 | Some b \<Rightarrow> blob_entry_size channel v b) new_versions)
                 in Inr (s\<lparr>cp_size := adjust (id_str thread_id) (new_size - old_size)
                              (if old_entry = None then 1 else 0) (cp_size s)\<rparr>))))"

definition group_size_at :: "saver \<Rightarrow> wkey \<Rightarrow> int" where
  "group_size_at s k =
     (case map_of (cp_writes s) k of None \<Rightarrow> 0 | Some g \<Rightarrow> write_group_size (snd (snd k)) g)"

definition saver_put_writes ::
  "base_put_writes \<Rightarrow> dict \<Rightarrow> (string \<times> pyval) list \<Rightarrow> string \<Rightarrow> string \<Rightarrow> saver \<Rightarrow> saver res" where
  "saver_put_writes base_put_writes configurable writes task_id task_path s =
     res_bind (conf_id configurable ''thread_id'') (\<lambda>thread_id.
     res_bind (if has_key configurable ''checkpoint_ns''
               then conf_str configurable ''checkpoint_ns'' else Inr '''') (\<lambda>checkpoint_ns.
     res_bind (conf_id configurable ''checkpoint_id'') (\<lambda>checkpoint_id.
       let outer_key = (thread_id, checkpoint_ns, checkpoint_id);
           old_size = group_size_at s outer_key;
           s = base_put_writes configurable writes task_id task_path s;
           new_size = group_size_at s outer_key
       in Inr (s\<lparr>cp_size := adjust (id_str thread_id) (new_size - old_size) 0 (cp_size s)\<rparr>))))"

definition saver_clear :: "saver \<Rightarrow> saver" where
  "saver_clear s = s\<lparr>cp_storage := [], cp_writes := [], cp_blobs := [], cp_size := new_size_state\<rparr>"

definition saver_delete_thread :: "base_delete_thread \<Rightarrow> id_arg \<Rightarrow> saver \<Rightarrow> saver" where
  "saver_delete_thread base_delete_thread thread_id s =
     (let s = base_delete_thread thread_id s
      in s\<lparr>cp_size := snd (remove_thread (id_str thread_id) (cp_size s))\<rparr>)"

subsection \<open>Delta channels\<close>

text \<open>
  A blob is materialized when it is stored and not of type \<open>empty\<close>. \<open>holds\<close> is the test of the
  walk, \<open>needed_channels\<close> the set it starts with.
\<close>

definition materialized :: "(bkey \<times> typed) list \<Rightarrow> bkey \<Rightarrow> bool" where
  "materialized blobs k = (case map_of blobs k of None \<Rightarrow> False | Some b \<Rightarrow> fst b \<noteq> ''empty'')"

definition holds ::
  "(typed \<Rightarrow> (string \<times> version) list) \<Rightarrow> (bkey \<times> typed) list \<Rightarrow> id_arg \<Rightarrow> string \<Rightarrow> cp_entry \<Rightarrow> string \<Rightarrow> bool" where
  "holds versions blobs t ns e channel =
     (case map_of (versions (ce_checkpoint e)) channel of
        None \<Rightarrow> False
      | Some v \<Rightarrow> materialized blobs (t, ns, channel, v))"

definition delta_counters :: "pyval \<Rightarrow> dict" where
  "delta_counters m =
     (case m of
        PDict d \<Rightarrow> (case map_of d ''counters_since_delta_snapshot'' of Some (PDict c) \<Rightarrow> c | _ \<Rightarrow> [])
      | _ \<Rightarrow> [])"

definition needed_channels ::
  "(typed \<Rightarrow> (string \<times> version) list) \<Rightarrow> (typed \<Rightarrow> pyval) \<Rightarrow> (bkey \<times> typed) list \<Rightarrow> id_arg \<Rightarrow> string
     \<Rightarrow> cp_entry \<Rightarrow> string list" where
  "needed_channels versions meta blobs t ns e =
     map fst (filter (\<lambda>(channel, v). has_key (delta_counters (meta (ce_metadata e))) channel
                        \<and> \<not> materialized blobs (t, ns, channel, v))
                (versions (ce_checkpoint e)))"

definition ancestors_needed ::
  "(typed \<Rightarrow> (string \<times> version) list) \<Rightarrow> (typed \<Rightarrow> pyval) \<Rightarrow> (bkey \<times> typed) list \<Rightarrow> id_arg \<Rightarrow> string
     \<Rightarrow> checkpoints \<Rightarrow> cp_entry \<Rightarrow> id_arg list" where
  "ancestors_needed versions meta blobs t ns checkpoints e =
     delta_walk checkpoints ce_parent (holds versions blobs t ns) []
       (needed_channels versions meta blobs t ns e) (ce_parent e)"

subsection \<open>Pruning\<close>

text \<open>\<open>max(checkpoints, key=str)\<close>: the first of the greatest.\<close>

fun max_by :: "('a \<Rightarrow> 'b :: linorder) \<Rightarrow> 'a \<Rightarrow> 'a list \<Rightarrow> 'a" where
  "max_by f m [] = m"
| "max_by f m (x # xs) = max_by f (if f x > f m then x else m) xs"

definition latest_of :: "checkpoints \<Rightarrow> id_arg \<times> cp_entry" where
  "latest_of checkpoints = max_by (\<lambda>(i, _). id_str i) (hd checkpoints) (tl checkpoints)"

definition keep_ids ::
  "(typed \<Rightarrow> (string \<times> version) list) \<Rightarrow> (typed \<Rightarrow> pyval) \<Rightarrow> (bkey \<times> typed) list \<Rightarrow> id_arg \<Rightarrow> string
     \<Rightarrow> checkpoints \<Rightarrow> id_arg list" where
  "keep_ids versions meta blobs t ns checkpoints =
     (case latest_of checkpoints of (latest_id, latest_entry) \<Rightarrow>
        latest_id # ancestors_needed versions meta blobs t ns checkpoints latest_entry)"

text \<open>
  The data of one thread's pruning: the namespaces with checkpoints, what is kept and what is
  removed of each, and the keys of the writes and blobs that belong to the kept checkpoints.
\<close>

definition live_namespaces :: "namespaces \<Rightarrow> namespaces" where
  "live_namespaces nss = filter (\<lambda>(ns, checkpoints). checkpoints \<noteq> []) nss"

definition keep_entries ::
  "(typed \<Rightarrow> (string \<times> version) list) \<Rightarrow> (typed \<Rightarrow> pyval) \<Rightarrow> (bkey \<times> typed) list \<Rightarrow> id_arg \<Rightarrow> string
     \<Rightarrow> checkpoints \<Rightarrow> checkpoints" where
  "keep_entries versions meta blobs t ns checkpoints =
     filter (\<lambda>(i, e). i \<in> set (keep_ids versions meta blobs t ns checkpoints)) checkpoints"

definition removed_entries ::
  "(typed \<Rightarrow> (string \<times> version) list) \<Rightarrow> (typed \<Rightarrow> pyval) \<Rightarrow> (bkey \<times> typed) list \<Rightarrow> id_arg \<Rightarrow> namespaces
     \<Rightarrow> checkpoints" where
  "removed_entries versions meta blobs t live =
     concat (map (\<lambda>(ns, checkpoints).
       filter (\<lambda>(i, e). i \<notin> set (keep_ids versions meta blobs t ns checkpoints)) checkpoints) live)"

definition kept_write_keys ::
  "(typed \<Rightarrow> (string \<times> version) list) \<Rightarrow> (typed \<Rightarrow> pyval) \<Rightarrow> (bkey \<times> typed) list \<Rightarrow> id_arg \<Rightarrow> namespaces
     \<Rightarrow> (string \<times> string \<times> string) list" where
  "kept_write_keys versions meta blobs t live =
     concat (map (\<lambda>(ns, checkpoints).
       map (\<lambda>i. (id_str t, ns, id_str i)) (keep_ids versions meta blobs t ns checkpoints)) live)"

definition kept_blob_keys ::
  "(typed \<Rightarrow> (string \<times> version) list) \<Rightarrow> (typed \<Rightarrow> pyval) \<Rightarrow> (bkey \<times> typed) list \<Rightarrow> id_arg \<Rightarrow> namespaces
     \<Rightarrow> bkey list" where
  "kept_blob_keys versions meta blobs t live =
     concat (map (\<lambda>(ns, checkpoints).
       concat (map (\<lambda>(i, e). map (\<lambda>(channel, v). (t, ns, channel, v)) (versions (ce_checkpoint e)))
         (keep_entries versions meta blobs t ns checkpoints))) live)"

definition drop_write :: "string \<Rightarrow> (string \<times> string \<times> string) list \<Rightarrow> wkey \<Rightarrow> bool" where
  "drop_write thread_id kept k =
     (case k of (th, ns, i) \<Rightarrow> id_str th = thread_id \<and> (id_str th, ns, id_str i) \<notin> set kept)"

definition drop_blob :: "string \<Rightarrow> bkey list \<Rightarrow> bkey \<Rightarrow> bool" where
  "drop_blob thread_id kept k = (id_str (fst k) = thread_id \<and> k \<notin> set kept)"

definition prune_thread ::
  "(typed \<Rightarrow> (string \<times> version) list) \<Rightarrow> (typed \<Rightarrow> pyval) \<Rightarrow> id_arg \<Rightarrow> saver \<Rightarrow> saver" where
  "prune_thread versions meta raw_thread_id s =
     (let thread_id = id_str raw_thread_id; t = IdStr thread_id in
      case map_of (cp_storage s) t of
        None \<Rightarrow> s
      | Some nss \<Rightarrow>
          if nss = [] then s
          else
            let live = live_namespaces nss;
                removed = removed_entries versions meta (cp_blobs s) t live;
                drop_w = drop_write thread_id (kept_write_keys versions meta (cp_blobs s) t live);
                drop_b = drop_blob thread_id (kept_blob_keys versions meta (cp_blobs s) t live);
                removed_size =
                  sum_list (map (\<lambda>(i, e). checkpoint_entry_size i e) removed)
                  + sum_list (map (\<lambda>((th, ns, i), g). write_group_size i g)
                      (filter (\<lambda>(k, g). drop_w k) (cp_writes s)))
                  + sum_list (map (\<lambda>((th, ns, channel, v), b). blob_entry_size channel v b)
                      (filter (\<lambda>(k, b). drop_b k) (cp_blobs s)))
            in s\<lparr>cp_storage := AList.update t
                   (map (\<lambda>(ns, checkpoints). (ns, keep_entries versions meta (cp_blobs s) t ns checkpoints)) live)
                   (cp_storage s),
                 cp_writes := filter (\<lambda>(k, g). \<not> drop_w k) (cp_writes s),
                 cp_blobs := filter (\<lambda>(k, b). \<not> drop_b k) (cp_blobs s),
                 cp_size := adjust thread_id (- removed_size) (- int (length removed)) (cp_size s)\<rparr>)"

definition saver_prune ::
  "(typed \<Rightarrow> (string \<times> version) list) \<Rightarrow> (typed \<Rightarrow> pyval) \<Rightarrow> base_delete_thread \<Rightarrow> id_arg list \<Rightarrow> string
     \<Rightarrow> saver \<Rightarrow> saver res" where
  "saver_prune versions meta base_delete_thread thread_ids strategy s =
     (if strategy \<in> {''delete'', ''delete_all''}
      then Inr (fold (\<lambda>t. saver_delete_thread base_delete_thread (IdStr (id_str t))) thread_ids s)
      else if strategy \<noteq> ''keep_latest'' then Inl ValueError
      else Inr (fold (prune_thread versions meta) thread_ids s))"

subsection \<open>Deleting the checkpoints of runs\<close>

text \<open>
  The storage as triples of thread, namespace and checkpoint, in iteration order. \<open>py_str\<close> is
  Python's \<open>str\<close> on a deserialized value.
\<close>

definition all_entries :: "(id_arg \<times> namespaces) list \<Rightarrow> ((id_arg \<times> string \<times> id_arg) \<times> cp_entry) list" where
  "all_entries st =
     concat (map (\<lambda>(t, nss). concat (map (\<lambda>(ns, checkpoints).
       map (\<lambda>(i, e). ((t, ns, i), e)) checkpoints) nss)) st)"

definition owned_by ::
  "(pyval \<Rightarrow> string) \<Rightarrow> (typed \<Rightarrow> pyval) \<Rightarrow> string list \<Rightarrow> cp_entry \<Rightarrow> bool" where
  "owned_by py_str meta target_run_ids e =
     (case meta (ce_metadata e) of
        PDict d \<Rightarrow>
          (case dict_get d ''run_id'' PNone of
             PNone \<Rightarrow> False
           | r \<Rightarrow> py_str r \<in> set target_run_ids)
      | _ \<Rightarrow> False)"

definition protected_keys ::
  "(typed \<Rightarrow> (string \<times> version) list) \<Rightarrow> (typed \<Rightarrow> pyval) \<Rightarrow> saver \<Rightarrow> (id_arg \<times> string \<times> id_arg) list
     \<Rightarrow> (id_arg \<times> string \<times> id_arg) list" where
  "protected_keys versions meta s candidates =
     concat (map (\<lambda>((t, ns, i), e).
       if (t, ns, i) \<in> set candidates then []
       else filter (\<lambda>k. k \<in> set candidates)
              (map (\<lambda>p. (t, ns, p))
                (ancestors_needed versions meta (cp_blobs s) t ns
                  (dict_get (dict_get (cp_storage s) t []) ns []) e)))
       (all_entries (cp_storage s)))"

definition blob_keys_of ::
  "(typed \<Rightarrow> (string \<times> version) list) \<Rightarrow> ((id_arg \<times> string \<times> id_arg) \<times> cp_entry) list \<Rightarrow> bkey list" where
  "blob_keys_of versions es =
     concat (map (\<lambda>((t, ns, i), e). map (\<lambda>(channel, v). (t, ns, channel, v)) (versions (ce_checkpoint e))) es)"

definition delete_keys ::
  "(id_arg \<times> string \<times> id_arg) list \<Rightarrow> (id_arg \<times> namespaces) list \<Rightarrow> (id_arg \<times> namespaces) list" where
  "delete_keys removed st =
     filter (\<lambda>(t, nss). nss \<noteq> [])
       (map (\<lambda>(t, nss). (t, filter (\<lambda>(ns, checkpoints). checkpoints \<noteq> [])
           (map (\<lambda>(ns, checkpoints). (ns, filter (\<lambda>(i, e). (t, ns, i) \<notin> set removed) checkpoints)) nss)))
         st)"

definition run_candidates ::
  "(pyval \<Rightarrow> string) \<Rightarrow> (typed \<Rightarrow> pyval) \<Rightarrow> string list \<Rightarrow> saver \<Rightarrow> (id_arg \<times> string \<times> id_arg) list" where
  "run_candidates py_str meta target_run_ids s =
     map fst (filter (\<lambda>(k, e). owned_by py_str meta target_run_ids e) (all_entries (cp_storage s)))"

definition run_removed ::
  "(typed \<Rightarrow> (string \<times> version) list) \<Rightarrow> (typed \<Rightarrow> pyval) \<Rightarrow> saver \<Rightarrow> (id_arg \<times> string \<times> id_arg) list
     \<Rightarrow> (id_arg \<times> string \<times> id_arg) list" where
  "run_removed versions meta s candidates =
     filter (\<lambda>k. k \<notin> set (protected_keys versions meta s candidates)) candidates"

text \<open>The textual form of a key: its scope \<open>(str(thread), ns)\<close> and \<open>str(checkpoint)\<close>.\<close>

definition norm_key :: "id_arg \<times> string \<times> id_arg \<Rightarrow> string \<times> string \<times> string" where
  "norm_key k = (case k of (t, ns, i) \<Rightarrow> (id_str t, ns, id_str i))"

definition delete_for_runs ::
  "(typed \<Rightarrow> (string \<times> version) list) \<Rightarrow> (typed \<Rightarrow> pyval) \<Rightarrow> (pyval \<Rightarrow> string) \<Rightarrow> id_arg list \<Rightarrow> saver
     \<Rightarrow> saver res" where
  "delete_for_runs versions meta py_str run_ids s =
     (let target_run_ids = map id_str run_ids; es = all_entries (cp_storage s) in
      if target_run_ids = [] then Inr s
      else if \<exists>(k, e) \<in> set es. \<not> (case meta (ce_metadata e) of PDict _ \<Rightarrow> True | _ \<Rightarrow> False)
      then Inl AttributeError
      else
        let candidates = run_candidates py_str meta target_run_ids s;
            removed = run_removed versions meta s candidates
        in if removed = [] then Inr s
           else
             let removed_blob_keys = blob_keys_of versions (filter (\<lambda>(k, e). k \<in> set removed) es);
                 storage = delete_keys removed (cp_storage s);
                 writes = filter (\<lambda>(k, g). norm_key k \<notin> norm_key ` set removed) (cp_writes s);
                 retained_blob_keys = blob_keys_of versions (all_entries storage);
                 blobs = filter (\<lambda>(k, b). \<not> (k \<in> set removed_blob_keys \<and> k \<notin> set retained_blob_keys))
                           (cp_blobs s)
             in Inr (rebuild_size_tracking
                       (s\<lparr>cp_storage := storage, cp_writes := writes, cp_blobs := blobs\<rparr>)))"

section \<open>What the code relies on of its base class\<close>

text \<open>
  \<open>put\<close> stores one entry under the checkpoint's id and one blob per new version, and nothing
  else; \<open>put_writes\<close> changes the one group of writes of its key, or nothing; \<open>delete_thread\<close>
  removes what is keyed by the thread.
\<close>

definition base_put_law :: "'c base_put \<Rightarrow> ('c \<Rightarrow> id_arg) \<Rightarrow> bool" where
  "base_put_law base_put cp_id \<longleftrightarrow>
     (\<forall>conf c md nv s t ns. conf_id conf ''thread_id'' = Inr t \<longrightarrow> conf_str conf ''checkpoint_ns'' = Inr ns \<longrightarrow>
        (\<exists>e val. base_put conf c md nv s =
           s\<lparr>cp_storage := storage_put t ns (cp_id c) e (cp_storage s),
             cp_blobs := dict_merge (cp_blobs s) (map (\<lambda>(ch, v). ((t, ns, ch, v), val ch v)) nv)\<rparr>))"

definition base_put_writes_law :: "base_put_writes \<Rightarrow> bool" where
  "base_put_writes_law base_put_writes \<longleftrightarrow>
     (\<forall>conf ws task path s t ns i. conf_id conf ''thread_id'' = Inr t \<longrightarrow>
        (if has_key conf ''checkpoint_ns'' then conf_str conf ''checkpoint_ns'' else Inr '''') = Inr ns \<longrightarrow>
        conf_id conf ''checkpoint_id'' = Inr i \<longrightarrow>
        (\<exists>g. base_put_writes conf ws task path s = s\<lparr>cp_writes := AList.update (t, ns, i) g (cp_writes s)\<rparr>)
        \<or> base_put_writes conf ws task path s = s)"

definition base_delete_thread_law :: "base_delete_thread \<Rightarrow> bool" where
  "base_delete_thread_law base_delete_thread \<longleftrightarrow>
     (\<forall>t s. base_delete_thread t s =
        s\<lparr>cp_storage := AList.delete t (cp_storage s),
          cp_writes := filter (\<lambda>(k, g). fst k \<noteq> t) (cp_writes s),
          cp_blobs := filter (\<lambda>(k, b). fst k \<noteq> t) (cp_blobs s)\<rparr>)"

end
