(* ===== verification/Checkpoint_Safety.thy ===== *)
theory Checkpoint_Safety
  imports Checkpoint
begin

text \<open>
  What deleting checkpoint history preserves: the latest checkpoint of every namespace, the data
  every delta channel of a surviving checkpoint is rebuilt from, and the other threads.
\<close>

section \<open>Dictionaries of dictionaries\<close>

text \<open>Every dictionary has one entry per key.\<close>

definition namespaces_wf :: "namespaces \<Rightarrow> bool" where
  "namespaces_wf nss \<longleftrightarrow> distinct (map fst nss) \<and> (\<forall>ns cps. (ns, cps) \<in> set nss \<longrightarrow> distinct (map fst cps))"

definition saver_wf :: "saver \<Rightarrow> bool" where
  "saver_wf s \<longleftrightarrow>
     distinct (map fst (cp_storage s)) \<and> (\<forall>t nss. (t, nss) \<in> set (cp_storage s) \<longrightarrow> namespaces_wf nss) \<and>
     distinct (map fst (cp_writes s)) \<and> distinct (map fst (cp_blobs s))"

definition cps_at :: "saver \<Rightarrow> id_arg \<Rightarrow> string \<Rightarrow> checkpoints" where
  "cps_at s t ns = dict_get (dict_get (cp_storage s) t []) ns []"

lemma get_entry_at: "get_entry s t ns i = map_of (cps_at s t ns) i"
  by (simp add: get_entry_def cps_at_def)

lemma map_of_filter_key: "map_of (filter (\<lambda>(k, v). P k) xs) k = (if P k then map_of xs k else None)"
  by (induction xs) auto

lemma map_of_map_val: "map_of (map (\<lambda>(k, v). (k, f k v)) xs) k = map_option (f k) (map_of xs k)"
  by (induction xs) auto

lemma map_of_filter_val:
  "distinct (map fst xs) \<Longrightarrow>
     map_of (filter (\<lambda>(k, v). P v) xs) k = (case map_of xs k of None \<Rightarrow> None | Some v \<Rightarrow> if P v then Some v else None)"
proof (induction xs)
  case (Cons x xs)
  moreover have "fst x \<notin> dom (map_of xs)"
    using Cons.prems by (simp add: dom_map_of_conv_image_fst)
  ultimately show ?case
    by (cases x) (auto split: option.splits)
qed simp

lemma wf_namespaces:
  assumes "saver_wf s" and "map_of (cp_storage s) t = Some nss"
  shows "distinct (map fst nss)" and "map_of nss ns = Some cps \<Longrightarrow> distinct (map fst cps)"
proof -
  have "(t, nss) \<in> set (cp_storage s)"
    using assms(2) by (rule map_of_SomeD)
  then show "distinct (map fst nss)" "map_of nss ns = Some cps \<Longrightarrow> distinct (map fst cps)"
    using assms(1) map_of_SomeD [of nss ns cps] by (auto simp: saver_wf_def namespaces_wf_def)
qed

lemma wf_cps_at: "saver_wf s \<Longrightarrow> distinct (map fst (cps_at s t ns))"
  using wf_namespaces by (fastforce simp: cps_at_def dict_get_def split: option.splits)

section \<open>The latest checkpoint\<close>

lemma max_by_in: "max_by f m xs \<in> set (m # xs)"
proof (induction xs arbitrary: m)
  case (Cons x xs)
  then show ?case
    using Cons.IH [of "if f x > f m then x else m"] by (auto split: if_splits)
qed simp

lemma max_by_ge: "x \<in> set (m # xs) \<Longrightarrow> f x \<le> f (max_by f m xs)"
proof (induction xs arbitrary: m x)
  case (Cons y ys)
  have "f z \<le> f (if f y > f m then y else m)" if "z = y \<or> z = m" for z
    using that by auto
  moreover have "f (if f y > f m then y else m) \<le> f (max_by f (if f y > f m then y else m) ys)"
    using Cons.IH by simp
  ultimately show ?case
    using Cons.IH [of x "if f y > f m then y else m"] Cons.prems
    by (metis list.set_intros(2) max_by.simps(2) order_trans set_ConsD)
qed simp

lemma max_by_stays: "\<forall>z \<in> set zs. f z \<le> f x \<Longrightarrow> max_by f x zs = x"
  by (induction zs) auto

lemma max_by_first:
  "\<forall>y \<in> set (m # ys). f y < f x \<Longrightarrow> \<forall>z \<in> set zs. f z \<le> f x \<Longrightarrow> max_by f m (ys @ x # zs) = x"
  by (induction ys arbitrary: m) (auto simp: max_by_stays)

lemma max_by_unique:
  "\<forall>y \<in> set ys. f y < f x \<Longrightarrow> \<forall>z \<in> set zs. f z \<le> f x \<Longrightarrow>
     max_by f (hd (ys @ x # zs)) (tl (ys @ x # zs)) = x"
  by (cases ys) (auto simp: max_by_stays intro!: max_by_first)

lemma max_by_split:
  "\<exists>ys zs. m # xs = ys @ max_by f m xs # zs \<and> (\<forall>y \<in> set ys. f y < f (max_by f m xs)) \<and>
     (\<forall>z \<in> set zs. f z \<le> f (max_by f m xs))"
proof -
  let ?M = "max_by f m xs"
  obtain ys x zs where l: "m # xs = ys @ x # zs" "f x = f ?M" "\<forall>y \<in> set ys. f y \<noteq> f ?M"
    using split_list_first_prop [of "m # xs" "\<lambda>x. f x = f ?M"] max_by_in [of f m xs] by blast
  have ge: "f y \<le> f ?M" if "y \<in> set (m # xs)" for y
    by (rule max_by_ge [OF that])
  have b: "\<forall>y \<in> set ys. f y < f x" "\<forall>z \<in> set zs. f z \<le> f x"
    using ge l by (auto simp: less_le)
  have "?M = x"
    using max_by_unique [OF b] l(1) by (metis list.sel(1,3))
  then show ?thesis
    using l b by blast
qed

lemma latest_of_filter:
  assumes "cps \<noteq> []" and "P (latest_of cps)"
  shows "latest_of (filter P cps) = latest_of cps"
proof -
  let ?f = "\<lambda>(i, e). id_str i"
  obtain ys zs where l: "cps = ys @ latest_of cps # zs" "\<forall>y \<in> set ys. ?f y < ?f (latest_of cps)"
      "\<forall>z \<in> set zs. ?f z \<le> ?f (latest_of cps)"
    using max_by_split [of "hd cps" "tl cps" ?f] assms(1) by (auto simp: latest_of_def)
  have eq: "filter P cps = filter P ys @ latest_of cps # filter P zs"
    by (subst l(1)) (simp add: assms(2))
  have "latest_of (filter P ys @ latest_of cps # filter P zs) = latest_of cps"
    unfolding latest_of_def [of "filter P ys @ latest_of cps # filter P zs"]
    by (rule max_by_unique) (use l(2,3) in simp_all)
  then show ?thesis
    by (simp only: eq)
qed

lemma latest_of_in: "cps \<noteq> [] \<Longrightarrow> latest_of cps \<in> set cps"
  using max_by_in [of "\<lambda>(i, _). id_str i" "hd cps" "tl cps"] by (simp add: latest_of_def)

lemma latest_of_max: "cps \<noteq> [] \<Longrightarrow> (i, e) \<in> set cps \<Longrightarrow> id_str i \<le> id_str (fst (latest_of cps))"
  using max_by_ge [of "(i, e)" "hd cps" "tl cps" "\<lambda>(i, _). id_str i"]
  by (simp add: latest_of_def split_beta)

lemma latest_of_entry:
  "cps \<noteq> [] \<Longrightarrow> distinct (map fst cps) \<Longrightarrow> map_of cps (fst (latest_of cps)) = Some (snd (latest_of cps))"
  using latest_of_in by (simp add: map_of_eq_Some_iff)

section \<open>What a channel is rebuilt from\<close>

text \<open>
  The entries, writes and blobs read to rebuild channel \<open>ch\<close> at checkpoint \<open>i\<close>: those of the
  checkpoint and, when the channel is a delta channel without a snapshot there, those of its
  ancestors up to the nearest materialized snapshot.
\<close>

definition rebuild_path ::
  "(typed \<Rightarrow> (string \<times> version) list) \<Rightarrow> (typed \<Rightarrow> pyval) \<Rightarrow> saver \<Rightarrow> id_arg \<Rightarrow> string \<Rightarrow> id_arg \<Rightarrow> string \<Rightarrow> id_arg list" where
  "rebuild_path versions meta s t ns i ch =
     (case get_entry s t ns i of
        None \<Rightarrow> []
      | Some e \<Rightarrow>
          i # (if ch \<in> set (needed_channels versions meta (cp_blobs s) t ns e)
               then delta_walk (cps_at s t ns) ce_parent (holds versions (cp_blobs s) t ns) [] [ch] (ce_parent e)
               else []))"

definition channel_blob ::
  "(typed \<Rightarrow> (string \<times> version) list) \<Rightarrow> saver \<Rightarrow> id_arg \<Rightarrow> string \<Rightarrow> id_arg \<Rightarrow> string \<Rightarrow> typed option" where
  "channel_blob versions s t ns i ch =
     (case get_entry s t ns i of
        None \<Rightarrow> None
      | Some e \<Rightarrow>
          (case map_of (versions (ce_checkpoint e)) ch of
             None \<Rightarrow> None | Some v \<Rightarrow> map_of (cp_blobs s) (t, ns, ch, v)))"

definition rebuild_inputs ::
  "(typed \<Rightarrow> (string \<times> version) list) \<Rightarrow> (typed \<Rightarrow> pyval) \<Rightarrow> saver \<Rightarrow> id_arg \<Rightarrow> string \<Rightarrow> id_arg \<Rightarrow> string
     \<Rightarrow> (id_arg \<times> cp_entry option \<times> wgroup option \<times> typed option) list" where
  "rebuild_inputs versions meta s t ns i ch =
     map (\<lambda>j. (j, get_entry s t ns j, map_of (cp_writes s) (t, ns, j), channel_blob versions s t ns j ch))
       (rebuild_path versions meta s t ns i ch)"

text \<open>
  Everything about a saver that rebuilding reads, under a set of kept checkpoints: a saver that
  agrees with another on the kept checkpoints, and has no others, rebuilds the same inputs.
\<close>

definition keeps_data ::
  "(typed \<Rightarrow> (string \<times> version) list) \<Rightarrow> id_arg \<Rightarrow> string \<Rightarrow> (id_arg \<Rightarrow> bool) \<Rightarrow> saver \<Rightarrow> saver \<Rightarrow> bool" where
  "keeps_data versions t ns keep s s' \<longleftrightarrow>
     cps_at s' t ns = filter (\<lambda>(i, e). keep i) (cps_at s t ns) \<and>
     (\<forall>i e. keep i \<longrightarrow> map_of (cps_at s t ns) i = Some e \<longrightarrow>
        map_of (cp_writes s') (t, ns, i) = map_of (cp_writes s) (t, ns, i) \<and>
        (\<forall>b \<in> set (versions (ce_checkpoint e)). map_of (cp_blobs s') (t, ns, b) = map_of (cp_blobs s) (t, ns, b)))"

lemma keeps_data_views:
  assumes "keeps_data versions t ns keep s s'" and "keep i" and "map_of (cps_at s t ns) i = Some e"
  shows "get_entry s' t ns i = Some e" and "get_entry s t ns i = Some e"
    and "map_of (cp_writes s') (t, ns, i) = map_of (cp_writes s) (t, ns, i)"
    and "channel_blob versions s' t ns i ch = channel_blob versions s t ns i ch"
    and "holds versions (cp_blobs s') t ns e ch = holds versions (cp_blobs s) t ns e ch"
    and "needed_channels versions meta (cp_blobs s') t ns e = needed_channels versions meta (cp_blobs s) t ns e"
proof -
  have blobs: "map_of (cp_blobs s') (t, ns, c, v) = map_of (cp_blobs s) (t, ns, c, v)"
    if "(c, v) \<in> set (versions (ce_checkpoint e))" for c v
    using assms that unfolding keeps_data_def by blast
  show g: "get_entry s' t ns i = Some e" "get_entry s t ns i = Some e"
    using assms by (simp_all add: keeps_data_def get_entry_at map_of_filter_key)
  show "map_of (cp_writes s') (t, ns, i) = map_of (cp_writes s) (t, ns, i)"
    using assms unfolding keeps_data_def by blast
  show "channel_blob versions s' t ns i ch = channel_blob versions s t ns i ch"
    using g blobs by (auto simp: channel_blob_def split: option.splits dest: map_of_SomeD)
  show "holds versions (cp_blobs s') t ns e ch = holds versions (cp_blobs s) t ns e ch"
    using blobs by (cases "map_of (versions (ce_checkpoint e)) ch")
      (auto simp: holds_def materialized_def dest: map_of_SomeD)
  show "needed_channels versions meta (cp_blobs s') t ns e = needed_channels versions meta (cp_blobs s) t ns e"
    using blobs unfolding needed_channels_def materialized_def
    by (intro arg_cong [of _ _ "map fst"] filter_cong) auto
qed

section \<open>The retention policies\<close>

text \<open>A retention policy on one namespace of one thread.\<close>

locale saver_retention =
  retention "cps_at s t ns" ce_parent "holds versions (cp_blobs s) t ns"
    "needed_channels versions meta (cp_blobs s) t ns" must keep
  for s :: saver and t ns versions meta must keep
begin

lemma rebuild_same:
  assumes data: "keeps_data versions t ns keep s s'" and i: "must i" "map_of (cps_at s t ns) i = Some e"
  shows "rebuild_inputs versions meta s' t ns i ch = rebuild_inputs versions meta s t ns i ch"
proof -
  note views = keeps_data_views [OF data]
  have k: "cps_at s' t ns = kept"
    using data by (simp add: keeps_data_def kept_def)
  have walk: "delta_walk (cps_at s' t ns) ce_parent (holds versions (cp_blobs s') t ns) [] [ch] (ce_parent e) =
      delta_walk (cps_at s t ns) ce_parent (holds versions (cp_blobs s) t ns) [] [ch] (ce_parent e)"
    if "ch \<in> set (needed_channels versions meta (cp_blobs s) t ns e)"
    using chain_stays [OF i that, of "holds versions (cp_blobs s') t ns"] views(5) by (simp add: k)
  have path: "rebuild_path versions meta s' t ns i ch = rebuild_path versions meta s t ns i ch"
    using views(1,2) [OF keeps_must [OF i(1)] i(2)] views(6) [OF keeps_must [OF i(1)] i(2), of meta] walk
    by (simp add: rebuild_path_def)
  have "keep j \<and> map_of (cps_at s t ns) j \<noteq> None"
    if j: "j \<in> set (rebuild_path versions meta s t ns i ch)" for j
  proof (cases "j = i")
    case True
    then show ?thesis
      using keeps_must [OF i(1)] i(2) by simp
  next
    case False
    then have ch: "ch \<in> set (needed_channels versions meta (cp_blobs s) t ns e)" and
        w: "j \<in> set (delta_walk (cps_at s t ns) ce_parent (holds versions (cp_blobs s) t ns) [] [ch] (ce_parent e))"
      using j views(2) [OF keeps_must [OF i(1)] i(2)] by (auto simp: rebuild_path_def split: if_splits)
    have "keep j"
      by (rule keeps_walk [OF i]) (rule subsetD [OF walk_mono [OF ch] w])
    then show ?thesis
      using walk_stored [OF w] by simp
  qed
  then have stored: "\<exists>f. keep j \<and> map_of (cps_at s t ns) j = Some f"
    if "j \<in> set (rebuild_path versions meta s t ns i ch)" for j
    using that by blast
  have "(j, get_entry s' t ns j, map_of (cp_writes s') (t, ns, j), channel_blob versions s' t ns j ch) =
      (j, get_entry s t ns j, map_of (cp_writes s) (t, ns, j), channel_blob versions s t ns j ch)"
    if j: "j \<in> set (rebuild_path versions meta s t ns i ch)" for j
  proof -
    obtain f where "keep j" "map_of (cps_at s t ns) j = Some f"
      using stored [OF j] by blast
    then show ?thesis
      using views(1-3) [of j f] views(4) [of j f ch] by simp
  qed
  then show ?thesis
    unfolding rebuild_inputs_def path by (rule map_cong [OF refl])
qed

end

text \<open>\<open>keep_latest\<close> must keep the latest checkpoint; it keeps \<^const>\<open>keep_ids\<close>.\<close>

interpretation prune_policy: saver_retention s t ns versions meta
  "\<lambda>i. i = fst (latest_of (cps_at s t ns)) \<and>
       map_of (cps_at s t ns) i = Some (snd (latest_of (cps_at s t ns)))"
  "\<lambda>i. i \<in> set (keep_ids versions meta (cp_blobs s) t ns (cps_at s t ns))"
  for s t ns versions meta
  by unfold_locales (auto simp: keep_ids_def ancestors_needed_def split_beta)

text \<open>\<open>delete_for_runs\<close> must keep what no targeted run owns; it keeps what it does not remove.\<close>

lemma cps_at_entry: "map_of (cps_at s t ns) i = Some e \<Longrightarrow> ((t, ns, i), e) \<in> set (all_entries (cp_storage s))"
proof -
  assume e: "map_of (cps_at s t ns) i = Some e"
  obtain nss where nss: "map_of (cp_storage s) t = Some nss" "map_of (dict_get nss ns []) i = Some e"
    using e by (cases "map_of (cp_storage s) t") (auto simp: cps_at_def dict_get_def)
  obtain cps where cps: "map_of nss ns = Some cps" "map_of cps i = Some e"
    using nss(2) by (cases "map_of nss ns") (auto simp: dict_get_def)
  show ?thesis
    using map_of_SomeD [OF nss(1)] map_of_SomeD [OF cps(1)] map_of_SomeD [OF cps(2)]
    by (force simp: all_entries_def)
qed

lemma protected_walk:
  assumes "map_of (cps_at s t ns) i = Some e" and "(t, ns, i) \<notin> set candidates"
    and "q \<in> set (delta_walk (cps_at s t ns) ce_parent (holds versions (cp_blobs s) t ns) []
                (needed_channels versions meta (cp_blobs s) t ns e) (ce_parent e))"
    and "(t, ns, q) \<in> set candidates"
  shows "(t, ns, q) \<in> set (protected_keys versions meta s candidates)"
  unfolding protected_keys_def set_concat
proof (rule UnionI)
  show "(t, ns, q) \<in> set (filter (\<lambda>k. k \<in> set candidates) (map (\<lambda>p. (t, ns, p))
      (ancestors_needed versions meta (cp_blobs s) t ns (dict_get (dict_get (cp_storage s) t []) ns []) e)))"
    using assms by (simp add: ancestors_needed_def cps_at_def)
qed (use cps_at_entry [OF assms(1)] assms(2) in \<open>force intro!: rev_image_eqI\<close>)

interpretation runs_policy: saver_retention s t ns versions meta
  "\<lambda>i. (t, ns, i) \<notin> set candidates"
  "\<lambda>i. (t, ns, i) \<notin> set (run_removed versions meta s candidates)"
  for s t ns versions meta candidates
proof unfold_locales
  fix i
  assume i: "(t, ns, i) \<notin> set candidates"
  then show "(t, ns, i) \<notin> set (run_removed versions meta s candidates)"
    by (simp add: run_removed_def)
  fix e q
  assume "map_of (cps_at s t ns) i = Some e"
    and "q \<in> set (delta_walk (cps_at s t ns) ce_parent (holds versions (cp_blobs s) t ns) []
                (needed_channels versions meta (cp_blobs s) t ns e) (ce_parent e))"
  then show "(t, ns, q) \<notin> set (run_removed versions meta s candidates)"
    using i protected_walk [of s t ns i e candidates q versions meta] by (auto simp: run_removed_def)
qed

section \<open>Pruning\<close>

abbreviation (input) kept_by where
  "kept_by versions meta s t ns \<equiv>
     (\<lambda>i. i \<in> set (keep_ids versions meta (cp_blobs s) t ns (cps_at s t ns)))"

lemma prune_none:
  "map_of (cp_storage s) (IdStr (id_str r)) \<in> {None, Some []} \<Longrightarrow> prune_thread versions meta r s = s"
  by (auto simp: prune_thread_def split: option.splits)

lemma prune_some:
  assumes "map_of (cp_storage s) (IdStr (id_str r)) = Some nss" and "nss \<noteq> []"
  defines "t \<equiv> IdStr (id_str r)" and "live \<equiv> live_namespaces nss"
  shows "cp_storage (prune_thread versions meta r s) =
      AList.update t (map (\<lambda>(ns, cps). (ns, keep_entries versions meta (cp_blobs s) t ns cps)) live) (cp_storage s)"
    and "cp_writes (prune_thread versions meta r s) =
      filter (\<lambda>(k, g). \<not> drop_write (id_str r) (kept_write_keys versions meta (cp_blobs s) t live) k) (cp_writes s)"
    and "cp_blobs (prune_thread versions meta r s) =
      filter (\<lambda>(k, b). \<not> drop_blob (id_str r) (kept_blob_keys versions meta (cp_blobs s) t live) k) (cp_blobs s)"
  using assms by (simp_all add: prune_thread_def Let_def)

lemma live_cps_at:
  assumes "saver_wf s" and "map_of (cp_storage s) t = Some nss"
  shows "(ns, cps) \<in> set (live_namespaces nss) \<longleftrightarrow> cps = cps_at s t ns \<and> cps \<noteq> []"
proof -
  have "(ns, cps) \<in> set nss \<longleftrightarrow> map_of nss ns = Some cps"
    by (simp add: map_of_eq_Some_iff wf_namespaces(1) [OF assms])
  then show ?thesis
    using assms(2) by (auto simp: live_namespaces_def cps_at_def dict_get_def split: option.splits)
qed

lemma map_of_live:
  assumes "saver_wf s" and "map_of (cp_storage s) t = Some nss"
  shows "map_of (live_namespaces nss) ns = (if cps_at s t ns = [] then None else Some (cps_at s t ns))"
  using assms(2) wf_namespaces(1) [OF assms]
  by (auto simp: live_namespaces_def map_of_filter_val cps_at_def dict_get_def split: option.splits)

lemma kept_write_keys_iff:
  assumes "saver_wf s" and "map_of (cp_storage s) t = Some nss"
  shows "(x, ns, y) \<in> set (kept_write_keys versions meta (cp_blobs s) t (live_namespaces nss)) \<longleftrightarrow>
     x = id_str t \<and> cps_at s t ns \<noteq> [] \<and> (\<exists>i. kept_by versions meta s t ns i \<and> y = id_str i)"
  by (force simp: kept_write_keys_def live_cps_at [OF assms])

lemma kept_blob_keys_iff:
  assumes "saver_wf s" and "map_of (cp_storage s) t = Some nss"
  shows "(x, ns, b) \<in> set (kept_blob_keys versions meta (cp_blobs s) t (live_namespaces nss)) \<longleftrightarrow>
     x = t \<and> (\<exists>i e. (i, e) \<in> set (cps_at s t ns) \<and> kept_by versions meta s t ns i \<and> b \<in> set (versions (ce_checkpoint e)))"
  by (force simp: kept_blob_keys_def keep_entries_def live_cps_at [OF assms])

lemma prune_cps_at:
  assumes "saver_wf s"
  shows "cps_at (prune_thread versions meta r s) t ns =
     (if t = IdStr (id_str r) then filter (\<lambda>(i, e). kept_by versions meta s t ns i) (cps_at s t ns)
      else cps_at s t ns)"
proof (cases "map_of (cp_storage s) (IdStr (id_str r)) \<in> {None, Some []}")
  case True
  then show ?thesis
    by (auto simp: prune_none cps_at_def dict_get_def)
next
  case False
  then obtain nss where nss: "map_of (cp_storage s) (IdStr (id_str r)) = Some nss" "nss \<noteq> []" by auto
  show ?thesis
  proof (cases "t = IdStr (id_str r)")
    case True
    then show ?thesis
      using map_of_live [OF assms nss(1), of ns]
      by (simp add: cps_at_def [of "prune_thread versions meta r s"] prune_some [OF nss] dict_simps
          dict_get_def [of _ ns] map_of_map_val keep_entries_def)
  next
    case other: False
    then show ?thesis
      by (simp add: cps_at_def prune_some [OF nss] dict_simps)
  qed
qed

lemma prune_keeps_data:
  assumes "saver_wf s" and t_def: "t = IdStr (id_str r)"
  shows "keeps_data versions t ns (kept_by versions meta s t ns) s (prune_thread versions meta r s)"
proof (cases "map_of (cp_storage s) t \<in> {None, Some []}")
  case True
  then have "cps_at s t ns = []" by (auto simp: cps_at_def dict_get_def)
  with True show ?thesis
    by (simp add: keeps_data_def prune_none t_def)
next
  case False
  then obtain nss where nss: "map_of (cp_storage s) t = Some nss" "nss \<noteq> []" by auto
  note some = prune_some [OF nss [unfolded t_def], folded t_def]
  have "map_of (cp_writes (prune_thread versions meta r s)) (t, ns, i) = map_of (cp_writes s) (t, ns, i)"
    and "b \<in> set (versions (ce_checkpoint e)) \<Longrightarrow>
      map_of (cp_blobs (prune_thread versions meta r s)) (t, ns, b) = map_of (cp_blobs s) (t, ns, b)"
    if "kept_by versions meta s t ns i" "map_of (cps_at s t ns) i = Some e" for i e b
  proof -
    have "cps_at s t ns \<noteq> []" "(i, e) \<in> set (cps_at s t ns)"
      using that map_of_SomeD by auto
    then show "map_of (cp_writes (prune_thread versions meta r s)) (t, ns, i) = map_of (cp_writes s) (t, ns, i)"
      "b \<in> set (versions (ce_checkpoint e)) \<Longrightarrow>
        map_of (cp_blobs (prune_thread versions meta r s)) (t, ns, b) = map_of (cp_blobs s) (t, ns, b)"
      using that by (auto simp: some map_of_filter_key drop_write_def drop_blob_def
          kept_write_keys_iff [OF assms(1) nss(1)] kept_blob_keys_iff [OF assms(1) nss(1)])
  qed
  then show ?thesis
    using prune_cps_at [OF assms(1), of versions meta r t ns] by (auto simp: keeps_data_def t_def)
qed

lemma set_update_subset: "set (AList.update k v d) \<subseteq> insert (k, v) (set d)"
  by (induction d) auto

lemma distinct_map_filter_fst: "distinct (map fst xs) \<Longrightarrow> distinct (map fst (filter P xs))"
  by (rule distinct_map_filter)

lemma prune_wf:
  assumes "saver_wf s"
  shows "saver_wf (prune_thread versions meta r s)"
proof (cases "map_of (cp_storage s) (IdStr (id_str r)) \<in> {None, Some []}")
  case True
  with assms show ?thesis by (simp add: prune_none)
next
  case False
  then obtain nss where nss: "map_of (cp_storage s) (IdStr (id_str r)) = Some nss" "nss \<noteq> []" by auto
  let ?n = "map (\<lambda>(ns, cps). (ns, keep_entries versions meta (cp_blobs s) (IdStr (id_str r)) ns cps)) (live_namespaces nss)"
  have "distinct (map fst (live_namespaces nss))"
    using wf_namespaces(1) [OF assms nss(1)] by (simp add: live_namespaces_def distinct_map_filter)
  then have "distinct (map fst ?n)"
    by (rule distinct_fst_map)
  moreover have "distinct (map fst (keep_entries versions meta (cp_blobs s) (IdStr (id_str r)) ns cps))"
    if "(ns, cps) \<in> set (live_namespaces nss)" for ns cps
    using that wf_cps_at [OF assms] by (auto simp: live_cps_at [OF assms nss(1)] keep_entries_def distinct_map_filter)
  ultimately have n: "namespaces_wf ?n"
    by (auto simp: namespaces_wf_def)
  have "namespaces_wf m" if "(t, m) \<in> set (AList.update (IdStr (id_str r)) ?n (cp_storage s))" for t m
    using set_update_subset [of "IdStr (id_str r)" ?n "cp_storage s"] that n assms by (auto simp: saver_wf_def)
  then show ?thesis
    using assms by (auto simp: saver_wf_def prune_some [OF nss] distinct_update distinct_map_filter)
qed

lemma prune_other_threads:
  assumes "id_str t \<noteq> id_str r"
  shows "map_of (cp_storage (prune_thread versions meta r s)) t = map_of (cp_storage s) t"
    and "map_of (cp_writes (prune_thread versions meta r s)) (t, k) = map_of (cp_writes s) (t, k)"
    and "map_of (cp_blobs (prune_thread versions meta r s)) (t, j) = map_of (cp_blobs s) (t, j)"
proof -
  have t: "t \<noteq> IdStr (id_str r)"
    using assms by (auto simp: id_str_def)
  show "map_of (cp_storage (prune_thread versions meta r s)) t = map_of (cp_storage s) t"
    "map_of (cp_writes (prune_thread versions meta r s)) (t, k) = map_of (cp_writes s) (t, k)"
    "map_of (cp_blobs (prune_thread versions meta r s)) (t, j) = map_of (cp_blobs s) (t, j)"
    using assms t
    by (auto simp: prune_thread_def Let_def map_of_filter_key drop_write_def drop_blob_def dict_simps
        split: option.splits prod.splits)
qed

text \<open>The inputs of every channel at the latest checkpoint of every namespace stay the same.\<close>

definition heads_stable ::
  "(typed \<Rightarrow> (string \<times> version) list) \<Rightarrow> (typed \<Rightarrow> pyval) \<Rightarrow> saver \<Rightarrow> saver \<Rightarrow> bool" where
  "heads_stable versions meta s s' \<longleftrightarrow>
     (\<forall>x ns. cps_at s (IdStr x) ns \<noteq> [] \<longrightarrow>
        cps_at s' (IdStr x) ns \<noteq> [] \<and> latest_of (cps_at s' (IdStr x) ns) = latest_of (cps_at s (IdStr x) ns) \<and>
        (\<forall>ch. rebuild_inputs versions meta s' (IdStr x) ns (fst (latest_of (cps_at s (IdStr x) ns))) ch =
              rebuild_inputs versions meta s (IdStr x) ns (fst (latest_of (cps_at s (IdStr x) ns))) ch))"

lemma heads_stable_refl: "heads_stable versions meta s s"
  by (simp add: heads_stable_def)

lemma heads_stable_trans:
  "heads_stable versions meta s s' \<Longrightarrow> heads_stable versions meta s' s'' \<Longrightarrow> heads_stable versions meta s s''"
  unfolding heads_stable_def by fastforce

lemma rebuild_cong:
  assumes "cps_at s' t ns = cps_at s t ns"
    and "\<And>i. map_of (cp_writes s') (t, ns, i) = map_of (cp_writes s) (t, ns, i)"
    and "\<And>b. map_of (cp_blobs s') (t, ns, b) = map_of (cp_blobs s) (t, ns, b)"
  shows "rebuild_inputs versions meta s' t ns i ch = rebuild_inputs versions meta s t ns i ch"
proof -
  have m: "materialized (cp_blobs s') (t, ns, b) = materialized (cp_blobs s) (t, ns, b)" for b
    using assms(3) by (simp add: materialized_def)
  have "holds versions (cp_blobs s') t ns = holds versions (cp_blobs s) t ns"
    by (auto simp: fun_eq_iff holds_def m split: option.split)
  moreover have "needed_channels versions meta (cp_blobs s') t ns = needed_channels versions meta (cp_blobs s) t ns"
    by (simp add: fun_eq_iff needed_channels_def m)
  moreover have "get_entry s' t ns = get_entry s t ns"
    using assms(1) by (simp add: fun_eq_iff get_entry_at)
  moreover have "channel_blob versions s' t ns = channel_blob versions s t ns"
    using assms(1,3) by (auto simp: fun_eq_iff channel_blob_def get_entry_at split: option.split)
  ultimately show ?thesis
    using assms(1,2) by (cases "get_entry s t ns i") (simp_all add: rebuild_inputs_def rebuild_path_def)
qed

lemma prune_heads_stable:
  assumes "saver_wf s"
  shows "heads_stable versions meta s (prune_thread versions meta r s)"
  unfolding heads_stable_def
proof (intro allI impI)
  fix x ns
  let ?t = "IdStr x" and ?s' = "prune_thread versions meta r s"
  assume ne: "cps_at s ?t ns \<noteq> []"
  let ?l = "latest_of (cps_at s ?t ns)"
  show "cps_at ?s' ?t ns \<noteq> [] \<and> latest_of (cps_at ?s' ?t ns) = ?l \<and>
    (\<forall>ch. rebuild_inputs versions meta ?s' ?t ns (fst ?l) ch = rebuild_inputs versions meta s ?t ns (fst ?l) ch)"
  proof (cases "x = id_str r")
    case True
    have e: "map_of (cps_at s ?t ns) (fst ?l) = Some (snd ?l)"
      by (rule latest_of_entry [OF ne wf_cps_at [OF assms]])
    have keep: "kept_by versions meta s ?t ns (fst ?l)"
      using prune_policy.keeps_must e by blast
    have f: "cps_at ?s' ?t ns = filter (\<lambda>(i, e). kept_by versions meta s ?t ns i) (cps_at s ?t ns)"
      using prune_cps_at [OF assms, of versions meta r ?t ns] True by simp
    have "?l \<in> set (cps_at ?s' ?t ns)"
      using latest_of_in [OF ne] keep by (auto simp: f split_beta)
    moreover have "latest_of (cps_at ?s' ?t ns) = ?l"
      unfolding f by (rule latest_of_filter [OF ne]) (use keep in \<open>simp add: split_beta\<close>)
    moreover have "rebuild_inputs versions meta ?s' ?t ns (fst ?l) ch = rebuild_inputs versions meta s ?t ns (fst ?l) ch" for ch
      by (rule prune_policy.rebuild_same [OF prune_keeps_data [OF assms]]) (use e True in auto)
    ultimately show ?thesis by force
  next
    case False
    then have o: "id_str ?t \<noteq> id_str r" by (simp add: id_str_def)
    have c: "cps_at ?s' ?t ns = cps_at s ?t ns"
      using prune_other_threads(1) [OF o] by (simp add: cps_at_def dict_get_def)
    show ?thesis
      using rebuild_cong [OF c prune_other_threads(2,3) [OF o]] c ne by simp
  qed
qed

lemma fold_prune:
  "saver_wf s \<Longrightarrow> saver_wf (fold (prune_thread versions meta) rs s) \<and>
     heads_stable versions meta s (fold (prune_thread versions meta) rs s)"
proof (induction rs arbitrary: s)
  case (Cons r rs)
  then show ?case
    using prune_wf prune_heads_stable heads_stable_trans by (metis fold_simps(2))
qed (simp add: heads_stable_refl)

lemma fold_prune_other:
  assumes "id_str t \<notin> id_str ` set rs"
  shows "map_of (cp_storage (fold (prune_thread versions meta) rs s)) t = map_of (cp_storage s) t"
    and "map_of (cp_writes (fold (prune_thread versions meta) rs s)) (t, k) = map_of (cp_writes s) (t, k)"
    and "map_of (cp_blobs (fold (prune_thread versions meta) rs s)) (t, j) = map_of (cp_blobs s) (t, j)"
  using assms by (induction rs arbitrary: s) (simp_all add: prune_other_threads)

lemma kept_by_iff:
  "kept_by versions meta s t ns i \<longleftrightarrow> i = fst (latest_of (cps_at s t ns)) \<or>
     (\<exists>ch \<in> set (needed_channels versions meta (cp_blobs s) t ns (snd (latest_of (cps_at s t ns)))).
        needs (cps_at s t ns) ce_parent (holds versions (cp_blobs s) t ns)
          (ce_parent (snd (latest_of (cps_at s t ns)))) ch i)"
  by (simp add: keep_ids_def ancestors_needed_def set_delta_walk split_beta)

lemma kept_stored:
  assumes "saver_wf s" and "cps_at s t ns \<noteq> []" and "kept_by versions meta s t ns i"
  shows "map_of (cps_at s t ns) i \<noteq> None"
  using assms(3) walk_stored [of i "cps_at s t ns"] latest_of_entry [OF assms(2) wf_cps_at [OF assms(1)]]
  by (auto simp: keep_ids_def ancestors_needed_def split_beta)

section \<open>Deleting the checkpoints of runs\<close>

lemma dict_get_filter_map:
  assumes "distinct (map fst xs)"
  shows "dict_get (filter (\<lambda>(k, v). v \<noteq> []) (map (\<lambda>(k, v). (k, f k v)) xs)) k [] =
     (case map_of xs k of None \<Rightarrow> [] | Some v \<Rightarrow> f k v)"
  using distinct_fst_map [OF assms, of f]
  by (auto simp: dict_get_def map_of_filter_val map_of_map_val split: option.splits)

lemma delete_keys_cps_at:
  assumes "saver_wf s"
  shows "cps_at (s\<lparr>cp_storage := delete_keys removed (cp_storage s)\<rparr>) t ns =
     filter (\<lambda>(i, e). (t, ns, i) \<notin> set removed) (cps_at s t ns)"
proof -
  have d: "distinct (map fst (cp_storage s))"
    using assms by (simp add: saver_wf_def)
  show ?thesis
  proof (cases "map_of (cp_storage s) t")
    case None
    then show ?thesis
      by (simp add: cps_at_def delete_keys_def dict_get_filter_map [OF d]) (simp add: dict_get_def)
  next
    case (Some nss)
    then have "dict_get (cp_storage s) t [] = nss"
      by (simp add: dict_get_def)
    with Some show ?thesis
      by (simp add: cps_at_def delete_keys_def dict_get_filter_map [OF d]
          dict_get_filter_map [OF wf_namespaces(1) [OF assms Some]])
        (simp add: dict_get_def split: option.split)
  qed
qed

text \<open>No two stored checkpoints, one under a \<open>str\<close> and one under a legacy \<open>UUID\<close>, have the same
  textual key.\<close>

definition no_aliases :: "saver \<Rightarrow> bool" where
  "no_aliases s \<longleftrightarrow> inj_on norm_key (fst ` set (all_entries (cp_storage s)))"

lemma rebuild_size_data [simp]:
  "cp_storage (rebuild_size_tracking s) = cp_storage s" "cp_writes (rebuild_size_tracking s) = cp_writes s"
  "cp_blobs (rebuild_size_tracking s) = cp_blobs s"
  by (simp_all add: rebuild_size_tracking_def Let_def)

lemma delete_for_runs_cases:
  assumes "delete_for_runs versions meta py_str rs s = Inr s'"
  defines "rem \<equiv> run_removed versions meta s (run_candidates py_str meta (map id_str rs) s)"
  shows "s' = s \<and> (rs = [] \<or> rem = []) \<or>
    cp_storage s' = delete_keys rem (cp_storage s) \<and>
    cp_writes s' = filter (\<lambda>(k, g). norm_key k \<notin> norm_key ` set rem) (cp_writes s) \<and>
    cp_blobs s' = filter (\<lambda>(k, b).
        \<not> (k \<in> set (blob_keys_of versions (filter (\<lambda>(k, e). k \<in> set rem) (all_entries (cp_storage s)))) \<and>
           k \<notin> set (blob_keys_of versions (all_entries (delete_keys rem (cp_storage s)))))) (cp_blobs s)"
  using assms(1) by (auto simp: delete_for_runs_def Let_def rem_def split: if_splits)

lemma all_entries_iff:
  assumes "saver_wf s"
  shows "((t, ns, i), e) \<in> set (all_entries (cp_storage s)) \<longleftrightarrow> get_entry s t ns i = Some e"
proof
  assume "((t, ns, i), e) \<in> set (all_entries (cp_storage s))"
  then obtain nss cps where m: "(t, nss) \<in> set (cp_storage s)" "(ns, cps) \<in> set nss" "(i, e) \<in> set cps"
    by (auto simp: all_entries_def)
  then have t: "map_of (cp_storage s) t = Some nss"
    using assms by (simp add: saver_wf_def)
  then have ns: "map_of nss ns = Some cps"
    using m(2) wf_namespaces(1) [OF assms t] by simp
  then have "map_of cps i = Some e"
    using m(3) wf_namespaces(2) [OF assms t ns] by simp
  with t ns show "get_entry s t ns i = Some e"
    by (simp add: get_entry_def dict_get_def)
next
  assume "get_entry s t ns i = Some e"
  then show "((t, ns, i), e) \<in> set (all_entries (cp_storage s))"
    by (intro cps_at_entry) (simp add: get_entry_at)
qed

lemma candidates_iff:
  assumes "saver_wf s"
  shows "(t, ns, i) \<in> set (run_candidates py_str meta targets s) \<longleftrightarrow>
     (\<exists>e. get_entry s t ns i = Some e \<and> owned_by py_str meta targets e)"
  by (force simp: run_candidates_def all_entries_iff [OF assms])

lemma removed_iff:
  assumes "saver_wf s"
  shows "(t, ns, i) \<in> set (run_removed versions meta s (run_candidates py_str meta targets s)) \<longleftrightarrow>
     (\<exists>e. get_entry s t ns i = Some e \<and> owned_by py_str meta targets e) \<and>
     \<not> (\<exists>j f ch. get_entry s t ns j = Some f \<and> \<not> owned_by py_str meta targets f \<and>
          ch \<in> set (needed_channels versions meta (cp_blobs s) t ns f) \<and>
          needs (cps_at s t ns) ce_parent (holds versions (cp_blobs s) t ns) (ce_parent f) ch i)"
proof -
  let ?c = "run_candidates py_str meta targets s"
  have "(t, ns, i) \<in> set (protected_keys versions meta s ?c) \<longleftrightarrow> (t, ns, i) \<in> set ?c \<and>
     (\<exists>j f. ((t, ns, j), f) \<in> set (all_entries (cp_storage s)) \<and> (t, ns, j) \<notin> set ?c \<and>
       i \<in> set (ancestors_needed versions meta (cp_blobs s) t ns (cps_at s t ns) f))"
    unfolding protected_keys_def cps_at_def [symmetric] by (force split: if_splits)
  then show ?thesis
    unfolding run_removed_def
    by (fastforce simp: candidates_iff [OF assms] all_entries_iff [OF assms] ancestors_needed_def set_delta_walk)
qed

lemma removed_subset: "set (run_removed versions meta s (run_candidates py_str meta targets s)) \<subseteq>
    fst ` set (all_entries (cp_storage s))"
  by (auto simp: run_removed_def run_candidates_def)

lemma delete_for_runs_cps_at:
  assumes "saver_wf s" and "delete_for_runs versions meta py_str rs s = Inr s'"
  shows "cps_at s' t ns = filter (\<lambda>(i, e). (t, ns, i) \<notin>
     set (run_removed versions meta s (run_candidates py_str meta (map id_str rs) s))) (cps_at s t ns)"
  using delete_for_runs_cases [OF assms(2)]
proof
  let ?rem = "run_removed versions meta s (run_candidates py_str meta (map id_str rs) s)"
  assume same: "s' = s \<and> (rs = [] \<or> ?rem = [])"
  have "\<not> owned_by py_str meta [] e" for e
    by (auto simp: owned_by_def split: pyval.splits)
  then have "rs = [] \<Longrightarrow> ?rem = []"
    by (simp add: run_removed_def run_candidates_def)
  with same have "s' = s" "?rem = []" by auto
  then show ?thesis by simp
next
  let ?rem = "run_removed versions meta s (run_candidates py_str meta (map id_str rs) s)"
  assume "cp_storage s' = delete_keys ?rem (cp_storage s) \<and>
    cp_writes s' = filter (\<lambda>(k, g). norm_key k \<notin> norm_key ` set ?rem) (cp_writes s) \<and>
    cp_blobs s' = filter (\<lambda>(k, b).
        \<not> (k \<in> set (blob_keys_of versions (filter (\<lambda>(k, e). k \<in> set ?rem) (all_entries (cp_storage s)))) \<and>
           k \<notin> set (blob_keys_of versions (all_entries (delete_keys ?rem (cp_storage s)))))) (cp_blobs s)"
  then show ?thesis
    using delete_keys_cps_at [OF assms(1), of ?rem t ns] by (simp add: cps_at_def)
qed

lemma runs_keeps_data:
  assumes "saver_wf s" and "no_aliases s" and "delete_for_runs versions meta py_str rs s = Inr s'"
  defines "rem \<equiv> run_removed versions meta s (run_candidates py_str meta (map id_str rs) s)"
  shows "keeps_data versions t ns (\<lambda>i. (t, ns, i) \<notin> set rem) s s'"
proof -
  note at = delete_for_runs_cps_at [OF assms(1,3), folded rem_def]
  have "map_of (cp_writes s') (t, ns, i) = map_of (cp_writes s) (t, ns, i) \<and>
      (\<forall>b \<in> set (versions (ce_checkpoint e)). map_of (cp_blobs s') (t, ns, b) = map_of (cp_blobs s) (t, ns, b))"
    if i: "(t, ns, i) \<notin> set rem" "map_of (cps_at s t ns) i = Some e" for i e
    using delete_for_runs_cases [OF assms(3), folded rem_def]
  proof
    assume "s' = s \<and> (rs = [] \<or> rem = [])"
    then show ?thesis by simp
  next
    assume s': "cp_storage s' = delete_keys rem (cp_storage s) \<and>
      cp_writes s' = filter (\<lambda>(k, g). norm_key k \<notin> norm_key ` set rem) (cp_writes s) \<and>
      cp_blobs s' = filter (\<lambda>(k, b).
        \<not> (k \<in> set (blob_keys_of versions (filter (\<lambda>(k, e). k \<in> set rem) (all_entries (cp_storage s)))) \<and>
           k \<notin> set (blob_keys_of versions (all_entries (delete_keys rem (cp_storage s)))))) (cp_blobs s)"
    have key: "(t, ns, i) \<in> fst ` set (all_entries (cp_storage s))"
      using cps_at_entry [OF i(2)] by force
    have "norm_key (t, ns, i) \<notin> norm_key ` set rem"
      using inj_on_image_mem_iff [OF assms(2) [unfolded no_aliases_def] key removed_subset] i(1)
      by (simp add: rem_def)
    moreover have "((t, ns, i), e) \<in> set (all_entries (cp_storage s'))"
      by (rule cps_at_entry) (use i in \<open>simp add: at map_of_filter_key\<close>)
    then have "(t, ns, b) \<in> set (blob_keys_of versions (all_entries (delete_keys rem (cp_storage s))))"
      if "b \<in> set (versions (ce_checkpoint e))" for b
      using s' that by (force simp: blob_keys_of_def)
    ultimately show ?thesis
      using s' by (simp add: map_of_filter_key)
  qed
  then show ?thesis
    using at by (simp add: keeps_data_def)
qed

section \<open>Properties\<close>

text \<open>C7: Pruning with \<open>keep_latest\<close>, over any list of threads, keeps the newest checkpoint of
  every namespace of every thread, and for every channel the entries, pending writes and blobs its
  value at that checkpoint is rebuilt from: for a delta channel, the ancestors up to the nearest
  materialized snapshot.\<close>

theorem prune_keeps_heads:
  assumes "saver_wf s" and "saver_prune versions meta base rs ''keep_latest'' s = Inr s'"
    and "cps_at s (IdStr x) ns \<noteq> []"
  shows "latest_of (cps_at s' (IdStr x) ns) = latest_of (cps_at s (IdStr x) ns) \<and>
    get_entry s' (IdStr x) ns (fst (latest_of (cps_at s (IdStr x) ns))) = Some (snd (latest_of (cps_at s (IdStr x) ns))) \<and>
    rebuild_inputs versions meta s' (IdStr x) ns (fst (latest_of (cps_at s (IdStr x) ns))) ch =
    rebuild_inputs versions meta s (IdStr x) ns (fst (latest_of (cps_at s (IdStr x) ns))) ch"
proof -
  have s': "s' = fold (prune_thread versions meta) rs s"
    using assms(2) by (simp add: saver_prune_def)
  have wf: "saver_wf s'" and st: "heads_stable versions meta s s'"
    using fold_prune [OF assms(1)] by (simp_all add: s')
  then show ?thesis
    using assms(3) latest_of_entry [OF _ wf_cps_at [OF wf], of "IdStr x" ns]
    by (auto simp: heads_stable_def get_entry_at)
qed

text \<open>C8: Pruning a thread removes every other checkpoint: what remains in a namespace is the newest
  checkpoint and the checkpoints some unmaterialized delta channel of it needs, with their entries
  unchanged; and every write group and blob that remains of the thread belongs to a checkpoint that
  remains.\<close>

theorem prune_exact:
  assumes "saver_wf s" and "map_of (cp_storage s) (IdStr x) = Some nss" and "nss \<noteq> []"
    and "saver_prune versions meta base [IdStr x] ''keep_latest'' s = Inr s'"
  shows "get_entry s' (IdStr x) ns i =
      (if i = fst (latest_of (cps_at s (IdStr x) ns)) \<or>
          (\<exists>ch \<in> set (needed_channels versions meta (cp_blobs s) (IdStr x) ns (snd (latest_of (cps_at s (IdStr x) ns)))).
             needs (cps_at s (IdStr x) ns) ce_parent (holds versions (cp_blobs s) (IdStr x) ns)
               (ce_parent (snd (latest_of (cps_at s (IdStr x) ns)))) ch i)
       then get_entry s (IdStr x) ns i else None) \<and>
    (\<forall>t ns i g. ((t, ns, i), g) \<in> set (cp_writes s') \<and> id_str t = x \<longrightarrow>
       (\<exists>j e. id_str j = id_str i \<and> get_entry s' (IdStr x) ns j = Some e)) \<and>
    (\<forall>t ns b v. ((t, ns, b), v) \<in> set (cp_blobs s') \<and> id_str t = x \<longrightarrow>
       (\<exists>i e. get_entry s' (IdStr x) ns i = Some e \<and> b \<in> set (versions (ce_checkpoint e))))"
proof -
  let ?t = "IdStr x"
  have x: "id_str (IdStr x) = x" by (simp add: id_str_def)
  have s': "s' = prune_thread versions meta (IdStr x) s"
    using assms(4) by (simp add: saver_prune_def)
  have at: "get_entry s' ?t ns i = (if kept_by versions meta s ?t ns i then get_entry s ?t ns i else None)" for ns i
    using prune_cps_at [OF assms(1), of versions meta ?t ?t ns]
    by (simp add: s' get_entry_at x map_of_filter_key)
  note some = prune_some [of s "IdStr x", unfolded x, OF assms(2,3), of versions meta, folded s']
  have w: "\<exists>j e. id_str j = id_str i \<and> get_entry s' ?t ns j = Some e"
    if w: "((t, ns, i), g) \<in> set (cp_writes s')" "id_str t = x" for t ns i g
  proof -
    obtain j where j: "cps_at s ?t ns \<noteq> []" "kept_by versions meta s ?t ns j" "id_str j = id_str i"
      using w by (auto simp: some drop_write_def kept_write_keys_iff [OF assms(1,2)] x)
    moreover obtain e where "get_entry s ?t ns j = Some e"
      using kept_stored [OF assms(1) j(1,2)] by (auto simp: get_entry_at)
    ultimately have "get_entry s' ?t ns j = Some e"
      by (simp add: at)
    with j(3) show ?thesis by blast
  qed
  have b: "\<exists>i e. get_entry s' ?t ns i = Some e \<and> b \<in> set (versions (ce_checkpoint e))"
    if b: "((t, ns, b), v) \<in> set (cp_blobs s')" "id_str t = x" for t ns b v
  proof -
    obtain i e where e: "(i, e) \<in> set (cps_at s ?t ns)" "kept_by versions meta s ?t ns i"
        "b \<in> set (versions (ce_checkpoint e))"
      using b kept_blob_keys_iff [OF assms(1,2), of t ns b versions meta] by (auto simp: some drop_blob_def)
    then have "get_entry s ?t ns i = Some e"
      using wf_cps_at [OF assms(1)] by (simp add: get_entry_at)
    with e show ?thesis
      using at by auto
  qed
  from at w b show ?thesis
    unfolding kept_by_iff by blast
qed

text \<open>Pruning leaves the threads it is not given untouched: their checkpoints, writes and
  blobs are the same.\<close>

theorem prune_leaves_other_threads:
  assumes "saver_prune versions meta base rs ''keep_latest'' s = Inr s'" and "id_str t \<notin> id_str ` set rs"
  shows "map_of (cp_storage s') t = map_of (cp_storage s) t \<and>
    map_of (cp_writes s') (t, k) = map_of (cp_writes s) (t, k) \<and>
    map_of (cp_blobs s') (t, j) = map_of (cp_blobs s) (t, j)"
  using assms(1) fold_prune_other(1) [OF assms(2), of versions meta s] fold_prune_other(2) [OF assms(2), of versions meta s k]
    fold_prune_other(3) [OF assms(2), of versions meta s j]
  by (simp add: saver_prune_def)

text \<open>C9: Deleting the checkpoints of a set of runs removes exactly the checkpoints those runs own
  that no checkpoint of another run needs to rebuild a delta channel, and keeps every other entry
  as it is.\<close>

theorem delete_for_runs_exact:
  assumes "saver_wf s" and "delete_for_runs versions meta py_str rs s = Inr s'"
  shows "get_entry s' t ns i =
    (if (\<exists>e. get_entry s t ns i = Some e \<and> owned_by py_str meta (map id_str rs) e) \<and>
        \<not> (\<exists>j f ch. get_entry s t ns j = Some f \<and> \<not> owned_by py_str meta (map id_str rs) f \<and>
             ch \<in> set (needed_channels versions meta (cp_blobs s) t ns f) \<and>
             needs (cps_at s t ns) ce_parent (holds versions (cp_blobs s) t ns) (ce_parent f) ch i)
     then None else get_entry s t ns i)"
  unfolding removed_iff [OF assms(1), symmetric]
  by (simp add: get_entry_at delete_for_runs_cps_at [OF assms] map_of_filter_key)

text \<open>C10: Deleting the checkpoints of a set of runs keeps, for every checkpoint they do not own,
  the entries, pending writes and blobs every channel of it is rebuilt from.\<close>

theorem delete_for_runs_keeps_survivors:
  assumes "saver_wf s" and "no_aliases s" and "delete_for_runs versions meta py_str rs s = Inr s'"
    and "get_entry s t ns i = Some e" and "\<not> owned_by py_str meta (map id_str rs) e"
  shows "get_entry s' t ns i = Some e \<and>
    rebuild_inputs versions meta s' t ns i ch = rebuild_inputs versions meta s t ns i ch"
proof -
  let ?c = "run_candidates py_str meta (map id_str rs) s"
  have c: "(t, ns, i) \<notin> set ?c"
    using assms(4,5) by (simp add: candidates_iff [OF assms(1)])
  have e: "map_of (cps_at s t ns) i = Some e"
    using assms(4) by (simp add: get_entry_at)
  note data = runs_keeps_data [OF assms(1-3), of t ns]
  show ?thesis
    using keeps_data_views(1) [OF data _ e] runs_policy.keeps_must [OF c]
      runs_policy.rebuild_same [OF data c e] by blast
qed

section \<open>Witnesses\<close>

text \<open>
  A thread with five checkpoints of one delta channel: a superseded one, a materialized snapshot,
  two checkpoints with empty blobs on top of it, and an old branch. The version of the channel is
  the payload, and the run that wrote a checkpoint is the payload of its metadata.
\<close>

definition demo_versions :: "typed \<Rightarrow> (string \<times> version) list" where
  "demo_versions b = [(''x'', VStr (snd b))]"

definition demo_meta :: "typed \<Rightarrow> pyval" where
  "demo_meta b =
     PDict [(''counters_since_delta_snapshot'', PDict [(''x'', PInt 1)]), (''run_id'', PStr (snd b))]"

definition demo_entry :: "string \<Rightarrow> string \<Rightarrow> string option \<Rightarrow> id_arg \<times> cp_entry" where
  "demo_entry i run p = (IdStr i, Entry (''json'', i) (''json'', run) (map_option IdStr p))"

definition demo_saver :: saver where
  "demo_saver =
     \<lparr>cp_storage = [(IdStr ''t'', [([], [demo_entry ''0'' ''r0'' None, demo_entry ''1'' ''r1'' (Some ''0''),
        demo_entry ''2'' ''r1'' (Some ''1''), demo_entry ''3'' ''r2'' (Some ''2''),
        demo_entry ''1b'' ''r1'' (Some ''0'')])])],
      cp_writes = [((IdStr ''t'', [], IdStr ''2''), [((''task'', 0), (''task'', ''x'', (''json'', ''d''), []))]),
                   ((IdStr ''t'', [], IdStr ''0''), [((''task'', 0), (''task'', ''x'', (''json'', ''d''), []))])],
      cp_blobs = [((IdStr ''t'', [], ''x'', VStr ''1''), (''json'', ''snapshot'')),
                  ((IdStr ''t'', [], ''x'', VStr ''2''), (''empty'', [])),
                  ((IdStr ''t'', [], ''x'', VStr ''0''), (''json'', ''old''))],
      cp_size = new_size_state\<rparr>"

lemma demo_saver_wf: "saver_wf demo_saver"
  by (auto simp: saver_wf_def namespaces_wf_def demo_saver_def demo_entry_def)

lemma demo_at:
  "cps_at demo_saver (IdStr ''t'') [] \<noteq> []"
  "latest_of (cps_at demo_saver (IdStr ''t'') []) = demo_entry ''3'' ''r2'' (Some ''2'')"
  by code_simp+

theorem prune_keeps_heads_witness:
  "rebuild_inputs demo_versions demo_meta (prune_thread demo_versions demo_meta (IdStr ''t'') demo_saver)
     (IdStr ''t'') [] (IdStr ''3'') ''x'' =
   rebuild_inputs demo_versions demo_meta demo_saver (IdStr ''t'') [] (IdStr ''3'') ''x'' \<and>
   map fst (rebuild_inputs demo_versions demo_meta demo_saver (IdStr ''t'') [] (IdStr ''3'') ''x'') =
     [IdStr ''3'', IdStr ''2'', IdStr ''1'']"
proof -
  have p: "map fst (rebuild_inputs demo_versions demo_meta demo_saver (IdStr ''t'') [] (IdStr ''3'') ''x'') =
     [IdStr ''3'', IdStr ''2'', IdStr ''1'']"
    by code_simp
  have f: "fst (demo_entry ''3'' ''r2'' (Some ''2'')) = IdStr ''3''"
    by (simp add: demo_entry_def)
  have "saver_prune demo_versions demo_meta (\<lambda>_. id) [IdStr ''t''] ''keep_latest'' demo_saver =
      Inr (prune_thread demo_versions demo_meta (IdStr ''t'') demo_saver)"
    by (simp add: saver_prune_def)
  from prune_keeps_heads [OF demo_saver_wf this demo_at(1), of "''x''"] p show ?thesis
    by (simp add: demo_at(2) f)
qed

theorem prune_exact_witness:
  "get_entry (prune_thread demo_versions demo_meta (IdStr ''t'') demo_saver) (IdStr ''t'') [] (IdStr ''3'') =
     get_entry demo_saver (IdStr ''t'') [] (IdStr ''3'') \<and>
   map fst (cps_at (prune_thread demo_versions demo_meta (IdStr ''t'') demo_saver) (IdStr ''t'') []) =
     [IdStr ''1'', IdStr ''2'', IdStr ''3'']"
proof -
  have "map_of (cp_storage demo_saver) (IdStr ''t'') \<noteq> None"
    "the (map_of (cp_storage demo_saver) (IdStr ''t'')) \<noteq> []"
    by code_simp+
  then obtain nss where nss: "map_of (cp_storage demo_saver) (IdStr ''t'') = Some nss" "nss \<noteq> []" by auto
  have f: "fst (demo_entry ''3'' ''r2'' (Some ''2'')) = IdStr ''3''"
    by (simp add: demo_entry_def)
  have "map fst (cps_at (prune_thread demo_versions demo_meta (IdStr ''t'') demo_saver) (IdStr ''t'') []) =
     [IdStr ''1'', IdStr ''2'', IdStr ''3'']"
    by code_simp
  moreover have "saver_prune demo_versions demo_meta (\<lambda>_. id) [IdStr ''t''] ''keep_latest'' demo_saver =
      Inr (prune_thread demo_versions demo_meta (IdStr ''t'') demo_saver)"
    by (simp add: saver_prune_def)
  ultimately show ?thesis
    using prune_exact [OF demo_saver_wf nss, of demo_versions demo_meta "\<lambda>_. id" _ "[]" "IdStr ''3''"]
    by (simp add: demo_at(2) f)
qed

theorem prune_leaves_other_threads_witness:
  "map_of (cp_storage (prune_thread demo_versions demo_meta (IdStr ''u'') demo_saver)) (IdStr ''t'') =
     map_of (cp_storage demo_saver) (IdStr ''t'')"
  using prune_leaves_other_threads [of demo_versions demo_meta "\<lambda>_. id" "[IdStr ''u'']" demo_saver _ "IdStr ''t''"]
  by (simp add: saver_prune_def id_str_def)

definition demo_str :: "pyval \<Rightarrow> string" where
  "demo_str v = (case v of PStr s \<Rightarrow> s | _ \<Rightarrow> [])"

definition demo_after_runs :: saver where
  "demo_after_runs = projr (delete_for_runs demo_versions demo_meta demo_str [IdStr ''r1''] demo_saver)"

lemma demo_after: "delete_for_runs demo_versions demo_meta demo_str [IdStr ''r1''] demo_saver = Inr demo_after_runs"
proof -
  have "isl (delete_for_runs demo_versions demo_meta demo_str [IdStr ''r1''] demo_saver) = False"
    by code_simp
  then show ?thesis
    by (simp add: demo_after_runs_def)
qed

lemma demo_survivor:
  "\<not> owned_by demo_str demo_meta (map id_str [IdStr ''r1'']) (snd (demo_entry ''3'' ''r2'' (Some ''2'')))"
  "get_entry demo_saver (IdStr ''t'') [] (IdStr ''3'') = Some (snd (demo_entry ''3'' ''r2'' (Some ''2'')))"
  by code_simp+

theorem delete_for_runs_exact_witness:
  "get_entry demo_after_runs (IdStr ''t'') [] (IdStr ''1b'') = None \<and>
   get_entry demo_saver (IdStr ''t'') [] (IdStr ''1b'') \<noteq> None \<and>
   get_entry demo_after_runs (IdStr ''t'') [] (IdStr ''3'') = get_entry demo_saver (IdStr ''t'') [] (IdStr ''3'')"
proof -
  have "get_entry demo_after_runs (IdStr ''t'') [] (IdStr ''1b'') = None"
    "get_entry demo_saver (IdStr ''t'') [] (IdStr ''1b'') \<noteq> None"
    by code_simp+
  then show ?thesis
    using delete_for_runs_exact [OF demo_saver_wf demo_after, of "IdStr ''t''" "[]" "IdStr ''3''"]
      demo_survivor by simp
qed

theorem delete_for_runs_keeps_survivors_witness:
  "rebuild_inputs demo_versions demo_meta demo_after_runs (IdStr ''t'') [] (IdStr ''3'') ''x'' =
   rebuild_inputs demo_versions demo_meta demo_saver (IdStr ''t'') [] (IdStr ''3'') ''x''"
proof -
  have "no_aliases demo_saver"
    by (auto simp: no_aliases_def all_entries_def demo_saver_def demo_entry_def norm_key_def id_str_def)
  from delete_for_runs_keeps_survivors [OF demo_saver_wf this demo_after demo_survivor(2,1)]
  show ?thesis by blast
qed

end
