(* ===== verification/Checkpoint_Sizes.thy ===== *)
theory Checkpoint_Sizes
  imports Checkpoint_Safety
begin

text \<open>
  The byte accounting of the checkpoint saver is exact: along every sequence of its operations the
  incrementally kept aggregates are the sums a full rebuild would compute.
\<close>

section \<open>The aggregate as a ledger\<close>

definition size_ok :: "size_state \<Rightarrow> bool" where
  "size_ok z \<longleftrightarrow> distinct (map fst (by_thread z)) \<and> (\<forall>p \<in> snd ` set (by_thread z). 0 \<le> fst p \<and> 0 \<le> snd p) \<and>
     total_bytes z = sum_list (map (fst \<circ> snd) (by_thread z)) \<and>
     total_checkpoints z = sum_list (map (snd \<circ> snd) (by_thread z))"

lemma sum_list_upd:
  fixes f :: "'k \<times> 'v \<Rightarrow> int"
  shows "distinct (map fst d) \<Longrightarrow> sum_list (map f (AList.update k v d)) =
     sum_list (map f d) - (case map_of d k of None \<Rightarrow> 0 | Some w \<Rightarrow> f (k, w)) + f (k, v)"
  by (induction d) (auto split: option.splits dest: map_of_SomeD)

lemma sum_list_del:
  fixes f :: "'k \<times> 'v \<Rightarrow> int"
  shows "distinct (map fst d) \<Longrightarrow> sum_list (map f (AList.delete k d)) =
     sum_list (map f d) - (case map_of d k of None \<Rightarrow> 0 | Some w \<Rightarrow> f (k, w))"
proof (induction d)
  case (Cons p d)
  have "fst p \<notin> dom (map_of d)"
    using Cons.prems by (simp add: dom_map_of_conv_image_fst)
  with Cons show ?case
    by (cases p) (auto simp: AList.delete_eq filter_id_conv split: option.splits intro!: arg_cong [of _ _ "\<lambda>xs. sum_list (map f xs)"])
qed simp

lemma size_ok_new: "size_ok new_size_state"
  by (simp add: size_ok_def new_size_state_def)

lemma thread_sizes_new [simp]: "thread_sizes new_size_state x = (0, 0)"
  by (simp add: thread_sizes_def new_size_state_def dict_get_def)

lemma thread_sizes_nonneg: "size_ok z \<Longrightarrow> 0 \<le> fst (thread_sizes z x) \<and> 0 \<le> snd (thread_sizes z x)"
  by (force simp: size_ok_def thread_sizes_def dict_get_def split: option.splits dest!: map_of_SomeD)

lemma thread_sizes_set: "thread_sizes (set_pair t p z) x = (if x = t then p else thread_sizes z x)"
  by (auto simp: set_pair_def thread_sizes_def dict_simps split: prod.splits)

lemma size_ok_set:
  assumes "size_ok z" and "0 \<le> fst p" and "0 \<le> snd p"
  shows "size_ok (set_pair t p z)"
proof -
  obtain o1 o2 n1 n2 where o: "thread_sizes z t = (o1, o2)" and p: "p = (n1, n2)" by fastforce
  have d: "distinct (map fst (by_thread z))"
    using assms(1) by (simp add: size_ok_def)
  have old: "(case map_of (by_thread z) t of None \<Rightarrow> 0 | Some w \<Rightarrow> (fst \<circ> snd) (t, w)) = o1"
    "(case map_of (by_thread z) t of None \<Rightarrow> 0 | Some w \<Rightarrow> (snd \<circ> snd) (t, w)) = o2"
    using o by (auto simp: thread_sizes_def dict_get_def split: option.splits)
  let ?b = "if n1 \<noteq> 0 \<or> n2 \<noteq> 0 then AList.update t (n1, n2) (by_thread z) else AList.delete t (by_thread z)"
  have "sum_list (map (fst \<circ> snd) ?b) = sum_list (map (fst \<circ> snd) (by_thread z)) + (n1 - o1)"
    "sum_list (map (snd \<circ> snd) ?b) = sum_list (map (snd \<circ> snd) (by_thread z)) + (n2 - o2)"
    using sum_list_upd [OF d, of "fst \<circ> snd" t "(n1, n2)"] sum_list_upd [OF d, of "snd \<circ> snd" t "(n1, n2)"]
      sum_list_del [OF d, of "fst \<circ> snd" t] sum_list_del [OF d, of "snd \<circ> snd" t]
    unfolding old by simp_all
  moreover have "\<forall>p \<in> snd ` set ?b. 0 \<le> fst p \<and> 0 \<le> snd p"
    using assms p set_update_subset [of t "(n1, n2)" "by_thread z"]
    by (auto simp: size_ok_def AList.delete_eq)
  moreover have "distinct (map fst ?b)"
    using d by (simp add: distinct_update distinct_delete)
  ultimately show ?thesis
    using assms(1) o p by (simp add: size_ok_def set_pair_def)
qed

lemma thread_sizes_adjust:
  "thread_sizes (adjust t d c z) x =
     (if x = t then (max 0 (fst (thread_sizes z t) + d), max 0 (snd (thread_sizes z t) + c)) else thread_sizes z x)"
  by (simp add: adjust_def thread_sizes_set split: prod.splits)

lemma size_ok_adjust: "size_ok z \<Longrightarrow> size_ok (adjust t d c z)"
  by (simp add: adjust_def size_ok_set split: prod.splits)

lemma remove_thread_set: "snd (remove_thread t z) = set_pair t (0, 0) z"
  by (simp add: remove_thread_def set_pair_def split: prod.splits)

lemma size_bytes_sum:
  assumes "size_ok z"
  shows "total_bytes z = (\<Sum>x | fst (thread_sizes z x) \<noteq> 0. fst (thread_sizes z x))"
proof -
  let ?d = "map (\<lambda>(k, p). (k, fst p)) (by_thread z)"
  have d: "distinct (map fst ?d)"
    using assms by (intro distinct_fst_map) (simp add: size_ok_def)
  have "dict_get ?d x 0 = fst (thread_sizes z x)" for x
    by (auto simp: dict_get_def thread_sizes_def map_of_map_val split: option.split)
  then show ?thesis
    using sum_nonzero [OF d] assms by (simp add: size_ok_def split_beta comp_def)
qed

interpretation thread_ledger: size_ledger "\<lambda>z t. thread_bytes t z" total_bytes size_ok
  "\<lambda>z t n. adjust t (n - thread_bytes t z) 0 z"
proof unfold_locales
  fix z :: size_state and t x :: string and n :: int
  assume ok: "size_ok z"
  show "finite {t. thread_bytes t z \<noteq> 0}"
    by (rule finite_subset [of _ "fst ` set (by_thread z)"])
      (auto simp: thread_bytes_def thread_sizes_def dict_get_def split: option.splits dest!: map_of_SomeD intro: rev_image_eqI)
  show "0 \<le> thread_bytes t z"
    using thread_sizes_nonneg [OF ok] by (simp add: thread_bytes_def)
  show "total_bytes z = (\<Sum>t | thread_bytes t z \<noteq> 0. thread_bytes t z)"
    using size_bytes_sum [OF ok] by (simp add: thread_bytes_def)
  show "size_ok (adjust t (n - thread_bytes t z) 0 z)"
    by (rule size_ok_adjust [OF ok])
  show "thread_bytes x (adjust t (n - thread_bytes t z) 0 z) = (if x = t then n else thread_bytes x z)"
    if "0 \<le> n"
    using that by (simp add: thread_bytes_def thread_sizes_adjust)
qed

section \<open>The sums\<close>

definition cps_sum :: "(id_arg \<Rightarrow> cp_entry \<Rightarrow> int) \<Rightarrow> checkpoints \<Rightarrow> int" where
  "cps_sum w cps = sum_list (map (\<lambda>(i, e). w i e) cps)"

definition nss_sum :: "(id_arg \<Rightarrow> cp_entry \<Rightarrow> int) \<Rightarrow> namespaces \<Rightarrow> int" where
  "nss_sum w nss = sum_list (map (\<lambda>(ns, cps). cps_sum w cps) nss)"

definition storage_sum :: "(id_arg \<Rightarrow> cp_entry \<Rightarrow> int) \<Rightarrow> string \<Rightarrow> (id_arg \<times> namespaces) list \<Rightarrow> int" where
  "storage_sum w x st = sum_list (map (\<lambda>(t, nss). if id_str t = x then nss_sum w nss else 0) st)"

definition keyed_sum :: "(id_arg \<times> 'k \<Rightarrow> 'v \<Rightarrow> int) \<Rightarrow> string \<Rightarrow> ((id_arg \<times> 'k) \<times> 'v) list \<Rightarrow> int" where
  "keyed_sum f x d = sum_list (map (\<lambda>(k, v). if id_str (fst k) = x then f k v else 0) d)"

definition group_bytes :: "wkey \<Rightarrow> wgroup \<Rightarrow> int" where
  "group_bytes k g = write_group_size (snd (snd k)) g"

definition blob_bytes :: "bkey \<Rightarrow> typed \<Rightarrow> int" where
  "blob_bytes k b = blob_entry_size (fst (snd (snd k))) (snd (snd (snd k))) b"

definition held_bytes :: "saver \<Rightarrow> string \<Rightarrow> int" where
  "held_bytes s x = storage_sum checkpoint_entry_size x (cp_storage s)
     + keyed_sum group_bytes x (cp_writes s) + keyed_sum blob_bytes x (cp_blobs s)"

definition held_checkpoints :: "saver \<Rightarrow> string \<Rightarrow> int" where
  "held_checkpoints s x = storage_sum (\<lambda>_ _. 1) x (cp_storage s)"

definition sizes_exact :: "saver \<Rightarrow> bool" where
  "sizes_exact s \<longleftrightarrow> size_ok (cp_size s) \<and>
     (\<forall>x. thread_sizes (cp_size s) x = (held_bytes s x, held_checkpoints s x))"

lemma component_size_nonneg [simp]: "0 \<le> component_size c"
  by (cases c) (simp_all add: component_size_def)

lemma typed_payload_size_nonneg [simp]: "0 \<le> typed_payload_size v"
  by (simp add: typed_payload_size_def)

lemma checkpoint_entry_size_nonneg [simp]: "0 \<le> checkpoint_entry_size i e"
  by (cases e) (simp add: checkpoint_entry_size_def)

lemma write_group_size_nonneg [simp]: "0 \<le> write_group_size i g"
  by (auto simp: write_group_size_def write_size_def split: prod.splits intro!: add_nonneg_nonneg sum_list_nonneg)

lemma blob_entry_size_nonneg [simp]: "0 \<le> blob_entry_size c v b"
  by (simp add: blob_entry_size_def)

lemma storage_sum_nonneg: "(\<And>i e. 0 \<le> w i e) \<Longrightarrow> 0 \<le> storage_sum w x st"
  by (auto simp: storage_sum_def nss_sum_def cps_sum_def intro!: sum_list_nonneg)

lemma keyed_sum_nonneg: "(\<And>k v. 0 \<le> f k v) \<Longrightarrow> 0 \<le> keyed_sum f x d"
  by (auto simp: keyed_sum_def intro!: sum_list_nonneg)

lemma held_nonneg: "0 \<le> held_bytes s x" "0 \<le> held_checkpoints s x"
  by (simp_all add: held_bytes_def held_checkpoints_def group_bytes_def blob_bytes_def storage_sum_nonneg
      keyed_sum_nonneg)

text \<open>An adjustment that follows a change of what is held keeps the accounting exact.\<close>

lemma exact_adjust:
  assumes "sizes_exact s"
    and "\<And>x. held_bytes s' x = held_bytes s x + (if x = t then d else 0)"
    and "\<And>x. held_checkpoints s' x = held_checkpoints s x + (if x = t then c else 0)"
    and "cp_size s' = adjust t d c (cp_size s)"
  shows "sizes_exact s'"
  unfolding sizes_exact_def
proof (intro conjI allI)
  show "size_ok (cp_size s')"
    using assms(1,4) by (simp add: sizes_exact_def size_ok_adjust)
  show "thread_sizes (cp_size s') x = (held_bytes s' x, held_checkpoints s' x)" for x
    using assms(1) held_nonneg [of s' x] unfolding assms(4) thread_sizes_adjust
    by (auto simp: sizes_exact_def assms(2,3))
qed

section \<open>Rebuilding\<close>

lemma adjust_adds:
  assumes "size_ok z" and "0 \<le> d" and "0 \<le> c"
  shows "thread_sizes (adjust t d c z) x =
     (fst (thread_sizes z x) + (if t = x then d else 0), snd (thread_sizes z x) + (if t = x then c else 0))"
  using thread_sizes_nonneg [OF assms(1)] assms(2,3) by (auto simp: thread_sizes_adjust)

lemma fold_adjust:
  assumes "size_ok z" and "\<And>a. a \<in> set xs \<Longrightarrow> 0 \<le> d a \<and> 0 \<le> c a"
  shows "size_ok (fold (\<lambda>a. adjust (t a) (d a) (c a)) xs z) \<and>
    thread_sizes (fold (\<lambda>a. adjust (t a) (d a) (c a)) xs z) x =
      (fst (thread_sizes z x) + sum_list (map (\<lambda>a. if t a = x then d a else 0) xs),
       snd (thread_sizes z x) + sum_list (map (\<lambda>a. if t a = x then c a else 0) xs))"
  using assms
proof (induction xs arbitrary: z)
  case (Cons a xs)
  have a: "0 \<le> d a" "0 \<le> c a"
    using Cons.prems(2) by simp_all
  have "size_ok (adjust (t a) (d a) (c a) z)"
    by (rule size_ok_adjust [OF Cons.prems(1)])
  from Cons.IH [OF this] Cons.prems(2) adjust_adds [OF Cons.prems(1) a, of "t a" x]
  show ?case by simp
qed simp

lemma fold_all_entries:
  "fold (\<lambda>(t, nss). fold (\<lambda>(ns, cps). fold (\<lambda>(i, e). F t i e) cps) nss) st z =
     fold (\<lambda>a. F (fst (fst a)) (snd (snd (fst a))) (snd a)) (all_entries st) z"
proof -
  have 1: "fold (\<lambda>(i, e). F t i e) cps z =
      fold (\<lambda>a. F (fst (fst a)) (snd (snd (fst a))) (snd a)) (map (\<lambda>(i, e). ((t, ns, i), e)) cps) z" for t cps ns z
    by (induction cps arbitrary: z) auto
  have 2: "fold (\<lambda>(ns, cps). fold (\<lambda>(i, e). F t i e) cps) nss z =
      fold (\<lambda>a. F (fst (fst a)) (snd (snd (fst a))) (snd a))
        (concat (map (\<lambda>(ns, cps). map (\<lambda>(i, e). ((t, ns, i), e)) cps) nss)) z" for t nss z
    by (induction nss arbitrary: z) (auto simp: 1 [symmetric])
  show ?thesis
    unfolding all_entries_def by (induction st arbitrary: z) (auto simp: 2)
qed

lemma storage_sum_entries:
  "sum_list (map (\<lambda>a. if id_str (fst (fst a)) = x then w (snd (snd (fst a))) (snd a) else 0) (all_entries st)) =
     storage_sum w x st"
proof -
  let ?f = "\<lambda>a. if id_str (fst (fst a)) = x then w (snd (snd (fst a))) (snd a) else (0 :: int)"
  have 1: "sum_list (map ?f (map (\<lambda>(i, e). ((t, ns, i), e)) cps)) = (if id_str t = x then cps_sum w cps else 0)"
    for t ns cps by (induction cps) (simp_all add: cps_sum_def split_beta)
  have 2: "sum_list (map ?f (concat (map (\<lambda>(ns, cps). map (\<lambda>(i, e). ((t, ns, i), e)) cps) nss))) =
      (if id_str t = x then nss_sum w nss else 0)" for t nss
    by (induction nss) (simp_all add: nss_sum_def split_beta 1 [unfolded split_beta] del: map_map)
  show ?thesis
    unfolding all_entries_def
    by (induction st) (simp_all add: storage_sum_def split_beta 2 [unfolded split_beta] del: map_map)
qed

lemma rebuild_exact: "sizes_exact (rebuild_size_tracking s)"
proof -
  let ?es = "all_entries (cp_storage s)"
  define z1 where "z1 = fold (\<lambda>a. adjust (id_str (fst (fst a))) (checkpoint_entry_size (snd (snd (fst a))) (snd a)) 1) ?es new_size_state"
  define z2 where "z2 = fold (\<lambda>a. adjust (id_str (fst (fst a))) (group_bytes (fst a) (snd a)) 0) (cp_writes s) z1"
  define z3 where "z3 = fold (\<lambda>a. adjust (id_str (fst (fst a))) (blob_bytes (fst a) (snd a)) 0) (cp_blobs s) z2"
  have r: "rebuild_size_tracking s = s\<lparr>cp_size := z3\<rparr>"
    unfolding rebuild_size_tracking_def Let_def
      fold_all_entries [of "\<lambda>t i e. adjust (id_str t) (checkpoint_entry_size i e) 1"]
    by (simp add: z1_def z2_def z3_def case_prod_unfold group_bytes_def blob_bytes_def)
  have 1: "size_ok z1 \<and> thread_sizes z1 x =
      (storage_sum checkpoint_entry_size x (cp_storage s), storage_sum (\<lambda>_ _. 1) x (cp_storage s))" for x
    unfolding z1_def
    using fold_adjust [OF size_ok_new, of ?es "\<lambda>a. checkpoint_entry_size (snd (snd (fst a))) (snd a)" "\<lambda>_. 1"
        "\<lambda>a. id_str (fst (fst a))" x]
    by (simp add: storage_sum_entries storage_sum_entries [of x "\<lambda>_ _. 1"])
  have 2: "size_ok z2 \<and> thread_sizes z2 x =
      (fst (thread_sizes z1 x) + keyed_sum group_bytes x (cp_writes s), snd (thread_sizes z1 x))" for x
    unfolding z2_def
    using fold_adjust [of z1 "cp_writes s" "\<lambda>a. group_bytes (fst a) (snd a)" "\<lambda>_. 0" "\<lambda>a. id_str (fst (fst a))" x] 1
    by (simp add: keyed_sum_def case_prod_unfold group_bytes_def)
  have 3: "size_ok z3 \<and> thread_sizes z3 x =
      (fst (thread_sizes z2 x) + keyed_sum blob_bytes x (cp_blobs s), snd (thread_sizes z2 x))" for x
    unfolding z3_def
    using fold_adjust [of z2 "cp_blobs s" "\<lambda>a. blob_bytes (fst a) (snd a)" "\<lambda>_. 0" "\<lambda>a. id_str (fst (fst a))" x] 2
    by (simp add: keyed_sum_def case_prod_unfold blob_bytes_def)
  show ?thesis
    using 1 2 3 by (simp add: r sizes_exact_def held_bytes_def held_checkpoints_def)
qed

section \<open>Pruning\<close>

lemma sum_list_split:
  fixes f :: "'a \<Rightarrow> int"
  shows "sum_list (map f (filter P xs)) + sum_list (map f (filter (\<lambda>x. \<not> P x) xs)) = sum_list (map f xs)"
  by (induction xs) auto

lemma keyed_sum_filter:
  assumes "\<And>k. P k \<Longrightarrow> id_str (fst k) = t"
  shows "keyed_sum f x (filter (\<lambda>(k, v). \<not> P k) d) =
     keyed_sum f x d - (if x = t then sum_list (map (\<lambda>(k, v). f k v) (filter (\<lambda>(k, v). P k) d)) else 0)"
  using assms by (induction d) (auto simp: keyed_sum_def)

lemma nss_sum_live: "nss_sum w (live_namespaces nss) = nss_sum w nss"
  by (induction nss) (auto simp: nss_sum_def live_namespaces_def cps_sum_def)

lemma nss_sum_keep:
  "nss_sum w (map (\<lambda>(ns, cps). (ns, keep_entries versions meta blobs t ns cps)) live) =
     nss_sum w live - cps_sum w (removed_entries versions meta blobs t live)"
proof (induction live)
  case (Cons a live)
  have "cps_sum w (filter P cps) + cps_sum w (filter (\<lambda>x. \<not> P x) cps) = cps_sum w cps" for P cps
    unfolding cps_sum_def by (rule sum_list_split)
  from this [of "\<lambda>(i, e). i \<in> set (keep_ids versions meta blobs t (fst a) (snd a))" "snd a"] Cons show ?case
    by (simp add: nss_sum_def removed_entries_def keep_entries_def case_prod_unfold cps_sum_def)
qed (simp add: nss_sum_def removed_entries_def cps_sum_def)

lemma storage_sum_update:
  assumes "distinct (map fst st)"
  shows "storage_sum w x (AList.update t nss st) =
     storage_sum w x st + (if id_str t = x then nss_sum w nss - nss_sum w (dict_get st t []) else 0)"
  using sum_list_upd [OF assms, of "\<lambda>(t, nss). if id_str t = x then nss_sum w nss else 0" t nss]
  by (auto simp: storage_sum_def dict_get_def nss_sum_def split: option.splits)

lemma prune_exact_sizes:
  assumes "saver_wf s" and "sizes_exact s"
  shows "sizes_exact (prune_thread versions meta r s)"
proof (cases "map_of (cp_storage s) (IdStr (id_str r)) \<in> {None, Some []}")
  case True
  with assms show ?thesis by (simp add: prune_none)
next
  case False
  then obtain nss where nss: "map_of (cp_storage s) (IdStr (id_str r)) = Some nss" "nss \<noteq> []" by auto
  let ?t = "IdStr (id_str r)" and ?live = "live_namespaces nss" and ?s' = "prune_thread versions meta r s"
  let ?rem = "removed_entries versions meta (cp_blobs s) ?t ?live"
  let ?dw = "drop_write (id_str r) (kept_write_keys versions meta (cp_blobs s) ?t ?live)"
  let ?db = "drop_blob (id_str r) (kept_blob_keys versions meta (cp_blobs s) ?t ?live)"
  let ?W = "sum_list (map (\<lambda>(k, g). group_bytes k g) (filter (\<lambda>(k, g). ?dw k) (cp_writes s)))"
  let ?B = "sum_list (map (\<lambda>(k, b). blob_bytes k b) (filter (\<lambda>(k, b). ?db k) (cp_blobs s)))"
  have t: "id_str ?t = id_str r"
    by (simp add: id_str_def)
  have st: "storage_sum w x (cp_storage ?s') = storage_sum w x (cp_storage s) + (if x = id_str r then - cps_sum w ?rem else 0)"
    for w x
    using assms(1) nss
    by (auto simp: prune_some [OF nss] storage_sum_update saver_wf_def nss_sum_keep nss_sum_live t dict_get_def)
  have w: "keyed_sum group_bytes x (cp_writes ?s') = keyed_sum group_bytes x (cp_writes s) - (if x = id_str r then ?W else 0)" for x
    unfolding prune_some(2) [OF nss] by (rule keyed_sum_filter) (auto simp: drop_write_def split: prod.splits)
  have b: "keyed_sum blob_bytes x (cp_blobs ?s') = keyed_sum blob_bytes x (cp_blobs s) - (if x = id_str r then ?B else 0)" for x
    unfolding prune_some(3) [OF nss] by (rule keyed_sum_filter) (auto simp: drop_blob_def)
  have z: "cp_size ?s' = adjust (id_str r) (- (cps_sum checkpoint_entry_size ?rem + ?W + ?B)) (- cps_sum (\<lambda>_ _. 1) ?rem) (cp_size s)"
    using nss by (simp add: prune_thread_def Let_def cps_sum_def group_bytes_def blob_bytes_def case_prod_unfold sum_list_triv)
  show ?thesis
    by (rule exact_adjust [OF assms(2) _ _ z]) (simp_all add: held_bytes_def held_checkpoints_def st w b)
qed

section \<open>Writing\<close>

definition entry_weight :: "(id_arg \<Rightarrow> cp_entry \<Rightarrow> int) \<Rightarrow> id_arg \<Rightarrow> cp_entry option \<Rightarrow> int" where
  "entry_weight w i e = (case e of None \<Rightarrow> 0 | Some f \<Rightarrow> w i f)"

lemma nss_sum_update:
  assumes "distinct (map fst nss)"
  shows "nss_sum w (AList.update ns cps nss) = nss_sum w nss + cps_sum w cps - cps_sum w (dict_get nss ns [])"
  using sum_list_upd [OF assms, of "\<lambda>(ns, cps). cps_sum w cps" ns cps]
  by (simp add: nss_sum_def dict_get_def cps_sum_def split: option.splits)

lemma cps_sum_update:
  assumes "distinct (map fst cps)"
  shows "cps_sum w (AList.update i e cps) = cps_sum w cps + w i e - entry_weight w i (map_of cps i)"
  using sum_list_upd [OF assms, of "\<lambda>(i, e). w i e" i e]
  by (simp add: cps_sum_def entry_weight_def split: option.splits)

lemma wf_dict_get:
  assumes "saver_wf s"
  shows "distinct (map fst (cp_storage s))" and "namespaces_wf (dict_get (cp_storage s) t [])"
    and "distinct (map fst (dict_get (dict_get (cp_storage s) t []) ns []))"
  using assms wf_cps_at [OF assms, of t ns]
  by (auto simp: saver_wf_def dict_get_def cps_at_def namespaces_wf_def split: option.splits dest: map_of_SomeD)

lemma storage_sum_put:
  assumes "saver_wf s"
  shows "storage_sum w x (storage_put t ns i e (cp_storage s)) =
     storage_sum w x (cp_storage s) + (if id_str t = x then w i e - entry_weight w i (get_entry s t ns i) else 0)"
proof -
  have d: "distinct (map fst (dict_get (cp_storage s) t []))"
    using wf_dict_get(2) [OF assms] by (simp add: namespaces_wf_def)
  show ?thesis
    by (simp add: storage_put_def Let_def storage_sum_update [OF wf_dict_get(1) [OF assms]]
        nss_sum_update [OF d] cps_sum_update [OF wf_dict_get(3) [OF assms]] get_entry_def)
qed

lemma keyed_sum_update:
  assumes "distinct (map fst d)"
  shows "keyed_sum f x (AList.update k v d) = keyed_sum f x d +
     (if id_str (fst k) = x then f k v - (case map_of d k of None \<Rightarrow> 0 | Some w \<Rightarrow> f k w) else 0)"
  using sum_list_upd [OF assms, of "\<lambda>(k, v). if id_str (fst k) = x then f k v else 0" k v]
  by (auto simp: keyed_sum_def split: option.splits)

lemma keyed_sum_merge:
  assumes "distinct (map fst d)" and "distinct (map fst bs)" and "\<And>k v. (k, v) \<in> set bs \<Longrightarrow> fst k = t"
  shows "keyed_sum f x (dict_merge d bs) = keyed_sum f x d +
     (if id_str t = x then sum_list (map (\<lambda>(k, v). f k v - (case map_of d k of None \<Rightarrow> 0 | Some w \<Rightarrow> f k w)) bs) else 0)"
  using assms
proof (induction d bs rule: dict_merge.induct)
  case (2 d k v e)
  have "map_of (AList.update k v d) j = map_of d j" if "(j, u) \<in> set e" for j u
    using "2.prems"(2) that by (force simp: update_conv')
  then have same: "map (\<lambda>(j, u). f j u - (case map_of (AList.update k v d) j of None \<Rightarrow> 0 | Some w \<Rightarrow> f j w)) e =
      map (\<lambda>(j, u). f j u - (case map_of d j of None \<Rightarrow> 0 | Some w \<Rightarrow> f j w)) e"
    by auto
  have "keyed_sum f x (dict_merge (AList.update k v d) e) = keyed_sum f x (AList.update k v d) +
      (if id_str t = x then sum_list (map (\<lambda>(j, u). f j u - (case map_of (AList.update k v d) j of None \<Rightarrow> 0 | Some w \<Rightarrow> f j w)) e) else 0)"
    by (rule "2.IH") (use "2.prems" in \<open>auto simp: distinct_update\<close>)
  moreover have "fst k = t"
    using "2.prems"(3) [of k v] by simp
  ultimately show ?case
    using "2.prems"(1) by (simp add: same keyed_sum_update)
qed simp

lemma storage_put_wf:
  assumes "saver_wf s"
  shows "saver_wf (s\<lparr>cp_storage := storage_put t ns i e (cp_storage s)\<rparr>)"
proof -
  let ?n = "AList.update ns (AList.update i e (dict_get (dict_get (cp_storage s) t []) ns [])) (dict_get (cp_storage s) t [])"
  have "namespaces_wf ?n"
    using wf_dict_get(2,3) [OF assms] set_update_subset
    by (fastforce simp: namespaces_wf_def distinct_update)
  then have "namespaces_wf nss" if "(u, nss) \<in> set (AList.update t ?n (cp_storage s))" for u nss
    using that set_update_subset [of t ?n "cp_storage s"] assms by (auto simp: saver_wf_def)
  then show ?thesis
    using assms by (auto simp: saver_wf_def storage_put_def Let_def distinct_update)
qed

lemma get_entry_put: "get_entry (s\<lparr>cp_storage := storage_put t ns i e (cp_storage s)\<rparr>) t ns i = Some e"
  by (simp add: get_entry_def storage_put_def Let_def dict_simps)

lemma saver_put_exact:
  assumes "saver_wf s" and "sizes_exact s" and "base_put_law base_put cp_id" and "distinct (map fst nv)"
    and "saver_put base_put cp_id conf cmd c md nv s = Inr s'"
  shows "saver_wf s' \<and> sizes_exact s'"
proof -
  obtain t ns where t: "conf_id conf ''thread_id'' = Inr t" and ns: "conf_str conf ''checkpoint_ns'' = Inr ns"
    using assms(5) by (auto simp: saver_put_def Let_def res_bind_def split: sum.splits)
  let ?i = "cp_id c" and ?bs = "\<lambda>val. map (\<lambda>(ch, v). ((t, ns, ch, v), val ch v)) nv"
  obtain e val where b: "base_put conf c (put_metadata conf cmd md) nv s =
      s\<lparr>cp_storage := storage_put t ns ?i e (cp_storage s), cp_blobs := dict_merge (cp_blobs s) (?bs val)\<rparr>"
    using assms(3) t ns unfolding base_put_law_def by blast
  let ?b = "dict_merge (cp_blobs s) (?bs val)" and ?old = "get_entry s t ns ?i"
  have d: "distinct (map fst (cp_blobs s))" and db: "distinct (map fst (?bs val))"
    using assms(1,4) by (auto simp: saver_wf_def distinct_map inj_on_def split_beta)
  have new: "map_of ?b (t, ns, ch, v) = Some (val ch v)" if "(ch, v) \<in> set nv" for ch v
  proof -
    have "map_of (?bs val) (t, ns, ch, v) = Some (val ch v)"
      using db that by (intro map_of_is_SomeI) auto
    then show ?thesis by (simp add: map_of_dict_merge [OF db])
  qed
  define news olds where "news = sum_list (map (\<lambda>(ch, v). blob_entry_size ch v (val ch v)) nv)"
    and "olds = sum_list (map (\<lambda>(ch, v). case map_of (cp_blobs s) (t, ns, ch, v) of None \<Rightarrow> 0 | Some b \<Rightarrow> blob_entry_size ch v b) nv)"
  have news: "sum_list (map (\<lambda>(ch, v). case map_of ?b (t, ns, ch, v) of None \<Rightarrow> 0 | Some b \<Rightarrow> blob_entry_size ch v b) nv) = news"
    unfolding news_def using new by (intro arg_cong [of _ _ sum_list] map_cong) auto
  have g: "get_entry (base_put conf c (put_metadata conf cmd md) nv s) t ns ?i = Some e"
    using get_entry_put [of t ns ?i e s] by (simp add: b get_entry_def)
  have s': "s' = s\<lparr>cp_storage := storage_put t ns ?i e (cp_storage s), cp_blobs := ?b,
      cp_size := adjust (id_str t)
        (checkpoint_entry_size ?i e + news - (entry_weight checkpoint_entry_size ?i ?old + olds))
        (if ?old = None then 1 else 0) (cp_size s)\<rparr>"
    using assms(5) new unfolding saver_put_def Let_def res_bind_def t ns sum.case g option.case
    by (auto simp: b news olds_def entry_weight_def split: if_splits)
  have thread_keys: "fst k = t" if "(k, v) \<in> set (?bs val)" for k v
    using that by auto
  have bl: "keyed_sum blob_bytes x ?b = keyed_sum blob_bytes x (cp_blobs s) + (if id_str t = x then news - olds else 0)" for x
    using keyed_sum_merge [OF d db, of t blob_bytes x] thread_keys
    by (simp add: news_def olds_def sum_list_subtractf blob_bytes_def case_prod_unfold comp_def
        cong: option.case_cong)
  have wf: "saver_wf s'"
    using storage_put_wf [OF assms(1), of t ns ?i e] d by (simp add: saver_wf_def s' distinct_dict_merge)
  have "sizes_exact s'"
  proof (rule exact_adjust [OF assms(2)])
    show "cp_size s' = adjust (id_str t)
        (checkpoint_entry_size ?i e + news - (entry_weight checkpoint_entry_size ?i ?old + olds))
        (if ?old = None then 1 else 0) (cp_size s)"
      by (simp add: s')
    show "held_bytes s' x = held_bytes s x + (if x = id_str t
        then checkpoint_entry_size ?i e + news - (entry_weight checkpoint_entry_size ?i ?old + olds) else 0)" for x
      using bl [of x] by (simp add: s' held_bytes_def storage_sum_put [OF assms(1)])
    show "held_checkpoints s' x = held_checkpoints s x + (if x = id_str t then (if ?old = None then 1 else 0) else 0)" for x
      by (auto simp: s' held_checkpoints_def storage_sum_put [OF assms(1)] entry_weight_def)
  qed
  with wf show ?thesis by simp
qed

lemma saver_put_writes_exact:
  assumes "saver_wf s" and "sizes_exact s" and "base_put_writes_law base_put_writes"
    and "saver_put_writes base_put_writes conf ws task path s = Inr s'"
  shows "saver_wf s' \<and> sizes_exact s'"
proof -
  obtain t ns i where t: "conf_id conf ''thread_id'' = Inr t" and i: "conf_id conf ''checkpoint_id'' = Inr i"
    and ns: "(if has_key conf ''checkpoint_ns'' then conf_str conf ''checkpoint_ns'' else Inr []) = Inr ns"
    using assms(4) by (auto simp: saver_put_writes_def Let_def res_bind_def split: sum.splits)
  let ?k = "(t, ns, i)" and ?b = "base_put_writes conf ws task path s"
  have s': "s' = ?b\<lparr>cp_size := adjust (id_str t) (group_size_at ?b ?k - group_size_at s ?k) 0 (cp_size ?b)\<rparr>"
    using assms(4) ns by (simp add: saver_put_writes_def res_bind_def t i Let_def del: if_split)
  have d: "distinct (map fst (cp_writes s))"
    using assms(1) by (simp add: saver_wf_def)
  have "(\<exists>g. ?b = s\<lparr>cp_writes := AList.update ?k g (cp_writes s)\<rparr>) \<or> ?b = s"
    using assms(3) t ns i unfolding base_put_writes_law_def by blast
  then show ?thesis
  proof
    assume "\<exists>g. ?b = s\<lparr>cp_writes := AList.update ?k g (cp_writes s)\<rparr>"
    then obtain g where b: "?b = s\<lparr>cp_writes := AList.update ?k g (cp_writes s)\<rparr>" ..
    have "sizes_exact s'"
      by (rule exact_adjust [OF assms(2), of s' "id_str t" "group_size_at ?b ?k - group_size_at s ?k" 0])
        (auto simp: s' b held_bytes_def held_checkpoints_def keyed_sum_update [OF d] group_size_at_def
          group_bytes_def dict_simps split: option.split)
    then show ?thesis
      using assms(1) by (simp add: s' b saver_wf_def distinct_update)
  next
    assume b: "?b = s"
    have "sizes_exact s'"
      by (rule exact_adjust [OF assms(2), of s' "id_str t" 0 0])
        (simp_all add: s' b held_bytes_def held_checkpoints_def)
    then show ?thesis
      using assms(1) by (simp add: s' b saver_wf_def)
  qed
qed

section \<open>Deleting threads\<close>

text \<open>The thread ids of the stored data are strings, as the server passes them.\<close>

definition str_threads :: "saver \<Rightarrow> bool" where
  "str_threads s \<longleftrightarrow>
     (\<forall>t \<in> fst ` set (cp_storage s) \<union> fst ` fst ` set (cp_writes s) \<union> fst ` fst ` set (cp_blobs s).
        \<exists>x. t = IdStr x)"

lemma str_threadsI:
  assumes "str_threads s" and "fst ` set (cp_storage s') \<subseteq> insert (IdStr x) (fst ` set (cp_storage s))"
    and "fst ` fst ` set (cp_writes s') \<subseteq> insert (IdStr x) (fst ` fst ` set (cp_writes s))"
    and "fst ` fst ` set (cp_blobs s') \<subseteq> insert (IdStr x) (fst ` fst ` set (cp_blobs s))"
  shows "str_threads s'"
proof -
  have sub: "\<forall>t \<in> A. P t \<Longrightarrow> P z \<Longrightarrow> A' \<subseteq> insert z A \<Longrightarrow> \<forall>t \<in> A'. P t" for P and z :: id_arg and A A'
    by blast
  have old: "\<forall>t \<in> fst ` set (cp_storage s). \<exists>y. t = IdStr y" "\<forall>t \<in> fst ` fst ` set (cp_writes s). \<exists>y. t = IdStr y"
    "\<forall>t \<in> fst ` fst ` set (cp_blobs s). \<exists>y. t = IdStr y"
    using assms(1) unfolding str_threads_def ball_Un by - (elim conjE, assumption)+
  show ?thesis
    unfolding str_threads_def ball_Un
    using sub [OF old(1) _ assms(2)] sub [OF old(2) _ assms(3)] sub [OF old(3) _ assms(4)] by simp
qed

lemma keyed_sum_delete:
  assumes "\<forall>k \<in> fst ` set d. \<exists>y. fst k = IdStr y"
  shows "keyed_sum f y (filter (\<lambda>(k, v). fst k \<noteq> IdStr x) d) = (if y = x then 0 else keyed_sum f y d)"
  using assms
proof (induction d)
  case (Cons p d)
  obtain k v where p: "p = (k, v)" by fastforce
  obtain u where "fst k = IdStr u"
    using Cons.prems p by auto
  then have k: "fst k = IdStr u" "id_str (fst k) = u" by simp_all
  have IH: "keyed_sum f y (filter (\<lambda>(k, v). fst k \<noteq> IdStr x) d) = (if y = x then 0 else keyed_sum f y d)"
    using Cons by simp
  show ?case
    unfolding p using IH k by (cases "u = x"; cases "u = y") (simp_all add: keyed_sum_def)
qed (simp add: keyed_sum_def)

lemma storage_sum_delete:
  assumes "\<forall>t \<in> fst ` set st. \<exists>y. t = IdStr y"
  shows "storage_sum w y (AList.delete (IdStr x) st) = (if y = x then 0 else storage_sum w y st)"
  using assms
proof (induction st)
  case (Cons p st)
  obtain u nss where p: "p = (IdStr u, nss)"
    using Cons.prems by (cases p) auto
  have IH: "storage_sum w y (AList.delete (IdStr x) st) = (if y = x then 0 else storage_sum w y st)"
    using Cons by simp
  show ?case
    unfolding p using IH by (cases "u = x"; cases "u = y") (simp_all add: storage_sum_def AList.delete_eq)
qed (simp add: storage_sum_def)

lemma delete_thread_exact:
  assumes "saver_wf s" and "sizes_exact s" and "str_threads s" and "base_delete_thread_law base"
  shows "saver_wf (saver_delete_thread base (IdStr x) s)" and "sizes_exact (saver_delete_thread base (IdStr x) s)"
    and "str_threads (saver_delete_thread base (IdStr x) s)"
proof -
  let ?s' = "saver_delete_thread base (IdStr x) s"
  have s': "?s' = s\<lparr>cp_storage := AList.delete (IdStr x) (cp_storage s),
      cp_writes := filter (\<lambda>(k, g). fst k \<noteq> IdStr x) (cp_writes s),
      cp_blobs := filter (\<lambda>(k, b). fst k \<noteq> IdStr x) (cp_blobs s),
      cp_size := set_pair x (0, 0) (cp_size s)\<rparr>"
    using assms(4) by (simp add: saver_delete_thread_def base_delete_thread_law_def remove_thread_set id_str_def Let_def)
  have keys: "\<forall>t \<in> fst ` set (cp_storage s). \<exists>y. t = IdStr y"
    "\<forall>k \<in> fst ` set (cp_writes s). \<exists>y. fst k = IdStr y" "\<forall>k \<in> fst ` set (cp_blobs s). \<exists>y. fst k = IdStr y"
    using assms(3) by (simp_all add: str_threads_def ball_Un)
  have "storage_sum w y (cp_storage ?s') = (if y = x then 0 else storage_sum w y (cp_storage s))" for w y
    using storage_sum_delete [OF keys(1)] by (simp add: s')
  moreover have "keyed_sum group_bytes y (cp_writes ?s') = (if y = x then 0 else keyed_sum group_bytes y (cp_writes s))"
    "keyed_sum blob_bytes y (cp_blobs ?s') = (if y = x then 0 else keyed_sum blob_bytes y (cp_blobs s))" for y
    using keyed_sum_delete [OF keys(2)] keyed_sum_delete [OF keys(3)] by (simp_all add: s')
  ultimately show "sizes_exact ?s'"
    using assms(2) by (simp add: sizes_exact_def held_bytes_def held_checkpoints_def s' thread_sizes_set size_ok_set)
  show "saver_wf ?s'"
    using assms(1) by (auto simp: saver_wf_def s' distinct_delete distinct_map_filter AList.delete_eq)
  show "str_threads ?s'"
    by (rule str_threadsI [OF assms(3), of _ x])
      (simp_all add: s' AList.delete_eq image_mono subset_insertI2)
qed

lemma delete_keys_wf:
  assumes "saver_wf s"
  shows "distinct (map fst (delete_keys r (cp_storage s)))"
    and "(t, nss) \<in> set (delete_keys r (cp_storage s)) \<Longrightarrow> namespaces_wf nss"
    and "fst ` set (delete_keys r (cp_storage s)) \<subseteq> fst ` set (cp_storage s)"
proof -
  have "distinct (map fst (cp_storage s))"
    using assms by (simp add: saver_wf_def)
  then show "distinct (map fst (delete_keys r (cp_storage s)))"
    unfolding delete_keys_def by (intro distinct_map_filter distinct_fst_map)
  have nss: "namespaces_wf (filter P (map (\<lambda>(ns, cps). (ns, filter (Q ns) cps)) nss))" if "namespaces_wf nss" for P Q nss
    using that distinct_map_filter [OF distinct_fst_map, of nss P "\<lambda>ns cps. filter (Q ns) cps"]
    by (auto simp: namespaces_wf_def distinct_map_filter simp del: map_map)
  show "namespaces_wf nss" if "(t, nss) \<in> set (delete_keys r (cp_storage s))"
    using that nss assms by (auto simp: delete_keys_def saver_wf_def simp del: filter_map)
  show "fst ` set (delete_keys r (cp_storage s)) \<subseteq> fst ` set (cp_storage s)"
    by (force simp: delete_keys_def)
qed

lemma delete_for_runs_exact_sizes:
  assumes "saver_wf s" and "sizes_exact s" and "str_threads s" and "delete_for_runs versions meta py_str rs s = Inr s'"
  shows "saver_wf s'" and "sizes_exact s'" and "str_threads s'"
proof -
  show "sizes_exact s'"
    using assms(2,4) by (auto simp: delete_for_runs_def Let_def rebuild_exact split: if_splits)
  consider "s' = s" | r P Q where "cp_storage s' = delete_keys r (cp_storage s)"
      "cp_writes s' = filter P (cp_writes s)" "cp_blobs s' = filter Q (cp_blobs s)"
    using delete_for_runs_cases [OF assms(4)] by blast
  then have "saver_wf s' \<and> str_threads s'"
  proof cases
    case 1
    then show ?thesis
      using assms by simp
  next
    case 2
    have "saver_wf s'"
      using assms(1) delete_keys_wf(1,2) [OF assms(1)] by (simp add: saver_wf_def 2 distinct_map_filter)
    moreover have "str_threads s'"
      by (rule str_threadsI [OF assms(3)])
        (use delete_keys_wf(3) [OF assms(1)] in \<open>simp_all add: 2 image_mono subset_insertI2\<close>)
    ultimately show ?thesis ..
  qed
  then show "saver_wf s'" "str_threads s'" by simp_all
qed

section \<open>Every reachable saver accounts exactly\<close>

text \<open>
  The savers a server reaches: persisted dictionaries are loaded and the accounting rebuilt, then
  any sequence of operations follows.
\<close>

inductive saver_reachable ::
  "'c base_put \<Rightarrow> ('c \<Rightarrow> id_arg) \<Rightarrow> base_put_writes \<Rightarrow> base_delete_thread \<Rightarrow> (typed \<Rightarrow> (string \<times> version) list)
     \<Rightarrow> (typed \<Rightarrow> pyval) \<Rightarrow> (pyval \<Rightarrow> string) \<Rightarrow> saver \<Rightarrow> bool"
  for bp cp_id bw bd versions meta py_str where
  sv_load: "saver_wf s \<Longrightarrow> str_threads s \<Longrightarrow>
    saver_reachable bp cp_id bw bd versions meta py_str (rebuild_size_tracking s)"
| sv_put: "saver_reachable bp cp_id bw bd versions meta py_str s \<Longrightarrow>
    conf_id conf ''thread_id'' = Inr (IdStr x) \<Longrightarrow> distinct (map fst nv) \<Longrightarrow>
    saver_put bp cp_id conf cmd c md nv s = Inr s' \<Longrightarrow>
    saver_reachable bp cp_id bw bd versions meta py_str s'"
| sv_put_writes: "saver_reachable bp cp_id bw bd versions meta py_str s \<Longrightarrow>
    conf_id conf ''thread_id'' = Inr (IdStr x) \<Longrightarrow>
    saver_put_writes bw conf ws task path s = Inr s' \<Longrightarrow>
    saver_reachable bp cp_id bw bd versions meta py_str s'"
| sv_delete_thread: "saver_reachable bp cp_id bw bd versions meta py_str s \<Longrightarrow>
    saver_reachable bp cp_id bw bd versions meta py_str (saver_delete_thread bd (IdStr x) s)"
| sv_prune: "saver_reachable bp cp_id bw bd versions meta py_str s \<Longrightarrow>
    saver_prune versions meta bd rs strategy s = Inr s' \<Longrightarrow>
    saver_reachable bp cp_id bw bd versions meta py_str s'"
| sv_delete_for_runs: "saver_reachable bp cp_id bw bd versions meta py_str s \<Longrightarrow>
    delete_for_runs versions meta py_str rs s = Inr s' \<Longrightarrow>
    saver_reachable bp cp_id bw bd versions meta py_str s'"
| sv_clear: "saver_reachable bp cp_id bw bd versions meta py_str s \<Longrightarrow>
    saver_reachable bp cp_id bw bd versions meta py_str (saver_clear s)"

definition saver_ok :: "saver \<Rightarrow> bool" where
  "saver_ok s \<longleftrightarrow> saver_wf s \<and> sizes_exact s \<and> str_threads s"

lemma fold_ok: "(\<And>a s. P s \<Longrightarrow> P (f a s)) \<Longrightarrow> P s \<Longrightarrow> P (fold f xs s)"
  by (induction xs arbitrary: s) auto

lemma keys_update: "fst ` set (AList.update k v d) = insert k (fst ` set d)"
  using dom_update [of k v d] by (simp add: dom_map_of_conv_image_fst)

lemma keys_merge: "fst ` set (dict_merge d e) = fst ` set d \<union> fst ` set e"
  by (induction d e rule: dict_merge.induct) (auto simp: keys_update)

lemma prune_ok: "saver_ok s \<Longrightarrow> saver_ok (prune_thread versions meta r s)"
proof -
  assume ok: "saver_ok s"
  have "str_threads (prune_thread versions meta r s)"
  proof (cases "map_of (cp_storage s) (IdStr (id_str r)) \<in> {None, Some []}")
    case True
    then show ?thesis
      using ok by (simp add: prune_none saver_ok_def)
  next
    case False
    then obtain nss where nss: "map_of (cp_storage s) (IdStr (id_str r)) = Some nss" "nss \<noteq> []" by auto
    show ?thesis
      by (rule str_threadsI [of s _ "id_str r"])
        (use ok in \<open>simp_all add: saver_ok_def prune_some [OF nss] keys_update image_mono subset_insertI2\<close>)
  qed
  then show ?thesis
    using ok prune_wf prune_exact_sizes by (auto simp: saver_ok_def)
qed

lemma put_ok:
  assumes "saver_ok s" and "base_put_law bp cp_id" and "conf_id conf ''thread_id'' = Inr (IdStr x)"
    and "distinct (map fst nv)" and "saver_put bp cp_id conf cmd c md nv s = Inr s'"
  shows "saver_ok s'"
proof -
  obtain ns where ns: "conf_str conf ''checkpoint_ns'' = Inr ns"
    using assms(3,5) by (auto simp: saver_put_def Let_def res_bind_def split: sum.splits)
  obtain e val where b: "bp conf c (put_metadata conf cmd md) nv s =
      s\<lparr>cp_storage := storage_put (IdStr x) ns (cp_id c) e (cp_storage s),
        cp_blobs := dict_merge (cp_blobs s) (map (\<lambda>(ch, v). ((IdStr x, ns, ch, v), val ch v)) nv)\<rparr>"
    using assms(2,3) ns unfolding base_put_law_def by blast
  have "cp_storage s' = storage_put (IdStr x) ns (cp_id c) e (cp_storage s)" "cp_writes s' = cp_writes s"
    "cp_blobs s' = dict_merge (cp_blobs s) (map (\<lambda>(ch, v). ((IdStr x, ns, ch, v), val ch v)) nv)"
    using assms(5) unfolding saver_put_def Let_def res_bind_def assms(3) ns sum.case b
    by (auto split: option.splits if_splits)
  moreover have "fst ` fst ` set (map (\<lambda>(ch, v). ((IdStr x, ns, ch, v), val ch v)) nv) \<subseteq> insert (IdStr x) A" for A
    by auto
  moreover have "str_threads s"
    using assms(1) by (simp add: saver_ok_def)
  ultimately have "str_threads s'"
    by - (rule str_threadsI [of s _ x],
      simp_all only: storage_put_def Let_def keys_update keys_merge image_Un Un_subset_iff subset_insertI subset_refl simp_thms)
  then show ?thesis
    using saver_put_exact [OF _ _ assms(2,4,5)] assms(1) by (simp add: saver_ok_def)
qed

lemma put_writes_ok:
  assumes "saver_ok s" and "base_put_writes_law bw" and "conf_id conf ''thread_id'' = Inr (IdStr x)"
    and "saver_put_writes bw conf ws task path s = Inr s'"
  shows "saver_ok s'"
proof -
  obtain ns i where i: "conf_id conf ''checkpoint_id'' = Inr i"
    and ns: "(if has_key conf ''checkpoint_ns'' then conf_str conf ''checkpoint_ns'' else Inr []) = Inr ns"
    using assms(3,4) by (auto simp: saver_put_writes_def Let_def res_bind_def split: sum.splits)
  have "cp_storage s' = cp_storage (bw conf ws task path s)" "cp_writes s' = cp_writes (bw conf ws task path s)"
    "cp_blobs s' = cp_blobs (bw conf ws task path s)"
    using assms(3,4) i ns by (auto simp: saver_put_writes_def Let_def res_bind_def simp del: if_split)
  moreover have "(\<exists>g. bw conf ws task path s = s\<lparr>cp_writes := AList.update (IdStr x, ns, i) g (cp_writes s)\<rparr>)
      \<or> bw conf ws task path s = s"
    using assms(2,3) i ns unfolding base_put_writes_law_def by blast
  moreover have "str_threads s"
    using assms(1) by (simp add: saver_ok_def)
  ultimately have "str_threads s'"
    by - (rule str_threadsI [of s _ x], assumption, (elim disjE exE; simp add: keys_update subset_insertI)+)
  then show ?thesis
    using saver_put_writes_exact [OF _ _ assms(2,4)] assms(1) by (simp add: saver_ok_def)
qed

lemma reachable_saver_ok:
  assumes "saver_reachable bp cp_id bw bd versions meta py_str s"
    and "base_put_law bp cp_id" and "base_put_writes_law bw" and "base_delete_thread_law bd"
  shows "saver_ok s"
  using assms(1)
proof (induction rule: saver_reachable.induct)
  case (sv_load s)
  then show ?case
    using rebuild_exact by (simp add: saver_ok_def saver_wf_def str_threads_def)
next
  case (sv_put s conf x nv cmd c md s')
  then show ?case using put_ok [OF _ assms(2)] by blast
next
  case (sv_put_writes s conf x ws task path s')
  then show ?case using put_writes_ok [OF _ assms(3)] by blast
next
  case (sv_delete_thread s x)
  then show ?case
    using delete_thread_exact [OF _ _ _ assms(4)] by (simp add: saver_ok_def)
next
  case (sv_prune s rs strategy s')
  have "saver_ok (fold (\<lambda>t. saver_delete_thread bd (IdStr (id_str t))) rs s)"
    by (rule fold_ok) (use delete_thread_exact [OF _ _ _ assms(4)] sv_prune.IH in \<open>simp_all add: saver_ok_def\<close>)
  moreover have "saver_ok (fold (prune_thread versions meta) rs s)"
    by (rule fold_ok) (use prune_ok sv_prune.IH in simp_all)
  ultimately show ?case
    using sv_prune.hyps(2) by (auto simp: saver_prune_def split: if_splits)
next
  case (sv_delete_for_runs s rs s')
  then show ?case
    using delete_for_runs_exact_sizes [OF _ _ _ sv_delete_for_runs.hyps(2)] unfolding saver_ok_def by blast
next
  case (sv_clear s)
  then show ?case
    by (simp add: saver_ok_def saver_clear_def saver_wf_def str_threads_def sizes_exact_def size_ok_new
        held_bytes_def held_checkpoints_def storage_sum_def keyed_sum_def)
qed


section \<open>Witness\<close>

text \<open>A base class that satisfies the laws, storing fixed payloads.\<close>

definition demo_base_put :: "id_arg base_put" where
  "demo_base_put conf c md nv s =
     (case (conf_id conf ''thread_id'', conf_str conf ''checkpoint_ns'') of
        (Inr t, Inr ns) \<Rightarrow>
          s\<lparr>cp_storage := storage_put t ns c (Entry (''json'', ''c'') (''json'', ''m'') None) (cp_storage s),
            cp_blobs := dict_merge (cp_blobs s) (map (\<lambda>(ch, v). ((t, ns, ch, v), (''json'', ''v''))) nv)\<rparr>
      | _ \<Rightarrow> s)"

definition demo_base_writes :: base_put_writes where
  "demo_base_writes conf ws task path s = s"

definition demo_base_delete :: base_delete_thread where
  "demo_base_delete t s =
     s\<lparr>cp_storage := AList.delete t (cp_storage s), cp_writes := filter (\<lambda>(k, g). fst k \<noteq> t) (cp_writes s),
       cp_blobs := filter (\<lambda>(k, b). fst k \<noteq> t) (cp_blobs s)\<rparr>"

definition demo_conf :: dict where
  "demo_conf = [(''thread_id'', PStr ''t''), (''checkpoint_ns'', PStr [])]"

definition demo_put :: saver where
  "demo_put = projr (saver_put demo_base_put id demo_conf [] (IdStr ''c1'') [] [(''x'', VInt 1)]
     (rebuild_size_tracking (saver_clear demo_saver)))"

lemma demo_laws: "base_put_law demo_base_put id" "base_put_writes_law demo_base_writes"
  "base_delete_thread_law demo_base_delete"
  unfolding base_put_law_def
  by (auto simp: demo_base_put_def base_put_writes_law_def demo_base_writes_def base_delete_thread_law_def
      demo_base_delete_def intro!: exI [of _ "\<lambda>_ _. (''json'', ''v'')"])


end
