(* ===== verification/Filters.thy ===== *)
theory Filters
  imports Prelude
begin

text \<open>
  Metadata matching (\<open>ops.py\<close>): \<open>is_jsonb_contained\<close>, the containment test of the searches, and
  \<open>_check_filter_match\<close> with \<open>_validate_filter_structure\<close>, which apply the filters an
  authorization handler returns. A handler's filter is any Python value; the operations on values
  that are not dictionaries raise as Python does.
\<close>

section \<open>Containment\<close>

fun is_jsonb_contained :: "dict \<Rightarrow> dict \<Rightarrow> bool" where
  "is_jsonb_contained superset [] = True"
| "is_jsonb_contained superset ((key, value) # sub) =
     (case map_of superset key of
        None \<Rightarrow> False
      | Some v \<Rightarrow>
          (case (value, v) of
             (PDict e, PDict d) \<Rightarrow> is_jsonb_contained d e \<and> is_jsonb_contained superset sub
           | _ \<Rightarrow> py_eq v value \<and> is_jsonb_contained superset sub))"

text \<open>\<open>is_jsonb_contained(v, sub)\<close> for any value \<open>v\<close>: \<open>key not in v\<close> raises for \<open>None\<close>, tests the
  elements of a list and the substrings of a string, and indexing either with a string raises.\<close>

definition key_in :: "string \<Rightarrow> pyval \<Rightarrow> bool res" where
  "key_in k v =
     (case v of
        PDict d \<Rightarrow> Inr (has_key d k)
      | PList xs \<Rightarrow> Inr (\<exists>x \<in> set xs. py_eq x (PStr k))
      | PStr s \<Rightarrow> Inr (substring k s)
      | _ \<Rightarrow> Inl TypeError)"

definition contained_in :: "pyval \<Rightarrow> dict \<Rightarrow> bool res" where
  "contained_in v sub =
     (case v of
        PDict d \<Rightarrow> Inr (is_jsonb_contained d sub)
      | _ \<Rightarrow>
          (case sub of
             [] \<Rightarrow> Inr True
           | (k, _) # _ \<Rightarrow>
               res_bind (key_in k v) (\<lambda>b. if b then Inl TypeError else Inr False)))"

section \<open>Filters of authorization handlers\<close>

text \<open>\<open>filters[key]\<close> after \<open>key in filters\<close>.\<close>

definition get_item :: "pyval \<Rightarrow> string \<Rightarrow> pyval res" where
  "get_item v k =
     (case v of
        PDict d \<Rightarrow> (case map_of d k of None \<Rightarrow> Inl KeyError | Some w \<Rightarrow> Inr w)
      | _ \<Rightarrow> Inl TypeError)"

text \<open>\<open>filters.items()\<close>.\<close>

definition dict_items :: "pyval \<Rightarrow> dict res" where
  "dict_items v = (case v of PDict d \<Rightarrow> Inr d | _ \<Rightarrow> Inl AttributeError)"

definition remaining :: "string \<Rightarrow> dict \<Rightarrow> dict" where
  "remaining k d = filter (\<lambda>(k', v). k' \<noteq> k) d"

text \<open>A list of at least two groups, or status 500.\<close>

definition groups_of :: "pyval \<Rightarrow> pyval list res" where
  "groups_of v =
     (case v of PList gs \<Rightarrow> if length gs \<ge> 2 then Inr gs else Inl (HTTPException 500)
      | _ \<Rightarrow> Inl (HTTPException 500))"

text \<open>Running a check on each element until one raises; and until one answers \<open>b\<close>.\<close>

fun each_ok :: "('a \<Rightarrow> unit res) \<Rightarrow> 'a list \<Rightarrow> unit res" where
  "each_ok f [] = Inr ()"
| "each_ok f (x # xs) = res_bind (f x) (\<lambda>_. each_ok f xs)"

fun until_is :: "bool \<Rightarrow> ('a \<Rightarrow> bool res) \<Rightarrow> 'a list \<Rightarrow> bool res" where
  "until_is b f [] = Inr (\<not> b)"
| "until_is b f (x # xs) = res_bind (f x) (\<lambda>r. if r = b then Inr b else until_is b f xs)"

text \<open>
  The validation: for \<open>$or\<close> and then for \<open>$and\<close>, the groups and the remaining filters one level
  deeper. \<open>nesting_level\<close> above 2 raises, which bounds the recursion.
\<close>

function validate_filter_structure :: "nat \<Rightarrow> pyval \<Rightarrow> unit res" where
  "validate_filter_structure nesting_level filters =
     (if nesting_level > 2 then Inl (HTTPException 500)
      else if \<not> truthy filters then Inr ()
      else
        let check = (\<lambda>op.
          res_bind (key_in op filters) (\<lambda>present.
            if \<not> present then Inr ()
            else res_bind (get_item filters op) (\<lambda>v. res_bind (groups_of v) (\<lambda>groups.
                   res_bind (each_ok (validate_filter_structure (Suc nesting_level)) groups) (\<lambda>_.
                     res_bind (dict_items filters) (\<lambda>d.
                       if remaining op d = [] then Inr ()
                       else validate_filter_structure (Suc nesting_level) (PDict (remaining op d))))))))
        in res_bind (check ''$or'') (\<lambda>_. check ''$and''))"
  by pat_completeness auto

termination
  by (relation "measure (\<lambda>(l, _). 3 - l)") auto

declare validate_filter_structure.simps [simp del]

definition contains_all :: "pyval list \<Rightarrow> pyval \<Rightarrow> bool" where
  "contains_all xs fv =
     (case fv of
        PList ys \<Rightarrow> \<forall>y \<in> set ys. \<exists>x \<in> set xs. py_eq x y
      | _ \<Rightarrow> \<exists>x \<in> set xs. py_eq x fv)"

definition equals_at :: "dict \<Rightarrow> string \<Rightarrow> pyval \<Rightarrow> bool" where
  "equals_at metadata key v = (case map_of metadata key of None \<Rightarrow> False | Some w \<Rightarrow> py_eq w v)"

definition contains_at :: "dict \<Rightarrow> string \<Rightarrow> pyval \<Rightarrow> bool" where
  "contains_at metadata key v =
     (case map_of metadata key of Some (PList xs) \<Rightarrow> contains_all xs v | _ \<Rightarrow> False)"

text \<open>The regular filters. An operator that is neither \<open>$eq\<close> nor \<open>$contains\<close> is not tested.\<close>

fun match_items :: "dict \<Rightarrow> dict \<Rightarrow> bool res" where
  "match_items metadata [] = Inr True"
| "match_items metadata ((key, value) # fs) =
     (case value of
        PDict [] \<Rightarrow> Inl StopIteration
      | PDict ((op, filter_value) # _) \<Rightarrow>
          if op = ''$eq''
          then (if equals_at metadata key filter_value then match_items metadata fs else Inr False)
          else if op = ''$contains''
          then (if contains_at metadata key filter_value then match_items metadata fs else Inr False)
          else match_items metadata fs
      | _ \<Rightarrow> if equals_at metadata key value then match_items metadata fs else Inr False)"

function check_filter_match :: "nat \<Rightarrow> dict \<Rightarrow> pyval \<Rightarrow> bool res" where
  "check_filter_match nesting_level metadata filters =
     (if nesting_level > 2 then Inl (HTTPException 500)
      else if \<not> truthy filters then Inr True
      else
        let groups = (\<lambda>op any.
          res_bind (get_item filters op) (\<lambda>v. res_bind (groups_of v) (\<lambda>gs.
            res_bind (each_ok (validate_filter_structure (Suc nesting_level)) gs) (\<lambda>_.
              res_bind (until_is any (check_filter_match (Suc nesting_level) metadata) gs) (\<lambda>m.
                if \<not> m then Inr False
                else res_bind (dict_items filters) (\<lambda>d.
                       if remaining op d = [] then Inr True
                       else check_filter_match (Suc nesting_level) metadata (PDict (remaining op d))))))))
        in res_bind (key_in ''$or'' filters) (\<lambda>has_or.
             if has_or then groups ''$or'' True
             else res_bind (key_in ''$and'' filters) (\<lambda>has_and.
                    if has_and then groups ''$and'' False
                    else res_bind (dict_items filters) (match_items metadata))))"
  by pat_completeness auto

termination
  by (relation "measure (\<lambda>(l, _, _). 3 - l)") auto

declare check_filter_match.simps [simp del]

text \<open>\<open>not filters or _check_filter_match(metadata, filters)\<close>, with \<open>None\<close> for no filter.\<close>

definition allowed :: "dict \<Rightarrow> dict option \<Rightarrow> bool res" where
  "allowed metadata filters =
     (case filters of None \<Rightarrow> Inr True | Some [] \<Rightarrow> Inr True
      | Some d \<Rightarrow> check_filter_match 0 metadata (PDict d))"

section \<open>The language of filters\<close>

text \<open>
  What a handler means: conditions on keys, and disjunctions and conjunctions of filters with
  conditions beside them. \<open>filter_val\<close> is the Python value of such a filter and \<open>filter_holds\<close> its
  meaning.
\<close>

datatype filter_cond =
    CondIs string pyval
  | CondEq string pyval
  | CondContains string pyval

datatype auth_filter =
    Conds "filter_cond list"
  | AnyOf "auth_filter list" "filter_cond list"
  | AllOf "auth_filter list" "filter_cond list"

fun cond_holds :: "dict \<Rightarrow> filter_cond \<Rightarrow> bool" where
  "cond_holds md (CondIs k v) = equals_at md k v"
| "cond_holds md (CondEq k v) = equals_at md k v"
| "cond_holds md (CondContains k v) = contains_at md k v"

fun filter_holds :: "dict \<Rightarrow> auth_filter \<Rightarrow> bool" where
  "filter_holds md (Conds cs) = (\<forall>c \<in> set cs. cond_holds md c)"
| "filter_holds md (AnyOf fs cs) = ((\<exists>f \<in> set fs. filter_holds md f) \<and> (\<forall>c \<in> set cs. cond_holds md c))"
| "filter_holds md (AllOf fs cs) = ((\<forall>f \<in> set fs. filter_holds md f) \<and> (\<forall>c \<in> set cs. cond_holds md c))"

fun cond_item :: "filter_cond \<Rightarrow> string \<times> pyval" where
  "cond_item (CondIs k v) = (k, v)"
| "cond_item (CondEq k v) = (k, PDict [(''$eq'', v)])"
| "cond_item (CondContains k v) = (k, PDict [(''$contains'', v)])"

fun filter_val :: "auth_filter \<Rightarrow> pyval" where
  "filter_val (Conds cs) = PDict (map cond_item cs)"
| "filter_val (AnyOf fs cs) = PDict ((''$or'', PList (map filter_val fs)) # map cond_item cs)"
| "filter_val (AllOf fs cs) = PDict ((''$and'', PList (map filter_val fs)) # map cond_item cs)"

text \<open>
  The filters the code can express: keys that are no operators, no plain condition on a dictionary
  (it would be read as an operator), at least two groups. The depth is the number of operators on
  the longest path.
\<close>

fun cond_ok :: "filter_cond \<Rightarrow> bool" where
  "cond_ok (CondIs k v) = (k \<notin> {''$or'', ''$and''} \<and> (case v of PDict _ \<Rightarrow> False | _ \<Rightarrow> True))"
| "cond_ok (CondEq k v) = (k \<notin> {''$or'', ''$and''})"
| "cond_ok (CondContains k v) = (k \<notin> {''$or'', ''$and''})"

fun filter_ok :: "auth_filter \<Rightarrow> bool" where
  "filter_ok (Conds cs) = (\<forall>c \<in> set cs. cond_ok c)"
| "filter_ok (AnyOf fs cs) = (length fs \<ge> 2 \<and> (\<forall>f \<in> set fs. filter_ok f) \<and> (\<forall>c \<in> set cs. cond_ok c))"
| "filter_ok (AllOf fs cs) = (length fs \<ge> 2 \<and> (\<forall>f \<in> set fs. filter_ok f) \<and> (\<forall>c \<in> set cs. cond_ok c))"

fun filter_depth :: "auth_filter \<Rightarrow> nat" where
  "filter_depth (Conds cs) = 0"
| "filter_depth (AnyOf fs cs) = Suc (foldr max (map filter_depth fs) 0)"
| "filter_depth (AllOf fs cs) = Suc (foldr max (map filter_depth fs) 0)"

section \<open>The code decides the language\<close>

lemma cond_keys: "cond_ok c \<Longrightarrow> fst (cond_item c) \<noteq> ''$or'' \<and> fst (cond_item c) \<noteq> ''$and''"
  by (cases c) auto

lemma conds_no_op:
  assumes "\<forall>c \<in> set cs. cond_ok c" and "op \<in> {''$or'', ''$and''}"
  shows "map_of (map cond_item cs) op = None" and "remaining op (map cond_item cs) = map cond_item cs"
proof -
  have n: "fst (cond_item c) \<noteq> op" if "c \<in> set cs" for c
    using that assms cond_keys by auto
  then show "map_of (map cond_item cs) op = None"
    unfolding map_of_eq_None_iff by (metis (no_types, lifting) imageE list.set_map)
  show "remaining op (map cond_item cs) = map cond_item cs"
    unfolding remaining_def using n by (intro filter_True) (simp add: split_beta)
qed

lemma match_conds: "\<forall>c \<in> set cs. cond_ok c \<Longrightarrow> match_items md (map cond_item cs) = Inr (\<forall>c \<in> set cs. cond_holds md c)"
proof (induction cs)
  case (Cons c cs)
  then show ?case
    by (cases c) (auto split: pyval.splits)
qed simp

lemma each_ok_map:
  "(\<And>f. f \<in> set fs \<Longrightarrow> c (filter_val f) = (if P f then Inr () else Inl e)) \<Longrightarrow>
     each_ok c (map filter_val fs) = (if \<forall>f \<in> set fs. P f then Inr () else Inl e)"
  by (induction fs) (auto simp: res_bind_def)

lemma until_is_map:
  "(\<And>f. f \<in> set fs \<Longrightarrow> c (filter_val f) = Inr (P f)) \<Longrightarrow>
     until_is b c (map filter_val fs) = Inr (if b then \<exists>f \<in> set fs. P f else \<forall>f \<in> set fs. P f)"
  by (induction fs) (auto simp: res_bind_def)

lemma depth_groups:
  "l + foldr max (map filter_depth fs) 0 \<le> Suc 0 \<longleftrightarrow> l \<le> Suc 0 \<and> (\<forall>f \<in> set fs. l + filter_depth f \<le> Suc 0)"
  by (induction fs) (auto simp: max_def)

lemma validate_conds:
  assumes "\<forall>c \<in> set cs. cond_ok c" and "l \<le> 2"
  shows "validate_filter_structure l (PDict (map cond_item cs)) = Inr ()"
  using assms conds_no_op(1) [OF assms(1)]
  by (simp add: validate_filter_structure.simps [of l] key_in_def has_key_def res_bind_def)

lemma check_conds:
  assumes "\<forall>c \<in> set cs. cond_ok c" and "l \<le> 2"
  shows "check_filter_match l md (PDict (map cond_item cs)) = Inr (\<forall>c \<in> set cs. cond_holds md c)"
  using assms conds_no_op(1) [OF assms(1)] match_conds [OF assms(1), of md]
  by (auto simp: check_filter_match.simps [of l] key_in_def has_key_def res_bind_def dict_items_def)

lemma remaining_op:
  "\<forall>c \<in> set cs. cond_ok c \<Longrightarrow> op \<in> {''$or'', ''$and''} \<Longrightarrow>
     remaining op ((op, v) # map cond_item cs) = map cond_item cs"
  using conds_no_op(2) by (simp add: remaining_def)

text \<open>The unfolded definitions of the two recursive functions on a filter with groups.\<close>

lemmas group_defs = key_in_def has_key_def get_item_def groups_of_def dict_items_def res_bind_def

lemma validate_filter_val:
  "filter_ok f \<Longrightarrow> validate_filter_structure l (filter_val f) =
     (if l + filter_depth f \<le> 2 then Inr () else Inl (HTTPException 500))"
proof (induction f arbitrary: l)
  case (Conds cs)
  then show ?case
    by (cases "l \<le> 2") (simp_all add: validate_conds, simp add: validate_filter_structure.simps [of l])
next
  case (AnyOf fs cs)
  have g: "each_ok (validate_filter_structure (Suc l)) (map filter_val fs) =
      (if \<forall>f \<in> set fs. Suc l + filter_depth f \<le> 2 then Inr () else Inl (HTTPException 500))"
    using AnyOf by (intro each_ok_map) auto
  have ne: "\<forall>f \<in> set fs. l + filter_depth f \<le> Suc 0 \<Longrightarrow> l \<le> Suc 0"
    using AnyOf.prems by (cases fs) auto
  show ?case
    using AnyOf.prems ne remaining_op [of cs "''$or''"] validate_conds [of cs "Suc l"] conds_no_op(1) [of cs "''$and''"]
    by (auto simp: validate_filter_structure.simps [of l] group_defs g depth_groups)
next
  case (AllOf fs cs)
  have g: "each_ok (validate_filter_structure (Suc l)) (map filter_val fs) =
      (if \<forall>f \<in> set fs. Suc l + filter_depth f \<le> 2 then Inr () else Inl (HTTPException 500))"
    using AllOf by (intro each_ok_map) auto
  have ne: "\<forall>f \<in> set fs. l + filter_depth f \<le> Suc 0 \<Longrightarrow> l \<le> Suc 0"
    using AllOf.prems by (cases fs) auto
  show ?case
    using AllOf.prems ne remaining_op [of cs "''$and''"] validate_conds [of cs "Suc l"] conds_no_op(1) [of cs "''$or''"]
    by (auto simp: validate_filter_structure.simps [of l] group_defs g depth_groups)
qed

lemma check_filter_val:
  "filter_ok f \<Longrightarrow> check_filter_match l md (filter_val f) =
     (if l + filter_depth f \<le> 2 then Inr (filter_holds md f) else Inl (HTTPException 500))"
proof (induction f arbitrary: l)
  case (Conds cs)
  then show ?case
    by (cases "l \<le> 2") (simp_all add: check_conds, simp add: check_filter_match.simps [of l])
next
  case (AnyOf fs cs)
  have g: "each_ok (validate_filter_structure (Suc l)) (map filter_val fs) =
      (if \<forall>f \<in> set fs. Suc l + filter_depth f \<le> 2 then Inr () else Inl (HTTPException 500))"
    using AnyOf.prems validate_filter_val by (intro each_ok_map) auto
  have ne: "\<forall>f \<in> set fs. l + filter_depth f \<le> Suc 0 \<Longrightarrow> l \<le> Suc 0"
    using AnyOf.prems by (cases fs) auto
  have u: "until_is True (check_filter_match (Suc l) md) (map filter_val fs) = Inr (\<exists>f \<in> set fs. filter_holds md f)"
    if "\<forall>f \<in> set fs. Suc l + filter_depth f \<le> 2"
    using AnyOf that by (subst until_is_map [of _ _ "filter_holds md"]) auto
  show ?case
    using AnyOf.prems ne u remaining_op [of cs "''$or''"] check_conds [of cs "Suc l" md]
    by (auto simp: check_filter_match.simps [of l] group_defs g depth_groups)
next
  case (AllOf fs cs)
  have g: "each_ok (validate_filter_structure (Suc l)) (map filter_val fs) =
      (if \<forall>f \<in> set fs. Suc l + filter_depth f \<le> 2 then Inr () else Inl (HTTPException 500))"
    using AllOf.prems validate_filter_val by (intro each_ok_map) auto
  have ne: "\<forall>f \<in> set fs. l + filter_depth f \<le> Suc 0 \<Longrightarrow> l \<le> Suc 0"
    using AllOf.prems by (cases fs) auto
  have u: "until_is False (check_filter_match (Suc l) md) (map filter_val fs) = Inr (\<forall>f \<in> set fs. filter_holds md f)"
    if "\<forall>f \<in> set fs. Suc l + filter_depth f \<le> 2"
    using AllOf that by (subst until_is_map [of _ _ "filter_holds md"]) auto
  show ?case
    using AllOf.prems ne u remaining_op [of cs "''$and''"] check_conds [of cs "Suc l" md] conds_no_op(1) [of cs "''$or''"]
    by (auto simp: check_filter_match.simps [of l] group_defs g depth_groups)
qed

section \<open>Properties of containment\<close>

text \<open>Dictionaries have one entry per key, at every depth.\<close>

fun dicts_ok :: "pyval \<Rightarrow> bool" where
  "dicts_ok (PDict d) = (distinct (map fst d) \<and> (\<forall>p \<in> set d. dicts_ok (snd p)))"
| "dicts_ok (PList xs) = (\<forall>x \<in> set xs. dicts_ok x)"
| "dicts_ok _ = True"

lemma py_eqs_refl: "(\<And>x. x \<in> set xs \<Longrightarrow> py_eq x x) \<Longrightarrow> py_eqs xs xs"
  by (induction xs) auto

lemma py_subdict_of: "(\<And>k v. (k, v) \<in> set d \<Longrightarrow> map_of e k = Some v \<and> py_eq v v) \<Longrightarrow> py_subdict d e"
proof (induction d)
  case (Cons p d)
  have "map_of e (fst p) = Some (snd p) \<and> py_eq (snd p) (snd p)"
    using Cons.prems [of "fst p" "snd p"] by simp
  moreover have "py_subdict d e"
    by (rule Cons.IH) (use Cons.prems in auto)
  ultimately show ?case by (cases p) simp
qed simp

lemma py_eq_refl: "dicts_ok v \<Longrightarrow> py_eq v v"
proof (induction v)
  case (PList xs)
  then show ?case by (simp add: py_eqs_refl)
next
  case (PDict d)
  have "py_eq w w" if "(k, w) \<in> set d" for k w
    using PDict that by (fastforce simp: snds.simps)
  then show ?case
    using PDict.prems by (auto intro!: py_subdict_of)
qed auto

lemma contained_of:
  "(\<And>k v. (k, v) \<in> set e \<Longrightarrow> map_of d k = Some v \<and> dicts_ok v \<and> (\<forall>f. v = PDict f \<longrightarrow> is_jsonb_contained f f)) \<Longrightarrow>
     is_jsonb_contained d e"
proof (induction e)
  case (Cons p e)
  obtain k v where p: "p = (k, v)" by fastforce
  have v: "map_of d k = Some v" "dicts_ok v" "\<And>f. v = PDict f \<Longrightarrow> is_jsonb_contained f f"
    using Cons.prems [of k v] p by auto
  have "is_jsonb_contained d e"
    by (rule Cons.IH) (use Cons.prems in auto)
  then show ?case
    unfolding p using v py_eq_refl [OF v(2)] by (cases v) simp_all
qed simp

lemma contained_refl: "dicts_ok v \<Longrightarrow> v = PDict d \<Longrightarrow> is_jsonb_contained d d"
proof (induction v arbitrary: d)
  case (PDict e)
  show ?case
  proof (rule contained_of)
    fix k v
    assume kv: "(k, v) \<in> set d"
    have d: "e = d" "distinct (map fst d)"
      using PDict.prems by auto
    have "\<forall>f. v = PDict f \<longrightarrow> is_jsonb_contained f f" "dicts_ok v"
      using PDict kv by (fastforce simp: snds.simps)+
    then show "map_of d k = Some v \<and> dicts_ok v \<and> (\<forall>f. v = PDict f \<longrightarrow> is_jsonb_contained f f)"
      using d kv by simp
  qed
qed auto

lemma merge_contains:
  assumes "dicts_ok (PDict e)"
  shows "is_jsonb_contained (dict_merge d e) e"
proof (rule contained_of)
  fix k v
  assume kv: "(k, v) \<in> set e"
  have d: "distinct (map fst e)" "dicts_ok v"
    using assms kv by auto
  then have "map_of e k = Some v"
    using kv by simp
  then have "map_of (dict_merge d e) k = Some v"
    by (simp add: map_of_dict_merge [OF d(1)])
  then show "map_of (dict_merge d e) k = Some v \<and> dicts_ok v \<and> (\<forall>f. v = PDict f \<longrightarrow> is_jsonb_contained f f)"
    using contained_refl [OF d(2)] d(2) by auto
qed

text \<open>C23: The filters of an authorization handler are decided as they mean: for every filter built
  from equality and containment conditions with \<open>$or\<close> and \<open>$and\<close>, the check answers exactly whether
  the metadata satisfies it if at most two operators are nested, and raises status 500 otherwise,
  even where a match could have been found first; it never lets a deeper filter pass.\<close>

theorem auth_filters_decided:
  assumes "filter_ok f"
  shows "check_filter_match 0 metadata (filter_val f) =
    (if filter_depth f \<le> 2 then Inr (filter_holds metadata f) else Inl (HTTPException 500))"
  using check_filter_val [OF assms, of 0] by simp

definition demo_filter :: auth_filter where
  "demo_filter = AnyOf [Conds [CondIs ''owner'' (PStr ''a'')], Conds [CondContains ''tags'' (PStr ''x'')]]
     [CondEq ''org'' (PInt 1)]"

theorem auth_filters_decided_witness:
  "check_filter_match 0 [(''org'', PInt 1), (''tags'', PList [PStr ''x''])] (filter_val demo_filter) = Inr True"
proof -
  have "filter_ok demo_filter" "filter_depth demo_filter \<le> 2"
    "filter_holds [(''org'', PInt 1), (''tags'', PList [PStr ''x''])] demo_filter"
    by code_simp+
  then show ?thesis
    by (simp add: auth_filters_decided)
qed

end
