(* ===== verification/Thread_TTL.thy ===== *)
theory Thread_TTL
  imports Prelude
begin

text \<open>
  Thread time-to-live: the validation of TTL configurations and the effective TTL of a thread
  (\<open>ops.py\<close>), and the start-up checks of the sweep loop (\<open>thread_ttl.py\<close>). A configuration is the
  Python dictionary a client or the server configuration gives; a finite \<open>float\<close> is an exact
  rational, so that the rounding of \<open>float\<close> is not modelled. \<open>now\<close> is the reading of the clock.
\<close>

section \<open>float()\<close>

datatype pyfloat = Finite rat | Infinite | NotANumber

text \<open>Digits with an optional point, and an optional exponent.\<close>

definition parse_mantissa :: "string \<Rightarrow> rat option" where
  "parse_mantissa s =
     (case partition_at (CHR ''.'') s of
        (i, _, f) \<Rightarrow>
          if i = [] \<and> f = [] then None
          else case ((if i = [] then Some 0 else parse_nat i), (if f = [] then Some 0 else parse_nat f)) of
                 (Some m, Some n) \<Rightarrow>
                   Some (rat_of_nat m + rat_of_nat n / 10 ^ length (filter (\<lambda>c. c \<noteq> CHR ''_'') f))
               | _ \<Rightarrow> None)"

definition parse_exponent :: "string \<Rightarrow> int option" where
  "parse_exponent s =
     (case s of
        [] \<Rightarrow> None
      | c # cs \<Rightarrow>
          if c = CHR ''-'' then map_option (\<lambda>n. - int n) (parse_nat cs)
          else if c = CHR ''+'' then map_option int (parse_nat cs)
          else map_option int (parse_nat (c # cs)))"

definition parse_unsigned_float :: "string \<Rightarrow> pyfloat option" where
  "parse_unsigned_float s =
     (let l = py_lower s in
      if l \<in> {''inf'', ''infinity''} then Some Infinite
      else if l = ''nan'' then Some NotANumber
      else case partition_at (CHR ''e'') l of
             (m, has_exp, e) \<Rightarrow>
               (case parse_mantissa m of
                  None \<Rightarrow> None
                | Some q \<Rightarrow>
                    if \<not> has_exp then Some (Finite q)
                    else (case parse_exponent e of
                            None \<Rightarrow> None
                          | Some k \<Rightarrow>
                              Some (Finite (if 0 \<le> k then q * 10 ^ nat k else q / 10 ^ nat (- k))))))"

definition negate_float :: "pyfloat \<Rightarrow> pyfloat" where
  "negate_float f = (case f of Finite q \<Rightarrow> Finite (- q) | g \<Rightarrow> g)"

definition float_of_string :: "string \<Rightarrow> pyfloat res" where
  "float_of_string s =
     (case py_strip s of
        [] \<Rightarrow> Inl ValueError
      | c # cs \<Rightarrow>
          (case (if c = CHR ''-'' then map_option negate_float (parse_unsigned_float cs)
                 else if c = CHR ''+'' then parse_unsigned_float cs
                 else parse_unsigned_float (c # cs)) of
             None \<Rightarrow> Inl ValueError | Some f \<Rightarrow> Inr f))"

text \<open>The least integer \<open>float()\<close> refuses: \<open>2 ** 1024 - 2 ** 970\<close>.\<close>

definition float_int_limit :: int where
  "float_int_limit = 2 ^ 1024 - 2 ^ 970"

definition py_float :: "pyval \<Rightarrow> pyfloat res" where
  "py_float v =
     (case v of
        PBool b \<Rightarrow> Inr (Finite (if b then 1 else 0))
      | PInt i \<Rightarrow> if \<bar>i\<bar> < float_int_limit then Inr (Finite (of_int i)) else Inl OverflowError
      | PFloat q \<Rightarrow> Inr (Finite q)
      | PStr s \<Rightarrow> float_of_string s
      | PBytes s \<Rightarrow> float_of_string s
      | _ \<Rightarrow> Inl TypeError)"

section \<open>Configurations\<close>

datatype ttl_strategy = TTLDelete | TTLKeepLatest

record ttl_config =
  tc_strategy :: ttl_strategy
  tc_minutes :: rat

text \<open>\<open>str(config.get("strategy", "delete")).lower()\<close>: the \<open>str\<close> of a value that is no string is none
  of the strategies.\<close>

definition read_strategy :: "dict \<Rightarrow> ttl_strategy option" where
  "read_strategy config =
     (case dict_get config ''strategy'' (PStr ''delete'') of
        PStr s \<Rightarrow>
          if py_lower s = ''delete'' then Some TTLDelete
          else if py_lower s = ''keep_latest'' then Some TTLKeepLatest
          else None
      | _ \<Rightarrow> None)"

definition read_ttl :: "dict \<Rightarrow> pyval" where
  "read_ttl config =
     dict_get config ''ttl'' (dict_get config ''ttl_minutes'' (dict_get config ''default_ttl'' PNone))"

definition normalize_ttl_config :: "int \<Rightarrow> dict option \<Rightarrow> ttl_config option res" where
  "normalize_ttl_config now config =
     (case config of
        None \<Rightarrow> Inr None
      | Some c \<Rightarrow>
          if c = [] then Inr None
          else case read_strategy c of
                 None \<Rightarrow> Inl (HTTPException 422)
               | Some strategy \<Rightarrow>
                   if read_ttl c = PNone then Inr None
                   else (case py_float (read_ttl c) of
                           Inl TypeError \<Rightarrow> Inl (HTTPException 422)
                         | Inl ValueError \<Rightarrow> Inl (HTTPException 422)
                         | Inl e \<Rightarrow> Inl e
                         | Inr (Finite m) \<Rightarrow>
                             if m < 0 then Inl (HTTPException 422)
                             else (case add_minutes now m of
                                     Inl _ \<Rightarrow> Inl (HTTPException 422)
                                   | Inr _ \<Rightarrow> Inr (Some \<lparr>tc_strategy = strategy, tc_minutes = m\<rparr>))
                         | Inr _ \<Rightarrow> Inl (HTTPException 422)))"

text \<open>The dictionary form of a normalized configuration, as it is stored.\<close>

definition strategy_str :: "ttl_strategy \<Rightarrow> string" where
  "strategy_str s = (case s of TTLDelete \<Rightarrow> ''delete'' | TTLKeepLatest \<Rightarrow> ''keep_latest'')"

definition config_dict :: "ttl_config \<Rightarrow> dict" where
  "config_dict c =
     [(''strategy'', PStr (strategy_str (tc_strategy c))), (''ttl_minutes'', PFloat (tc_minutes c))]"

type_synonym ttl_store = "(string \<times> dict) list"

text \<open>\<open>glob\<close> is \<open>api_config.THREAD_TTL\<close>, the configuration of the server.\<close>

definition effective_thread_ttl ::
  "int \<Rightarrow> dict option \<Rightarrow> ttl_store \<Rightarrow> uuid \<Rightarrow> (ttl_config option \<times> dict) res" where
  "effective_thread_ttl now glob ttls thread_id =
     (let state = dict_get ttls (uuid_str thread_id) [];
          config =
            (case map_of state ''ttl_minutes'' of
               Some m \<Rightarrow>
                 normalize_ttl_config now
                   (Some [(''strategy'', dict_get state ''strategy'' (PStr ''delete'')), (''ttl_minutes'', m)])
             | None \<Rightarrow> normalize_ttl_config now glob)
      in res_bind config (\<lambda>c. Inr (c, state)))"

definition set_thread_ttl_override :: "int \<Rightarrow> uuid \<Rightarrow> dict \<Rightarrow> ttl_store \<Rightarrow> ttl_store res" where
  "set_thread_ttl_override now thread_id ttl ttls =
     res_bind (normalize_ttl_config now (Some ttl)) (\<lambda>normalized.
       Inr (case normalized of
              None \<Rightarrow> AList.delete (uuid_str thread_id) ttls
            | Some c \<Rightarrow> AList.update (uuid_str thread_id) (config_dict c) ttls))"

text \<open>The marker of a thread whose state was already pruned: \<open>last_swept is not None and
  _as_utc(last_swept) >= updated_at\<close>.\<close>

definition already_pruned :: "dict \<Rightarrow> int \<Rightarrow> bool" where
  "already_pruned state updated_at =
     (case map_of state ''last_swept_updated_at'' of Some (PDatetime t) \<Rightarrow> t \<ge> updated_at | _ \<Rightarrow> False)"

record ttl_info =
  ti_strategy :: ttl_strategy
  ti_minutes :: rat
  ti_expires_at :: "int option"

definition thread_ttl_info :: "int \<Rightarrow> ttl_config \<Rightarrow> dict \<Rightarrow> ttl_info res" where
  "thread_ttl_info updated_at config state =
     (if already_pruned state updated_at \<and> tc_strategy config = TTLKeepLatest
      then Inr \<lparr>ti_strategy = tc_strategy config, ti_minutes = tc_minutes config, ti_expires_at = None\<rparr>
      else res_bind (add_minutes updated_at (tc_minutes config)) (\<lambda>t.
             Inr \<lparr>ti_strategy = tc_strategy config, ti_minutes = tc_minutes config, ti_expires_at = Some t\<rparr>))"

section \<open>The sweep loop\<close>

text \<open>
  What \<open>thread_ttl_sweep_loop\<close> computes before its first sleep: the interval in seconds, at least a
  tenth, or the exception that keeps the loop from starting.
\<close>

definition sweep_interval_seconds :: "dict \<Rightarrow> rat res" where
  "sweep_interval_seconds config =
     (case read_strategy config of
        None \<Rightarrow> Inl ValueError
      | Some _ \<Rightarrow>
          (case py_float (dict_get config ''sweep_interval_minutes'' (PInt 5)) of
             Inl TypeError \<Rightarrow> Inl ValueError
           | Inl ValueError \<Rightarrow> Inl ValueError
           | Inl e \<Rightarrow> Inl e
           | Inr (Finite m) \<Rightarrow> if m < 0 then Inl ValueError else Inr (max (m * 60) (1 / 10))
           | Inr _ \<Rightarrow> Inl ValueError))"

text \<open>The loop, given how each sweep ends: a failure is logged and the loop goes on, a cancellation is
  raised again. The number of sweeps that were run, and whether the loop is still running.\<close>

datatype sweep_outcome = SweepCompleted | SweepFailed exn | SweepCancelled

fun thread_sweep_loop :: "sweep_outcome list \<Rightarrow> nat \<times> bool" where
  "thread_sweep_loop [] = (0, True)"
| "thread_sweep_loop (SweepCancelled # os) = (1, False)"
| "thread_sweep_loop (_ # os) = (case thread_sweep_loop os of (n, running) \<Rightarrow> (Suc n, running))"

section \<open>Lemmas\<close>

lemma only_cancellation_ends: "thread_sweep_loop os = (n, r) \<Longrightarrow> r \<longleftrightarrow> SweepCancelled \<notin> set os"
  by (induction os arbitrary: n rule: thread_sweep_loop.induct) (auto split: prod.splits)

lemma py_lower_strategy [simp]: "py_lower (strategy_str s) = strategy_str s"
  by (cases s) (simp_all add: strategy_str_def py_lower_def lower_char_def)

lemma read_strategy_str:
  "map_of d ''strategy'' = Some (PStr (strategy_str s)) \<Longrightarrow> read_strategy d = Some s"
  by (cases s) (simp_all add: read_strategy_def dict_get_def, simp_all add: strategy_str_def)

text \<open>What a normalization that succeeds guarantees.\<close>

lemma normalize_SomeD:
  assumes "normalize_ttl_config now c = Inr (Some t)"
  shows "0 \<le> tc_minutes t" and "\<exists>u. add_minutes now (tc_minutes t) = Inr u"
  using assms
  by (auto simp: normalize_ttl_config_def split: option.splits if_splits sum.splits exn.splits pyfloat.splits)

lemma normalize_config_dict:
  assumes "normalize_ttl_config now c = Inr (Some t)"
  shows "normalize_ttl_config now (Some (config_dict t)) = Inr (Some t)"
proof -
  obtain u where "add_minutes now (tc_minutes t) = Inr u" "0 \<le> tc_minutes t"
    using normalize_SomeD [OF assms] by blast
  then show ?thesis
    by (simp add: normalize_ttl_config_def config_dict_def read_strategy_str read_ttl_def dict_get_def
        py_float_def)
qed

text \<open>A per-thread TTL override that is accepted is the thread's effective TTL: reading it back
  gives the strategy and the minutes that were validated, whatever the server's own configuration,
  and its expiry can always be computed from the time it was set.\<close>

theorem ttl_override_effective:
  assumes "normalize_ttl_config now (Some ttl) = Inr (Some t)"
    and "set_thread_ttl_override now thread_id ttl ttls = Inr ttls'"
  shows "effective_thread_ttl now glob ttls' thread_id = Inr (Some t, config_dict t) \<and>
    0 \<le> tc_minutes t \<and> (\<exists>u. add_minutes now (tc_minutes t) = Inr u)"
proof -
  have ttls': "ttls' = AList.update (uuid_str thread_id) (config_dict t) ttls"
    using assms by (simp add: set_thread_ttl_override_def res_bind_def)
  have keys: "map_of (config_dict t) ''ttl_minutes'' = Some (PFloat (tc_minutes t))"
    "dict_get (config_dict t) ''strategy'' (PStr ''delete'') = PStr (strategy_str (tc_strategy t))"
    by (simp_all add: config_dict_def dict_get_def)
  have "[(''strategy'', PStr (strategy_str (tc_strategy t))), (''ttl_minutes'', PFloat (tc_minutes t))] = config_dict t"
    by (simp add: config_dict_def)
  then have "effective_thread_ttl now glob ttls' thread_id = Inr (Some t, config_dict t)"
    using normalize_config_dict [OF assms(1)]
    by (simp add: effective_thread_ttl_def Let_def ttls' dict_simps keys res_bind_def)
  with normalize_SomeD [OF assms(1)] show ?thesis by blast
qed

theorem ttl_override_effective_witness:
  "effective_thread_ttl 0 None
     (AList.update (uuid_str 7) (config_dict \<lparr>tc_strategy = TTLKeepLatest, tc_minutes = 3 / 2\<rparr>) []) 7 =
   Inr (Some \<lparr>tc_strategy = TTLKeepLatest, tc_minutes = 3 / 2\<rparr>,
        config_dict \<lparr>tc_strategy = TTLKeepLatest, tc_minutes = 3 / 2\<rparr>)"
proof -
  let ?ttl = "[(''strategy'', PStr ''Keep_Latest''), (''ttl'', PStr '' 1.5 '')]"
  have n: "normalize_ttl_config 0 (Some ?ttl) = Inr (Some \<lparr>tc_strategy = TTLKeepLatest, tc_minutes = 3 / 2\<rparr>)"
    by code_simp
  then have "set_thread_ttl_override 0 7 ?ttl [] =
      Inr (AList.update (uuid_str 7) (config_dict \<lparr>tc_strategy = TTLKeepLatest, tc_minutes = 3 / 2\<rparr>) [])"
    by (simp add: set_thread_ttl_override_def res_bind_def)
  from ttl_override_effective [OF n this] show ?thesis by blast
qed



end
