(* ===== verification/Ops_State.thy ===== *)
theory Ops_State
  imports Filters Thread_TTL Checkpoint Stream
begin

text \<open>
  The state the operations of \<open>ops.py\<close> work on (\<open>database.py\<close>): the tables of the global store, the
  retry counters, the built-in checkpoint saver, the stream manager and the set of threads under
  TTL maintenance. A row is a record; a key that may be missing from the Python dictionary is an
  option field.

  An operation maps the state to a result and the state it leaves, the one it had reached when it
  raised included. Between two awaits the event loop runs an operation alone; each definition is
  the whole operation run without another one in between. What the server gets from
  \<open>langgraph_api\<close> and \<open>langgraph\<close> is the environment \<^emph>\<open>env\<close>: the authorization handler, the
  serializer and the base class of the saver, the stream codec, the TTL configuration, the graph
  registry and the cron arithmetic. The custom checkpointer (\<open>USE_CUSTOM_CHECKPOINTER\<close>) is off.
\<close>

section \<open>Rows\<close>

datatype thread_status = TIdle | TBusy | TInterrupted | TError

datatype run_status = RPending | RRunning | RSuccess | RFailed | RTimeout | RInterrupted

datatype multitask = MReject | MInterrupt | MRollback | MEnqueue

datatype if_exists = IfRaise | IfDoNothing

record thread =
  t_id :: uuid
  t_created_at :: int
  t_updated_at :: int
  t_state_updated_at :: "int option"
  t_metadata :: dict
  t_status :: thread_status
  t_config :: dict
  t_values :: "pyval option"
  t_interrupts :: "dict option"
  t_error :: "pyval option"

record run =
  r_id :: uuid
  r_thread :: uuid
  r_assistant :: uuid
  r_metadata :: dict
  r_status :: run_status
  r_kwargs :: dict
  r_multitask :: multitask
  r_created_at :: int
  r_updated_at :: int

record assistant =
  a_id :: uuid
  a_graph_id :: string
  a_config :: dict
  a_context :: "dict option"
  a_metadata :: dict
  a_name :: string
  a_created_at :: int
  a_updated_at :: int
  a_version :: int
  a_description :: "string option"

record assistant_version =
  v_assistant :: uuid
  v_version :: int
  v_graph_id :: string
  v_config :: dict
  v_context :: dict
  v_metadata :: dict
  v_created_at :: int
  v_name :: "string option"
  v_description :: "string option option"

record cron =
  c_id :: uuid
  c_assistant :: uuid
  c_thread :: "uuid option"
  c_user :: "string option"
  c_end_time :: "int option"
  c_schedule :: string
  c_timezone :: "string option"
  c_payload :: dict
  c_next_run :: int
  c_metadata :: dict
  c_on_run_completed :: "string option"
  c_enabled :: bool
  c_created_at :: int
  c_updated_at :: int

section \<open>The environment\<close>

datatype auth_resource = AThreads | AAssistants | ACrons

datatype auth_action = ACreate | ARead | AUpdate | ADelete | ASearch | ACreateRun

record auth_request =
  aq_resource :: auth_resource
  aq_action :: auth_action
  aq_id :: "uuid option"
  aq_metadata :: dict

text \<open>
  A handler may raise, returns a filter or nothing, and may change the metadata of the request in
  place: it returns the metadata as it leaves it. Without an authentication context no handler is
  called, which is a handler that returns \<open>None\<close> and leaves the metadata alone.
\<close>

type_synonym auth = "auth_request \<Rightarrow> (dict option \<times> dict) res"

record env =
  e_auth :: auth
  e_versions :: "typed \<Rightarrow> (string \<times> version) list"
  e_meta :: "typed \<Rightarrow> pyval"
  e_str :: "pyval \<Rightarrow> string"
  e_base_delete :: base_delete_thread
  e_codec :: codec
  e_thread_ttl :: "dict option"
  e_assert_graph_exists :: "string \<Rightarrow> unit res"
  e_get_assistant_id :: "pyval \<Rightarrow> pyval"
  e_system_assistants :: "pyval list"
  e_cron_valid :: "string \<Rightarrow> bool"
  e_next_cron :: "string \<Rightarrow> int \<Rightarrow> string option \<Rightarrow> int"
  e_patch_interrupt :: "pyval \<Rightarrow> pyval"
  e_clock :: "nat \<Rightarrow> int"
  e_uuid4 :: "nat \<Rightarrow> uuid"

text \<open>The filters a handler returns for a request.\<close>

definition handle_event :: "env \<Rightarrow> auth_resource \<Rightarrow> auth_action \<Rightarrow> uuid option \<Rightarrow> dict \<Rightarrow> (dict option \<times> dict) res" where
  "handle_event env resource action i metadata =
     e_auth env \<lparr>aq_resource = resource, aq_action = action, aq_id = i, aq_metadata = metadata\<rparr>"

definition auth_filters :: "env \<Rightarrow> auth_resource \<Rightarrow> auth_action \<Rightarrow> uuid option \<Rightarrow> dict option res" where
  "auth_filters env resource action i =
     res_bind (handle_event env resource action i []) (\<lambda>(f, _). Inr f)"

section \<open>The state\<close>

record sys =
  s_assistants :: "assistant list"
  s_versions :: "assistant_version list"
  s_threads :: "thread list"
  s_runs :: "run list"
  s_crons :: "cron list"
  s_ttls :: ttl_store
  s_retries :: "(uuid \<times> int) list"
  s_saver :: saver
  s_stream :: stream
  s_maint :: "string list"
  s_clock :: nat
  s_fresh :: nat

type_synonym 'a act = "sys \<Rightarrow> 'a res \<times> sys"

definition ret :: "'a \<Rightarrow> 'a act" where
  "ret a s = (Inr a, s)"

definition raise :: "exn \<Rightarrow> 'a act" where
  "raise e s = (Inl e, s)"

definition bind :: "'a act \<Rightarrow> ('a \<Rightarrow> 'b act) \<Rightarrow> 'b act" where
  "bind m f s = (case m s of (Inl e, s') \<Rightarrow> (Inl e, s') | (Inr a, s') \<Rightarrow> f a s')"

definition lift_res :: "'a res \<Rightarrow> 'a act" where
  "lift_res r s = (r, s)"

definition modify :: "(sys \<Rightarrow> sys) \<Rightarrow> unit act" where
  "modify f s = (Inr (), f s)"

definition reads :: "(sys \<Rightarrow> 'a) \<Rightarrow> 'a act" where
  "reads f s = (Inr (f s), s)"

definition when_act :: "bool \<Rightarrow> unit act \<Rightarrow> unit act" where
  "when_act b m = (if b then m else ret ())"

text \<open>\<open>try: m except HTTPException: h\<close>.\<close>

definition catch_http :: "'a act \<Rightarrow> (nat \<Rightarrow> 'a act) \<Rightarrow> 'a act" where
  "catch_http m h s = (case m s of (Inl (HTTPException c), s') \<Rightarrow> h c s' | r \<Rightarrow> r)"

fun each_act :: "('a \<Rightarrow> unit act) \<Rightarrow> 'a list \<Rightarrow> unit act" where
  "each_act f [] = ret ()"
| "each_act f (x # xs) = bind (f x) (\<lambda>_. each_act f xs)"

text \<open>
  \<open>datetime.now(UTC)\<close> is the next reading of the environment's clock, which need not be monotone,
  and \<open>uuid4()\<close> or \<open>uuid7()\<close> the next of its random ids.
\<close>

definition datetime_now :: "env \<Rightarrow> int act" where
  "datetime_now env s = (Inr (e_clock env (s_clock s)), s\<lparr>s_clock := Suc (s_clock s)\<rparr>)"

definition uuid4 :: "env \<Rightarrow> uuid act" where
  "uuid4 env s = (Inr (e_uuid4 env (s_fresh s)), s\<lparr>s_fresh := Suc (s_fresh s)\<rparr>)"

lemmas act_defs = datetime_now_def uuid4_def ret_def raise_def bind_def lift_res_def modify_def reads_def when_act_def catch_http_def

section \<open>Global store\<close>

text \<open>\<open>GlobalStore.clear\<close>: everything but the assistants the system created.\<close>

definition system_created :: "dict \<Rightarrow> bool" where
  "system_created metadata = (map_of metadata ''created_by'' = Some (PStr ''system''))"

definition store_clear :: "sys \<Rightarrow> sys" where
  "store_clear s =
     s\<lparr>s_runs := [], s_threads := [], s_assistants := filter (\<lambda>a. system_created (a_metadata a)) (s_assistants s),
       s_versions := [], s_crons := [], s_ttls := []\<rparr>"

definition conn_clear :: "sys \<Rightarrow> sys" where
  "conn_clear s = (store_clear s)\<lparr>s_retries := []\<rparr>"

text \<open>\<open>InMemoryRetryCounter.increment\<close>: a dictionary with default 0.\<close>

definition retry_increment :: "uuid \<Rightarrow> sys \<Rightarrow> int \<times> sys" where
  "retry_increment run_id s =
     (let n = dict_get (s_retries s) run_id 0 + 1
      in (n, s\<lparr>s_retries := AList.update run_id n (s_retries s)\<rparr>))"

text \<open>
  The loop of \<open>start_pool\<close> over the loaded assistants removes from the list it iterates over: the
  iterator keeps its index, so that the element after a removed one is skipped. \<open>remove(a)\<close>
  removes the first element equal to \<open>a\<close>; \<open>i\<close> is the index, and the loop ends when it passes the
  end of the list.
\<close>

definition fill_context :: "assistant \<Rightarrow> assistant" where
  "fill_context a = (case a_context a of None \<Rightarrow> a\<lparr>a_context := Some []\<rparr> | Some _ \<Rightarrow> a)"

function purge_loop :: "nat \<Rightarrow> assistant list \<Rightarrow> assistant list" where
  "purge_loop i as =
     (if i < length as then
        (if system_created (a_metadata (as ! i))
         then purge_loop (Suc i) (remove1 (as ! i) as)
         else purge_loop (Suc i) (as[i := fill_context (as ! i)]))
      else as)"
  by pat_completeness auto

termination
  by (relation "measure (\<lambda>(i, as). length as - i)") (auto simp: length_remove1)

declare purge_loop.simps [simp del]

text \<open>\<open>start_pool\<close> on the loaded store: the tables exist, the loop runs, and the stream manager
  starts.\<close>

definition start_pool :: "env \<Rightarrow> sys \<Rightarrow> sys" where
  "start_pool env s =
     s\<lparr>s_assistants := purge_loop 0 (s_assistants s), s_stream := start_stream (e_codec env) (s_stream s)\<rparr>"

text \<open>\<open>stop_pool\<close>: what it does to the state of the process, once the files are written.\<close>

definition stop_pool :: "env \<Rightarrow> sys \<Rightarrow> sys" where
  "stop_pool env s = s\<lparr>s_stream := stop_stream (e_codec env) (s_stream s)\<rparr>"

section \<open>Checkpoints of a thread\<close>

definition delete_checkpoints_for_thread :: "env \<Rightarrow> uuid \<Rightarrow> uuid option \<Rightarrow> unit act" where
  "delete_checkpoints_for_thread env thread_id run_id s =
     (case run_id of
        None \<Rightarrow>
          (Inr (), s\<lparr>s_saver := saver_delete_thread (e_base_delete env) (IdStr (uuid_str thread_id)) (s_saver s)\<rparr>)
      | Some r \<Rightarrow>
          (case delete_for_runs (e_versions env) (e_meta env) (e_str env) [IdStr (uuid_str r)] (s_saver s) of
             Inl e \<Rightarrow> (Inl e, s)
           | Inr sv \<Rightarrow> (Inr (), s\<lparr>s_saver := sv\<rparr>)))"

section \<open>Lemmas\<close>

text \<open>
  What an action keeps: a property of the state that holds before it and after it, whether it
  returns or raises. With the property \<open>\<lambda>s. f s = c\<close> it is a frame condition.
\<close>

definition keeps :: "(sys \<Rightarrow> bool) \<Rightarrow> 'a act \<Rightarrow> bool" where
  "keeps I m \<longleftrightarrow> (\<forall>s. I s \<longrightarrow> I (snd (m s)))"

named_theorems keeps_rules \<open>which actions keep a property of the state\<close>

lemma keepsI: "(\<And>s. I s \<Longrightarrow> I (snd (m s))) \<Longrightarrow> keeps I m"
  by (simp add: keeps_def)

lemma keepsD: "keeps I m \<Longrightarrow> I s \<Longrightarrow> I (snd (m s))"
  by (simp add: keeps_def)

lemma keeps_pure [keeps_rules]: "keeps I (ret a)" "keeps I (raise e)" "keeps I (lift_res r)" "keeps I (reads f)"
  by (simp_all add: keeps_def act_defs)

lemma keeps_bind [keeps_rules]: "keeps I m \<Longrightarrow> (\<And>a. keeps I (f a)) \<Longrightarrow> keeps I (bind m f)"
  by (auto simp: keeps_def bind_def split: prod.splits sum.splits)

lemma keeps_modify [keeps_rules]: "(\<And>s. I s \<Longrightarrow> I (f s)) \<Longrightarrow> keeps I (modify f)"
  by (simp add: keeps_def modify_def)

lemma keeps_when [keeps_rules]: "(b \<Longrightarrow> keeps I m) \<Longrightarrow> keeps I (when_act b m)"
  by (simp add: keeps_def when_act_def ret_def)

lemma keeps_catch [keeps_rules]: "keeps I m \<Longrightarrow> (\<And>c. keeps I (h c)) \<Longrightarrow> keeps I (catch_http m h)"
  by (auto simp: keeps_def catch_http_def split: prod.splits sum.splits exn.splits)

lemma keeps_each [keeps_rules]: "(\<And>x. keeps I (f x)) \<Longrightarrow> keeps I (each_act f xs)"
  by (induction xs) (simp_all add: keeps_rules)

lemma keeps_ticks [keeps_rules]:
  "(\<And>s n. I s \<Longrightarrow> I (s\<lparr>s_clock := n\<rparr>)) \<Longrightarrow> keeps I (datetime_now env)"
  "(\<And>s n. I s \<Longrightarrow> I (s\<lparr>s_fresh := n\<rparr>)) \<Longrightarrow> keeps I (uuid4 env)"
  by (simp_all add: keeps_def act_defs)

lemma keeps_if [keeps_rules]: "(b \<Longrightarrow> keeps I m) \<Longrightarrow> (\<not> b \<Longrightarrow> keeps I n) \<Longrightarrow> keeps I (if b then m else n)"
  by simp

lemma keeps_option [keeps_rules]:
  "(x = None \<Longrightarrow> keeps I m) \<Longrightarrow> (\<And>a. x = Some a \<Longrightarrow> keeps I (f a)) \<Longrightarrow> keeps I (case x of None \<Rightarrow> m | Some a \<Rightarrow> f a)"
  by (cases x) auto

text \<open>Removing the first element that satisfies a predicate (the object \<open>next\<close> found).\<close>

fun remove_first :: "('a \<Rightarrow> bool) \<Rightarrow> 'a list \<Rightarrow> 'a list" where
  "remove_first p [] = []"
| "remove_first p (x # xs) = (if p x then xs else x # remove_first p xs)"

lemma remove_first_distinct:
  "distinct (map f xs) \<Longrightarrow> remove_first (\<lambda>x. f x = k) xs = filter (\<lambda>x. f x \<noteq> k) xs"
proof (induction xs)
  case (Cons x xs)
  then show ?case
  proof (cases "f x = k")
    case True
    then have "\<forall>y \<in> set xs. f y \<noteq> k"
      using Cons.prems by (metis distinct.simps(2) image_eqI list.simps(9) set_map)
    with True show ?thesis by (simp add: filter_id_conv)
  qed (use Cons in simp)
qed simp

lemma set_remove_first: "set (remove_first p xs) \<subseteq> set xs"
  by (induction xs) auto

text \<open>The purge of the system's assistants when the server starts is incomplete: removing from
  the list while iterating over it skips the next element, so that of two adjacent system-created
  assistants the second one survives.\<close>

theorem start_pool_skips_assistants:
  assumes "system_created (a_metadata a)" and "system_created (a_metadata b)" and "s_assistants s = [a, b]"
  shows "s_assistants (start_pool env s) = [b]"
  using assms by (simp add: start_pool_def purge_loop.simps [of 0] purge_loop.simps [of "Suc 0"])

definition demo_assistant :: "uuid \<Rightarrow> assistant" where
  "demo_assistant i =
     \<lparr>a_id = i, a_graph_id = ''g'', a_config = [], a_context = Some [],
      a_metadata = [(''created_by'', PStr ''system'')], a_name = ''n'', a_created_at = 0, a_updated_at = 0,
      a_version = 1, a_description = None\<rparr>"

definition demo_delete_thread :: base_delete_thread where
  "demo_delete_thread t s =
     s\<lparr>cp_storage := AList.delete t (cp_storage s), cp_writes := filter (\<lambda>(k, g). fst k \<noteq> t) (cp_writes s),
       cp_blobs := filter (\<lambda>(k, b). fst k \<noteq> t) (cp_blobs s)\<rparr>"

lemma demo_delete_thread_law: "base_delete_thread_law demo_delete_thread"
  by (simp add: base_delete_thread_law_def demo_delete_thread_def)

definition demo_env :: env where
  "demo_env =
     \<lparr>e_auth = (\<lambda>q. Inr (None, aq_metadata q)), e_versions = (\<lambda>_. []), e_meta = (\<lambda>_. PDict []),
      e_str = (\<lambda>_. []), e_base_delete = demo_delete_thread, e_codec = (\<lambda>e d. e @ d), e_thread_ttl = None,
      e_assert_graph_exists = (\<lambda>_. Inr ()), e_get_assistant_id = id, e_system_assistants = [], e_cron_valid = (\<lambda>s. s \<noteq> []),
      e_next_cron = (\<lambda>s t z. t + 60), e_patch_interrupt = id, e_clock = int, e_uuid4 = of_nat\<rparr>"

definition empty_sys :: sys where
  "empty_sys =
     \<lparr>s_assistants = [], s_versions = [], s_threads = [], s_runs = [], s_crons = [], s_ttls = [], s_retries = [],
      s_saver = \<lparr>cp_storage = [], cp_writes = [], cp_blobs = [], cp_size = new_size_state\<rparr>,
      s_stream = new_stream (\<lambda>_. []) 0 (init_ids (\<lambda>_. 1)), s_maint = [], s_clock = 0, s_fresh = 0\<rparr>"

theorem start_pool_skips_assistants_witness:
  "s_assistants (start_pool demo_env (empty_sys\<lparr>s_assistants := [demo_assistant 1, demo_assistant 2]\<rparr>)) =
     [demo_assistant 2]"
  by (rule start_pool_skips_assistants) (simp_all add: demo_assistant_def system_created_def)

end
