(* ===== verification/Threads.thy ===== *)
theory Threads
  imports Ops_State "HOL-Library.Product_Lexorder"
begin

text \<open>
  The class \<open>Threads\<close> of \<open>ops.py\<close>: search and count, get, put, patch, the status updates a worker
  makes, delete with its cascade, prune, copy and the TTL sweep. \<open>Threads.State\<close> and
  \<open>Threads.Stream\<close> have theories of their own; What a search yields of a row
  (\<open>select\<close>, \<open>extract\<close>) is in \<open>Projection\<close>.
\<close>

section \<open>Reading\<close>

text \<open>\<open>thread.setdefault("state_updated_at", thread.get("updated_at"))\<close>.\<close>

definition state_time :: "thread \<Rightarrow> int" where
  "state_time t = (case t_state_updated_at t of None \<Rightarrow> t_updated_at t | Some x \<Rightarrow> x)"

definition with_state_time :: "thread \<Rightarrow> thread" where
  "with_state_time t = t\<lparr>t_state_updated_at := Some (state_time t)\<rparr>"

definition find_thread :: "uuid \<Rightarrow> thread list \<Rightarrow> thread option" where
  "find_thread thread_id ts = find (\<lambda>t. t_id t = thread_id) ts"

text \<open>\<open>set_thread i f\<close> is an in-place change of the row \<open>next(...)\<close> found.\<close>

definition set_thread :: "uuid \<Rightarrow> (thread \<Rightarrow> thread) \<Rightarrow> sys \<Rightarrow> sys" where
  "set_thread thread_id f s = s\<lparr>s_threads := update_first (\<lambda>t. t_id t = thread_id) f (s_threads s)\<rparr>"

definition thread_matches ::
  "dict option \<Rightarrow> dict \<Rightarrow> dict \<Rightarrow> thread_status option \<Rightarrow> thread \<Rightarrow> bool res" where
  "thread_matches filters metadata values status t =
     res_bind (allowed (t_metadata t) filters) (\<lambda>ok.
       if \<not> ok then Inr False
       else if \<not> is_jsonb_contained (t_metadata t) metadata then Inr False
       else res_bind
              (case t_values t of
                 None \<Rightarrow> Inr True
               | Some v \<Rightarrow> if values = [] then Inr True else contained_in v values) (\<lambda>ok.
              if \<not> ok then Inr False
              else Inr (case status of None \<Rightarrow> True | Some st \<Rightarrow> t_status t = st)))"

text \<open>The loop of the search: the rows that match, and the table with their state times set; an
  exception leaves the rows before it changed.\<close>

fun search_loop :: "(thread \<Rightarrow> bool res) \<Rightarrow> thread list \<Rightarrow> thread list res \<times> thread list" where
  "search_loop p [] = (Inr [], [])"
| "search_loop p (t # ts) =
     (case p t of
        Inl e \<Rightarrow> (Inl e, t # ts)
      | Inr b \<Rightarrow>
          (case search_loop p ts of (r, ts') \<Rightarrow>
             if b then (res_bind r (\<lambda>m. Inr (with_state_time t # m)), with_state_time t # ts')
             else (r, t # ts')))"

definition status_name :: "thread_status \<Rightarrow> string" where
  "status_name st =
     (case st of TIdle \<Rightarrow> ''idle'' | TBusy \<Rightarrow> ''busy'' | TInterrupted \<Rightarrow> ''interrupted'' | TError \<Rightarrow> ''error'')"

definition sort_rows :: "bool \<Rightarrow> ('a \<Rightarrow> 'b :: linorder) \<Rightarrow> 'a list \<Rightarrow> 'a list" where
  "sort_rows reverse f xs = (if reverse then sort_desc f xs else sort_key f xs)"

definition upper_asc :: "string \<Rightarrow> bool" where
  "upper_asc s = (py_lower s = ''asc'')"

definition sort_reverse :: "string option \<Rightarrow> bool" where
  "sort_reverse sort_order = (case sort_order of None \<Rightarrow> True | Some s \<Rightarrow> \<not> upper_asc s)"

definition sort_threads :: "string option \<Rightarrow> string option \<Rightarrow> thread list \<Rightarrow> thread list" where
  "sort_threads sort_by sort_order ts =
     (let rev = sort_reverse sort_order in
      if sort_by = Some ''thread_id'' then sort_rows rev t_id ts
      else if sort_by = Some ''created_at'' then sort_rows rev t_created_at ts
      else if sort_by = Some ''updated_at'' then sort_rows rev t_updated_at ts
      else if sort_by = Some ''state_updated_at'' then sort_rows rev state_time ts
      else if sort_by = Some ''status'' then sort_rows rev (\<lambda>t. status_name (t_status t)) ts
      else sort_desc t_updated_at ts)"

text \<open>\<open>sorted_xs[offset : offset + limit]\<close> and the cursor.\<close>

definition paginate :: "nat \<Rightarrow> nat \<Rightarrow> 'a list \<Rightarrow> 'a list \<times> nat option" where
  "paginate offset limit xs =
     (py_slice offset limit xs, if length xs > offset + limit then Some (offset + limit) else None)"

fun parse_ids :: "id_arg list \<Rightarrow> uuid list res" where
  "parse_ids [] = Inr []"
| "parse_ids (i # ids) =
     (case ensure_uuid i of
        Inl _ \<Rightarrow> Inl (HTTPException 400)
      | Inr u \<Rightarrow> res_bind (parse_ids ids) (\<lambda>us. Inr (u # us)))"

definition threads_search ::
  "env \<Rightarrow> id_arg list option \<Rightarrow> dict option \<Rightarrow> dict option \<Rightarrow> thread_status option \<Rightarrow> nat \<Rightarrow> nat
     \<Rightarrow> string option \<Rightarrow> string option \<Rightarrow> (thread list \<times> nat option) act" where
  "threads_search env ids metadata values status limit offset sort_by sort_order =
     (let metadata = (case metadata of None \<Rightarrow> [] | Some m \<Rightarrow> m);
          values = (case values of None \<Rightarrow> [] | Some v \<Rightarrow> v) in
      bind (lift_res (handle_event env AThreads ASearch None metadata)) (\<lambda>(filters, metadata).
      bind (lift_res (case ids of
                        None \<Rightarrow> Inr None
                      | Some [] \<Rightarrow> Inr None
                      | Some is \<Rightarrow> res_bind (parse_ids is) (\<lambda>us. Inr (Some us)))) (\<lambda>id_set.
      bind (\<lambda>s. case search_loop
                    (\<lambda>t. if (case id_set of None \<Rightarrow> False | Some us \<Rightarrow> t_id t \<notin> set us) then Inr False
                         else thread_matches filters metadata values status t)
                    (s_threads s) of
                  (r, ts) \<Rightarrow> (r, s\<lparr>s_threads := ts\<rparr>)) (\<lambda>filtered.
        ret (paginate offset limit (sort_threads sort_by sort_order filtered))))))"

fun count_loop :: "('a \<Rightarrow> bool res) \<Rightarrow> 'a list \<Rightarrow> nat res" where
  "count_loop p [] = Inr 0"
| "count_loop p (t # ts) =
     res_bind (p t) (\<lambda>b. res_bind (count_loop p ts) (\<lambda>n. Inr (if b then Suc n else n)))"

definition threads_count ::
  "env \<Rightarrow> dict option \<Rightarrow> dict option \<Rightarrow> thread_status option \<Rightarrow> nat act" where
  "threads_count env metadata values status =
     (let metadata = (case metadata of None \<Rightarrow> [] | Some m \<Rightarrow> m);
          values = (case values of None \<Rightarrow> [] | Some v \<Rightarrow> v) in
      bind (lift_res (handle_event env AThreads ASearch None metadata)) (\<lambda>(filters, metadata).
      bind (reads s_threads) (\<lambda>ts.
        lift_res (count_loop (thread_matches filters metadata values status) ts))))"

definition get_with_filters :: "uuid \<Rightarrow> dict option \<Rightarrow> thread option act" where
  "get_with_filters thread_id filters =
     bind (reads s_threads) (\<lambda>ts.
       case find_thread thread_id ts of
         None \<Rightarrow> ret None
       | Some t \<Rightarrow>
           bind (lift_res (allowed (t_metadata t) filters)) (\<lambda>ok.
             if \<not> ok then ret None
             else bind (modify (set_thread thread_id with_state_time)) (\<lambda>_. ret (Some (with_state_time t)))))"

definition threads_get_opt :: "env \<Rightarrow> uuid \<Rightarrow> thread option act" where
  "threads_get_opt env thread_id =
     bind (lift_res (auth_filters env AThreads ARead (Some thread_id))) (get_with_filters thread_id)"

definition threads_get :: "env \<Rightarrow> uuid \<Rightarrow> bool \<Rightarrow> (thread \<times> ttl_info option) act" where
  "threads_get env thread_id include_ttl =
     bind (threads_get_opt env thread_id) (\<lambda>r.
       case r of
         None \<Rightarrow> raise (HTTPException 404)
       | Some t \<Rightarrow>
           if \<not> include_ttl then ret (t, None)
           else bind (datetime_now env) (\<lambda>now. bind (reads s_ttls) (\<lambda>ttls.
                bind (lift_res (effective_thread_ttl now (e_thread_ttl env) ttls thread_id)) (\<lambda>(config, state).
                  case config of
                    None \<Rightarrow> ret (t, None)
                  | Some c \<Rightarrow>
                      bind (lift_res (thread_ttl_info (t_updated_at t) c state)) (\<lambda>info. ret (t, Some info))))))"

section \<open>Creating and changing\<close>

text \<open>\<open>_set_thread_ttl_override(conn, thread_id, ttl)\<close> when \<open>ttl is not None\<close>.\<close>

definition override_ttl :: "env \<Rightarrow> uuid \<Rightarrow> dict option \<Rightarrow> unit act" where
  "override_ttl env thread_id ttl =
     (case ttl of
        None \<Rightarrow> ret ()
      | Some c \<Rightarrow>
          bind (datetime_now env) (\<lambda>now. bind (reads s_ttls) (\<lambda>ttls.
          bind (lift_res (set_thread_ttl_override now thread_id c ttls)) (\<lambda>ttls.
            modify (\<lambda>s. s\<lparr>s_ttls := ttls\<rparr>)))))"

definition new_thread :: "uuid \<Rightarrow> int \<Rightarrow> dict \<Rightarrow> pyval option \<Rightarrow> thread" where
  "new_thread thread_id now metadata values =
     \<lparr>t_id = thread_id, t_created_at = now, t_updated_at = now, t_state_updated_at = Some now,
      t_metadata = metadata, t_status = TIdle, t_config = [], t_values = values, t_interrupts = None,
      t_error = None\<rparr>"

definition append_thread :: "thread \<Rightarrow> sys \<Rightarrow> sys" where
  "append_thread t s = s\<lparr>s_threads := s_threads s @ [t]\<rparr>"

definition threads_put ::
  "env \<Rightarrow> uuid \<Rightarrow> dict option \<Rightarrow> if_exists \<Rightarrow> dict option \<Rightarrow> thread act" where
  "threads_put env thread_id metadata if_exists ttl =
     (let metadata = (case metadata of None \<Rightarrow> [] | Some m \<Rightarrow> m) in
      bind (lift_res (handle_event env AThreads ACreate (Some thread_id) metadata)) (\<lambda>(filters, metadata).
      bind (reads s_threads) (\<lambda>ts.
        case find_thread thread_id ts of
          Some t \<Rightarrow>
            bind (lift_res (allowed (t_metadata t) filters)) (\<lambda>ok.
              if \<not> ok then raise (HTTPException 409)
              else case if_exists of IfRaise \<Rightarrow> raise (HTTPException 409) | IfDoNothing \<Rightarrow> ret t)
        | None \<Rightarrow>
            bind (datetime_now env) (\<lambda>now.
              let t = new_thread thread_id now metadata (Some PNone)
              in bind (modify (append_thread t)) (\<lambda>_. bind (override_ttl env thread_id ttl) (\<lambda>_. ret t))))))"

definition threads_patch :: "env \<Rightarrow> uuid \<Rightarrow> dict \<Rightarrow> dict option \<Rightarrow> thread option act" where
  "threads_patch env thread_id metadata ttl =
     bind (reads s_threads) (\<lambda>ts.
       case find_thread thread_id ts of
         None \<Rightarrow> ret None
       | Some _ \<Rightarrow>
           bind (lift_res (handle_event env AThreads AUpdate (Some thread_id) metadata)) (\<lambda>(filters, metadata).
           bind (reads s_threads) (\<lambda>ts.
             case find_thread thread_id ts of
               None \<Rightarrow> ret None
             | Some t \<Rightarrow>
                 bind (lift_res (allowed (t_metadata t) filters)) (\<lambda>ok.
                   if \<not> ok then ret None
                   else bind (datetime_now env) (\<lambda>now.
                     let t' = (with_state_time t)\<lparr>t_metadata := dict_merge (t_metadata t) metadata, t_updated_at := now\<rparr>
                     in bind (modify (set_thread thread_id (\<lambda>_. t'))) (\<lambda>_.
                        bind (override_ttl env thread_id ttl) (\<lambda>_. ret (Some t'))))))))"

section \<open>Status\<close>

text \<open>The checkpoint a worker reports (\<open>next\<close>, \<open>values\<close> and the interrupts of each task), and an
  exception: whether it is a \<open>UserInterrupt\<close> or \<open>UserRollback\<close>, and its JSON form.\<close>

record checkpoint_payload =
  cpl_next :: "string list"
  cpl_values :: pyval
  cpl_tasks :: "(string \<times> pyval list option) list"

record run_exception =
  ex_user :: bool
  ex_json :: pyval

definition payload_interrupts :: "env \<Rightarrow> checkpoint_payload option \<Rightarrow> dict" where
  "payload_interrupts env checkpoint =
     (case checkpoint of
        None \<Rightarrow> []
      | Some c \<Rightarrow>
          dict_merge []
            (concat (map (\<lambda>(i, is). case is of
                 Some (x # xs) \<Rightarrow> [(i, PList (map (e_patch_interrupt env) (x # xs)))] | _ \<Rightarrow> [])
               (cpl_tasks c))))"

definition has_next :: "checkpoint_payload option \<Rightarrow> bool" where
  "has_next checkpoint = (case checkpoint of None \<Rightarrow> False | Some c \<Rightarrow> cpl_next c \<noteq> [])"

definition active_status :: "run_status \<Rightarrow> bool" where
  "active_status st = (st = RPending \<or> st = RRunning)"

definition has_active_runs :: "uuid \<Rightarrow> run list \<Rightarrow> bool" where
  "has_active_runs thread_id rs = (\<exists>r \<in> set rs. r_thread r = thread_id \<and> active_status (r_status r))"

definition base_status :: "bool \<Rightarrow> checkpoint_payload option \<Rightarrow> thread_status" where
  "base_status failed checkpoint =
     (if failed then TError else if has_next checkpoint then TInterrupted else TIdle)"

text \<open>\<open>thread.update(update)\<close>, where \<open>values\<close> is written when there is a checkpoint.\<close>

definition status_update ::
  "env \<Rightarrow> int \<Rightarrow> thread_status \<Rightarrow> checkpoint_payload option \<Rightarrow> run_exception option \<Rightarrow> thread \<Rightarrow> thread" where
  "status_update env now st checkpoint exception t =
     t\<lparr>t_updated_at := now, t_state_updated_at := Some now, t_status := st,
       t_interrupts := Some (payload_interrupts env checkpoint),
       t_error := Some (case exception of None \<Rightarrow> PNone | Some e \<Rightarrow> ex_json e),
       t_values := (case checkpoint of None \<Rightarrow> t_values t | Some c \<Rightarrow> Some (cpl_values c))\<rparr>"

definition threads_set_status ::
  "env \<Rightarrow> uuid \<Rightarrow> checkpoint_payload option \<Rightarrow> run_exception option \<Rightarrow> unit act" where
  "threads_set_status env thread_id checkpoint exception =
     bind (reads id) (\<lambda>s.
       case find_thread thread_id (s_threads s) of
         None \<Rightarrow> raise (HTTPException 404)
       | Some _ \<Rightarrow>
           let st = (if has_active_runs thread_id (s_runs s) then TBusy
                     else base_status (exception \<noteq> None) checkpoint)
           in bind (datetime_now env) (\<lambda>now.
                modify (set_thread thread_id (status_update env now st checkpoint exception))))"

section \<open>Deleting\<close>

definition drop_thread :: "env \<Rightarrow> uuid \<Rightarrow> unit act" where
  "drop_thread env thread_id =
     bind (delete_checkpoints_for_thread env thread_id None) (\<lambda>_.
       modify (\<lambda>s. s\<lparr>s_stream := stream_delete_thread (e_codec env) thread_id (s_stream s),
                     s_runs := filter (\<lambda>r. r_thread r \<noteq> thread_id) (s_runs s),
                     s_crons := filter (\<lambda>c. c_thread c \<noteq> Some thread_id) (s_crons s),
                     s_threads := remove_first (\<lambda>t. t_id t = thread_id) (s_threads s),
                     s_ttls := AList.delete (uuid_str thread_id) (s_ttls s)\<rparr>))"

definition threads_delete :: "env \<Rightarrow> uuid \<Rightarrow> uuid act" where
  "threads_delete env thread_id =
     bind (reads s_threads) (\<lambda>ts.
     bind (lift_res (auth_filters env AThreads ADelete (Some thread_id))) (\<lambda>filters.
       case find_thread thread_id ts of
         None \<Rightarrow> raise (HTTPException 404)
       | Some t \<Rightarrow>
           bind (lift_res (allowed (t_metadata t) filters)) (\<lambda>ok.
             if \<not> ok then raise (HTTPException 404)
             else bind (drop_thread env thread_id) (\<lambda>_. ret thread_id))))"

definition delete_with_run :: "env \<Rightarrow> uuid \<Rightarrow> uuid \<Rightarrow> uuid act" where
  "delete_with_run env thread_id run_id = threads_delete env thread_id"

section \<open>Pruning\<close>

text \<open>\<open>asyncio.gather\<close> of tasks that do not suspend: all of them run, and the first exception is
  the result.\<close>

fun gather_act :: "('a \<Rightarrow> 'b act) \<Rightarrow> 'a list \<Rightarrow> 'b list act" where
  "gather_act f [] s = (Inr [], s)"
| "gather_act f (x # xs) s =
     (case f x s of (r, s') \<Rightarrow>
        (case gather_act f xs s' of (rs, s'') \<Rightarrow>
           (res_bind r (\<lambda>a. res_bind rs (\<lambda>as. Inr (a # as))), s'')))"

definition aprune :: "env \<Rightarrow> id_arg list \<Rightarrow> string \<Rightarrow> unit act" where
  "aprune env thread_ids strategy s =
     (case saver_prune (e_versions env) (e_meta env) (e_base_delete env) thread_ids strategy (s_saver s) of
        Inl e \<Rightarrow> (Inl e, s)
      | Inr sv \<Rightarrow> (Inr (), s\<lparr>s_saver := sv\<rparr>))"

function batches :: "nat \<Rightarrow> 'a list \<Rightarrow> 'a list list" where
  "batches n xs = (if n = 0 \<or> xs = [] then [] else take n xs # batches n (drop n xs))"
  by pat_completeness auto

termination
  by (relation "measure (\<lambda>(n, xs). length xs)") auto

declare batches.simps [simp del]

fun prune_delete :: "env \<Rightarrow> id_arg list \<Rightarrow> nat \<Rightarrow> nat act" where
  "prune_delete env [] pruned = ret pruned"
| "prune_delete env (tid # tids) pruned =
     bind (catch_http
             (bind (lift_res (ensure_uuid tid)) (\<lambda>u. bind (threads_delete env u) (\<lambda>_. ret (Suc pruned))))
             (\<lambda>_. ret pruned))
       (prune_delete env tids)"

fun prune_batches :: "env \<Rightarrow> id_arg list list \<Rightarrow> nat \<Rightarrow> nat act" where
  "prune_batches env [] pruned = ret pruned"
| "prune_batches env (b # bs) pruned =
     bind (aprune env b ''keep_latest'') (\<lambda>_. prune_batches env bs (pruned + length b))"

definition prune_ordered_ids :: "id_arg list \<Rightarrow> thread list \<Rightarrow> id_arg list" where
  "prune_ordered_ids thread_ids ts =
     map (\<lambda>i. IdStr (id_str i)) (filter (\<lambda>i. id_str i \<in> set (map (\<lambda>t. uuid_str (t_id t)) ts)) thread_ids)"

definition threads_prune :: "env \<Rightarrow> id_arg list \<Rightarrow> string \<Rightarrow> int \<Rightarrow> nat act" where
  "threads_prune env thread_ids strategy batch_size =
     (if thread_ids = [] then ret 0
      else
        bind (lift_res (auth_filters env AThreads ADelete None)) (\<lambda>filters.
        bind (case filters of
                None \<Rightarrow> ret ()
              | Some [] \<Rightarrow> ret ()
              | Some _ \<Rightarrow>
                  bind (gather_act (\<lambda>i. bind (lift_res (ensure_uuid i)) (\<lambda>u. get_with_filters u filters)) thread_ids)
                    (\<lambda>found. if None \<in> set found then raise (HTTPException 404) else ret ())) (\<lambda>_.
          if strategy = ''delete'' then prune_delete env thread_ids 0
          else if strategy = ''keep_latest'' then
            bind (reads s_threads) (\<lambda>ts.
              prune_batches env (batches (nat (max 1 batch_size)) (prune_ordered_ids thread_ids ts)) 0)
          else raise (HTTPException 422))))"

section \<open>Copying\<close>

text \<open>
  \<open>s.replace(old, new)\<close>, and \<open>_replace_thread_id\<close> on an entry, a checkpoint dictionary, a
  namespace dictionary and a write: the data goes through JSON, which keeps every string but for
  the replacement, merges keys that become equal, and refuses a \<open>UUID\<close> object.
\<close>

fun replace_all :: "string \<Rightarrow> string \<Rightarrow> string \<Rightarrow> string" where
  "replace_all old new [] = []"
| "replace_all old new (c # cs) =
     (if old \<noteq> [] \<and> starts_with (c # cs) old then new @ replace_all old new (drop (length old - 1) cs)
      else c # replace_all old new cs)"

definition replace_typed :: "(string \<Rightarrow> string) \<Rightarrow> typed \<Rightarrow> typed" where
  "replace_typed f v = (f (fst v), f (snd v))"

definition replace_id :: "(string \<Rightarrow> string) \<Rightarrow> id_arg \<Rightarrow> id_arg res" where
  "replace_id f i = (case i of IdStr s \<Rightarrow> Inr (IdStr (f s)) | IdUUID _ \<Rightarrow> Inl ValueError)"

definition replace_entry :: "(string \<Rightarrow> string) \<Rightarrow> cp_entry \<Rightarrow> cp_entry res" where
  "replace_entry f e =
     (case e of Entry c m p \<Rightarrow>
        res_bind (case p of None \<Rightarrow> Inr None | Some i \<Rightarrow> res_bind (replace_id f i) (\<lambda>j. Inr (Some j))) (\<lambda>p'.
          Inr (Entry (replace_typed f c) (replace_typed f m) p')))"

fun map_res :: "('a \<Rightarrow> 'b res) \<Rightarrow> 'a list \<Rightarrow> 'b list res" where
  "map_res f [] = Inr []"
| "map_res f (x # xs) = res_bind (f x) (\<lambda>y. res_bind (map_res f xs) (\<lambda>ys. Inr (y # ys)))"

definition replace_checkpoints :: "(string \<Rightarrow> string) \<Rightarrow> checkpoints \<Rightarrow> checkpoints res" where
  "replace_checkpoints f cps =
     res_bind (map_res (\<lambda>(i, e). res_bind (replace_id f i) (\<lambda>j. res_bind (replace_entry f e) (\<lambda>e'. Inr (j, e')))) cps)
       (\<lambda>kvs. Inr (dict_merge [] kvs))"

definition replace_namespaces :: "(string \<Rightarrow> string) \<Rightarrow> namespaces \<Rightarrow> namespaces res" where
  "replace_namespaces f nss =
     res_bind (map_res (\<lambda>(ns, cps). res_bind (replace_checkpoints f cps) (\<lambda>cps'. Inr (f ns, cps'))) nss)
       (\<lambda>kvs. Inr (dict_merge [] kvs))"

definition replace_write :: "(string \<Rightarrow> string) \<Rightarrow> string \<times> string \<times> typed \<times> string \<Rightarrow> string \<times> string \<times> typed \<times> string" where
  "replace_write f w = (case w of (task_id, channel, v, path) \<Rightarrow> (f task_id, f channel, replace_typed f v, f path))"

text \<open>The copy of the saver's data: storage through a \<open>defaultdict\<close>, then writes, then blobs, whose
  values are shared, then the sizes.\<close>

definition copy_writes :: "(string \<Rightarrow> string) \<Rightarrow> string \<Rightarrow> string \<Rightarrow> (wkey \<times> wgroup) list \<Rightarrow> (wkey \<times> wgroup) list" where
  "copy_writes f old new ws =
     dict_merge ws
       (map (\<lambda>((t, ns, i), g). ((IdStr new, ns, i), map (\<lambda>(k, w). (k, replace_write f w)) g))
         (filter (\<lambda>((t, ns, i), g). t = IdStr old) ws))"

definition copy_blobs :: "string \<Rightarrow> string \<Rightarrow> (bkey \<times> typed) list \<Rightarrow> (bkey \<times> typed) list" where
  "copy_blobs old new bs =
     dict_merge bs (map (\<lambda>((t, k), b). ((IdStr new, k), b)) (filter (\<lambda>((t, k), b). id_str t = old) bs))"

definition copy_checkpoints :: "string \<Rightarrow> string \<Rightarrow> saver \<Rightarrow> unit res \<times> saver" where
  "copy_checkpoints old new s =
     (let f = replace_all old new;
          nss = dict_get (cp_storage s) (IdStr old) [];
          s = s\<lparr>cp_storage := AList.update (IdStr old) nss (cp_storage s)\<rparr>
      in case replace_namespaces f nss of
           Inl e \<Rightarrow> (Inl e, s)
         | Inr nss' \<Rightarrow>
             (Inr (),
              copy_thread_size (IdStr old) (IdStr new)
                (s\<lparr>cp_storage := AList.update (IdStr new) nss' (cp_storage s),
                   cp_writes := copy_writes f old new (cp_writes s),
                   cp_blobs := copy_blobs old new (cp_blobs s)\<rparr>)))"

definition copy_ttl :: "uuid \<Rightarrow> uuid \<Rightarrow> sys \<Rightarrow> sys" where
  "copy_ttl thread_id new_thread_id s =
     (case map_of (s_ttls s) (uuid_str thread_id) of
        None \<Rightarrow> s
      | Some d \<Rightarrow>
          (case map_of d ''ttl_minutes'' of
             None \<Rightarrow> s
           | Some m \<Rightarrow>
               s\<lparr>s_ttls := AList.update (uuid_str new_thread_id)
                   [(''strategy'', dict_get d ''strategy'' (PStr ''delete'')), (''ttl_minutes'', m)] (s_ttls s)\<rparr>))"

definition threads_copy :: "env \<Rightarrow> uuid \<Rightarrow> thread option act" where
  "threads_copy env thread_id =
     bind (uuid4 env) (\<lambda>new_thread_id.
     bind (lift_res (auth_filters env AThreads ARead (Some thread_id))) (\<lambda>read_filters.
     bind (lift_res (auth_filters env AThreads ACreate (Some new_thread_id))) (\<lambda>_.
     bind (reads s_threads) (\<lambda>ts.
       case find_thread thread_id ts of
         None \<Rightarrow> ret None
       | Some t \<Rightarrow>
           bind (lift_res (allowed (t_metadata t) read_filters)) (\<lambda>ok.
             if \<not> ok then ret None
             else bind (datetime_now env) (\<lambda>now.
               let t' = new_thread new_thread_id now (t_metadata t) None
               in bind (modify (append_thread t')) (\<lambda>_.
                  bind (modify (copy_ttl thread_id new_thread_id)) (\<lambda>_.
                  bind (\<lambda>s. case copy_checkpoints (uuid_str thread_id) (uuid_str new_thread_id) (s_saver s) of
                              (r, sv) \<Rightarrow> (r, s\<lparr>s_saver := sv\<rparr>)) (\<lambda>_.
                    ret (Some t'))))))))))"

section \<open>The TTL sweep\<close>

text \<open>\<open>int(v)\<close>.\<close>

definition py_int :: "pyval \<Rightarrow> int res" where
  "py_int v =
     (case v of
        PBool b \<Rightarrow> Inr (if b then 1 else 0)
      | PInt i \<Rightarrow> Inr i
      | PFloat q \<Rightarrow> Inr (if 0 \<le> q then \<lfloor>q\<rfloor> else \<lceil>q\<rceil>)
      | PStr s \<Rightarrow> py_int_of_string s
      | PBytes s \<Rightarrow> py_int_of_string s
      | _ \<Rightarrow> Inl TypeError)"

text \<open>The limit of a sweep: its argument, or the configured one, or none.\<close>

definition sweep_limit :: "env \<Rightarrow> int option \<Rightarrow> nat option res" where
  "sweep_limit env limit =
     (case limit of
        Some l \<Rightarrow> Inr (Some (nat l))
      | None \<Rightarrow>
          (case dict_get (case e_thread_ttl env of None \<Rightarrow> [] | Some d \<Rightarrow> d) ''sweep_limit'' (PInt 10000) of
             PNone \<Rightarrow> Inr None
           | v \<Rightarrow> res_bind (py_int v) (\<lambda>l. Inr (Some (nat l)))))"

text \<open>When a thread with this configuration expires: \<open>None\<close> when it has no TTL, when its TTL state
  is invalid, or when it was pruned since its last update.\<close>

definition thread_expiry :: "int \<Rightarrow> dict option \<Rightarrow> ttl_store \<Rightarrow> thread \<Rightarrow> (int \<times> ttl_config \<times> dict) option res" where
  "thread_expiry now glob ttls t =
     (case effective_thread_ttl now glob ttls (t_id t) of
        Inl (HTTPException _) \<Rightarrow> Inr None
      | Inl e \<Rightarrow> Inl e
      | Inr (None, _) \<Rightarrow> Inr None
      | Inr (Some c, state) \<Rightarrow>
          if tc_strategy c = TTLKeepLatest \<and> already_pruned state (t_updated_at t) then Inr None
          else res_bind (add_minutes (t_updated_at t) (tc_minutes c)) (\<lambda>x. Inr (Some (x, c, state))))"

text \<open>The selection, over a snapshot of the threads.\<close>

fun select_expired :: "env \<Rightarrow> int \<Rightarrow> uuid list \<Rightarrow> thread list \<Rightarrow> (int \<times> uuid) list act" where
  "select_expired env now active [] = ret []"
| "select_expired env now active (t # ts) =
     (if t_id t \<in> set active then select_expired env now active ts
      else bind (datetime_now env) (\<lambda>now'. bind (reads s_ttls) (\<lambda>ttls.
           bind (lift_res (thread_expiry now' (e_thread_ttl env) ttls t)) (\<lambda>x.
           bind (select_expired env now active ts) (\<lambda>rest.
             ret (case x of
                    None \<Rightarrow> rest
                  | Some (expires_at, _, _) \<Rightarrow> if expires_at \<le> now then (expires_at, t_id t) # rest else rest))))))"

definition finally_act :: "'a act \<Rightarrow> (sys \<Rightarrow> sys) \<Rightarrow> 'a act" where
  "finally_act m f s = (case m s of (r, s') \<Rightarrow> (r, f s'))"

text \<open>One claimed thread: its eligibility is checked again, then it is deleted or pruned. The
  result is what to add to \<open>processed\<close> and \<open>deleted\<close>.\<close>

definition sweep_claimed :: "env \<Rightarrow> uuid \<Rightarrow> (nat \<times> nat) act" where
  "sweep_claimed env thread_id =
     bind (reads id) (\<lambda>s.
       case find_thread thread_id (s_threads s) of
         None \<Rightarrow> ret (0, 0)
       | Some t \<Rightarrow>
           if has_active_runs thread_id (s_runs s) then ret (0, 0)
           else bind (datetime_now env) (\<lambda>now'.
                bind (lift_res (thread_expiry now' (e_thread_ttl env) (s_ttls s) t)) (\<lambda>x.
                  case x of
                    None \<Rightarrow> ret (0, 0)
                  | Some (expires_at, c, state) \<Rightarrow>
                      bind (datetime_now env) (\<lambda>now.
                        if expires_at > now then ret (0, 0)
                        else case tc_strategy c of
                               TTLDelete \<Rightarrow>
                                 catch_http (bind (threads_delete env thread_id) (\<lambda>_. ret (1, 1)))
                                   (\<lambda>code. if code \<noteq> 404 then raise (HTTPException code) else ret (0, 0))
                             | TTLKeepLatest \<Rightarrow>
                                 bind (aprune env [IdStr (uuid_str thread_id)] ''keep_latest'') (\<lambda>_.
                                 bind (modify (\<lambda>s. s\<lparr>s_ttls := AList.update (uuid_str thread_id)
                                     (AList.update ''last_swept_updated_at'' (PDatetime (t_updated_at t)) state)
                                     (s_ttls s)\<rparr>)) (\<lambda>_. ret (1, 0)))))))"

definition sweep_one :: "env \<Rightarrow> uuid \<Rightarrow> (nat \<times> nat) act" where
  "sweep_one env thread_id =
     bind (reads s_maint) (\<lambda>maint.
       if uuid_str thread_id \<in> set maint then ret (0, 0)
       else bind (modify (\<lambda>s. s\<lparr>s_maint := List.insert (uuid_str thread_id) (s_maint s)\<rparr>)) (\<lambda>_.
            finally_act (sweep_claimed env thread_id)
              (\<lambda>s. s\<lparr>s_maint := removeAll (uuid_str thread_id) (s_maint s)\<rparr>)))"

fun sweep_all :: "env \<Rightarrow> uuid list \<Rightarrow> nat \<times> nat \<Rightarrow> (nat \<times> nat) act" where
  "sweep_all env [] acc = ret acc"
| "sweep_all env (i # ids) acc =
     bind (sweep_one env i) (\<lambda>(p, d). sweep_all env ids (fst acc + p, snd acc + d))"

text \<open>The statistics a caller may ask for; the built-in saver tracks sizes and counts.\<close>

record sweep_stats =
  st_deleted_items :: int
  st_deleted_size_bytes :: int
  st_total_before_bytes :: int

definition released :: "(string \<Rightarrow> size_state \<Rightarrow> int) \<Rightarrow> string list \<Rightarrow> size_state \<Rightarrow> size_state \<Rightarrow> int" where
  "released f ids before after = sum_list (map (\<lambda>i. max (f i before - f i after) 0) (remdups ids))"

definition threads_sweep_ttl :: "env \<Rightarrow> int option \<Rightarrow> int \<Rightarrow> ((nat \<times> nat) \<times> sweep_stats) act" where
  "threads_sweep_ttl env limit batch_size =
     bind (reads (\<lambda>s. cp_size (s_saver s))) (\<lambda>before.
       if (case limit of None \<Rightarrow> False | Some l \<Rightarrow> l \<le> 0)
       then ret ((0, 0), \<lparr>st_deleted_items = 0, st_deleted_size_bytes = 0, st_total_before_bytes = total_bytes before\<rparr>)
       else
         bind (lift_res (sweep_limit env limit)) (\<lambda>lim.
         bind (datetime_now env) (\<lambda>now.
         bind (reads id) (\<lambda>s.
         bind (select_expired env now
                 (map r_thread (filter (\<lambda>r. active_status (r_status r)) (s_runs s))) (s_threads s)) (\<lambda>expired.
           let sorted = sort_key (\<lambda>(x, i). (x, uuid_str i)) expired;
               chosen = map snd (case lim of None \<Rightarrow> sorted | Some n \<Rightarrow> take n sorted)
           in bind (sweep_all env (concat (batches (nat (max 1 batch_size)) chosen)) (0, 0)) (\<lambda>counts.
              bind (reads (\<lambda>s. cp_size (s_saver s))) (\<lambda>after.
                ret (counts,
                     \<lparr>st_deleted_items = released thread_checkpoints (map uuid_str chosen) before after,
                      st_deleted_size_bytes = released thread_bytes (map uuid_str chosen) before after,
                      st_total_before_bytes = total_bytes before\<rparr>))))))))"

text \<open>
  \<open>thread_ttl.sweep_once\<close>: one sweep with the configured limit and batch size. A limit is compared
  with 0 and truncated; a batch size that is no integer is refused when the batches are formed,
  unless it is at most 1.
\<close>

definition limit_arg :: "pyval \<Rightarrow> int option res" where
  "limit_arg v =
     (case v of
        PNone \<Rightarrow> Inr None
      | PBool b \<Rightarrow> Inr (Some (if b then 1 else 0))
      | PInt i \<Rightarrow> Inr (Some i)
      | PFloat q \<Rightarrow> Inr (Some (if q \<le> 0 then 0 else \<lfloor>q\<rfloor>))
      | _ \<Rightarrow> Inl TypeError)"

definition batch_arg :: "pyval \<Rightarrow> int res" where
  "batch_arg v =
     (case v of
        PBool b \<Rightarrow> Inr (if b then 1 else 0)
      | PInt i \<Rightarrow> Inr i
      | PFloat q \<Rightarrow> if q \<le> 1 then Inr 1 else Inl TypeError
      | _ \<Rightarrow> Inl TypeError)"

definition sweep_once :: "env \<Rightarrow> dict \<Rightarrow> ((nat \<times> nat) \<times> sweep_stats) act" where
  "sweep_once env config =
     bind (lift_res (limit_arg (dict_get config ''sweep_limit'' (PInt 10000)))) (\<lambda>limit.
       if (case limit of None \<Rightarrow> False | Some l \<Rightarrow> l \<le> 0) then threads_sweep_ttl env limit 1
       else bind (lift_res (batch_arg (dict_get config ''batch_size'' (PInt 100)))) (threads_sweep_ttl env limit))"

end
