(* ===== verification/Runs.thy ===== *)
theory Runs
  imports Threads
begin

text \<open>
  The class \<open>Runs\<close> of \<open>ops.py\<close>: the queue of runs (put, next, stats), get, search, delete, cancel and
  the status updates of a worker, \<open>Threads.set_joint_status\<close> with them, and the streams of a run
  (\<open>Runs.Stream\<close>, \<open>Runs.enter\<close>, \<open>listen_for_cancellation\<close>).

  The API layer has validated what it passes: the id of a new run is given, \<open>config\<close>,
  \<open>configurable\<close>, \<open>metadata\<close> and \<open>context\<close> are dictionaries, \<open>None\<close> or absent.
\<close>

section \<open>The queue\<close>

definition seconds :: "int \<Rightarrow> rat" where
  "seconds us = of_int us / 1000000"

definition pending_runs :: "run list \<Rightarrow> run list" where
  "pending_runs rs = filter (\<lambda>r. r_status r = RPending) rs"

definition has_running :: "uuid \<Rightarrow> run list \<Rightarrow> bool" where
  "has_running thread_id rs = (\<exists>r \<in> set rs. r_thread r = thread_id \<and> r_status r = RRunning)"

record queue_stats =
  q_pending :: nat
  q_running :: nat
  q_wait_max :: "rat option"
  q_wait_med :: "rat option"
  q_unblocked_wait_max :: "rat option"

definition list_max :: "rat list \<Rightarrow> rat option" where
  "list_max xs = (case xs of [] \<Rightarrow> None | y # ys \<Rightarrow> Some (fold max ys y))"

definition median :: "rat list \<Rightarrow> rat option" where
  "median xs =
     (if xs = [] then None
      else let ys = sort xs; half = length ys div 2
           in Some (if odd (length ys) then ys ! half else (ys ! (half - 1) + ys ! half) / 2))"

definition runs_stats :: "env \<Rightarrow> queue_stats act" where
  "runs_stats env =
     bind (reads s_runs) (\<lambda>rs.
       let pending = pending_runs rs; running = filter (\<lambda>r. r_status r = RRunning) rs in
       if pending = [] \<and> running = []
       then ret \<lparr>q_pending = 0, q_running = 0, q_wait_max = None, q_wait_med = None, q_unblocked_wait_max = None\<rparr>
       else bind (datetime_now env) (\<lambda>now.
         let waits = map (\<lambda>r. seconds (now - r_created_at r)) pending;
             unblocked = filter (\<lambda>r. \<not> has_running (r_thread r) rs \<and> r_created_at r < now) pending
         in ret \<lparr>q_pending = length pending, q_running = length running, q_wait_max = list_max waits,
                 q_wait_med = median waits,
                 q_unblocked_wait_max = list_max (map (\<lambda>r. seconds (now - r_created_at r)) unblocked)\<rparr>))"

text \<open>The run object the code holds is the row with its ids; \<open>set_run\<close> changes it in place.\<close>

definition is_run :: "uuid \<Rightarrow> uuid \<Rightarrow> run \<Rightarrow> bool" where
  "is_run run_id thread_id r = (r_id r = run_id \<and> r_thread r = thread_id)"

definition set_run :: "uuid \<Rightarrow> uuid \<Rightarrow> (run \<Rightarrow> run) \<Rightarrow> sys \<Rightarrow> sys" where
  "set_run run_id thread_id f s = s\<lparr>s_runs := update_first (is_run run_id thread_id) f (s_runs s)\<rparr>"

definition due_runs :: "int \<Rightarrow> run list \<Rightarrow> run list" where
  "due_runs now rs = sort_key r_created_at (filter (\<lambda>r. r_status r = RPending \<and> r_created_at r < now) rs)"

text \<open>One candidate of \<open>Runs.next\<close>: the run and its attempt number, or nothing when its thread is
  missing or has a running run.\<close>

definition claim_run :: "run \<Rightarrow> (run \<times> int) option act" where
  "claim_run r =
     bind (reads id) (\<lambda>s.
       if find (is_run (r_id r) (r_thread r)) (s_runs s) = None
          \<or> (case find (is_run (r_id r) (r_thread r)) (s_runs s) of None \<Rightarrow> False | Some x \<Rightarrow> r_status x \<noteq> RPending)
       then ret None
       else if find_thread (r_thread r) (s_threads s) = None then ret None
       else if has_running (r_thread r) (s_runs s) then ret None
       else bind (\<lambda>s. case retry_increment (r_id r) s of (n, s') \<Rightarrow> (Inr n, s')) (\<lambda>attempt.
            bind (modify (set_run (r_id r) (r_thread r) (\<lambda>x. x\<lparr>r_status := RRunning\<rparr>))) (\<lambda>_.
              ret (Some (r\<lparr>r_status := RRunning\<rparr>, attempt)))))"

fun claim_runs :: "run list \<Rightarrow> (run \<times> int) list act" where
  "claim_runs [] = ret []"
| "claim_runs (r # rs) =
     bind (claim_run r) (\<lambda>x. bind (claim_runs rs) (\<lambda>ys.
       ret (case x of None \<Rightarrow> ys | Some y \<Rightarrow> y # ys)))"

definition runs_next :: "env \<Rightarrow> nat \<Rightarrow> (run \<times> int) list act" where
  "runs_next env limit =
     bind (datetime_now env) (\<lambda>now. bind (reads s_runs) (\<lambda>rs. claim_runs (take limit (due_runs now rs))))"

section \<open>Creating a run\<close>

text \<open>\<open>d.get(k, {})\<close> where the value is a dictionary, and \<open>d.get(k) or {}\<close>.\<close>

definition dict_at :: "dict \<Rightarrow> string \<Rightarrow> dict" where
  "dict_at d k = (case map_of d k of Some (PDict e) \<Rightarrow> e | _ \<Rightarrow> [])"

fun merge_jsonb :: "dict list \<Rightarrow> dict" where
  "merge_jsonb [] = []"
| "merge_jsonb ds = fold (\<lambda>d acc. dict_merge acc d) ds []"

definition get_configurable :: "dict \<Rightarrow> dict" where
  "get_configurable config = dict_at config ''configurable''"

definition find_assistant :: "uuid \<Rightarrow> assistant list \<Rightarrow> assistant option" where
  "find_assistant assistant_id as = find (\<lambda>a. a_id a = assistant_id) as"

text \<open>\<open>a or b\<close> on values, with \<open>None\<close> for a missing key.\<close>

definition py_or :: "pyval \<Rightarrow> pyval \<Rightarrow> pyval" where
  "py_or a b = (if truthy a then a else b)"

definition run_thread_metadata :: "assistant \<Rightarrow> dict" where
  "run_thread_metadata a = [(''graph_id'', PStr (a_graph_id a)), (''assistant_id'', PStr (uuid_str (a_id a)))]"

definition new_run_thread :: "assistant \<Rightarrow> uuid \<Rightarrow> dict \<Rightarrow> dict \<Rightarrow> int \<Rightarrow> int \<Rightarrow> thread" where
  "new_run_thread a thread_id config metadata created updated =
     \<lparr>t_id = thread_id, t_created_at = created, t_updated_at = updated, t_state_updated_at = None,
      t_metadata = dict_merge (dict_merge (run_thread_metadata a) (dict_at config ''metadata'')) metadata,
      t_status = TBusy,
      t_config = merge_jsonb [a_config a, config, [(''configurable'', PDict (merge_jsonb [get_configurable (a_config a)]))]],
      t_values = Some PNone, t_interrupts = None, t_error = None\<rparr>"

definition occupy_thread :: "assistant \<Rightarrow> dict \<Rightarrow> int \<Rightarrow> thread \<Rightarrow> thread" where
  "occupy_thread a config now t =
     t\<lparr>t_status := TBusy, t_metadata := merge_jsonb [t_metadata t, run_thread_metadata a],
       t_config := merge_jsonb [a_config a, t_config t, config,
         [(''configurable'', PDict (merge_jsonb [get_configurable (a_config a), get_configurable (t_config t)]))]],
       t_updated_at := now\<rparr>"

text \<open>The arguments of \<open>Runs.put\<close>.\<close>

record run_request =
  q_assistant :: uuid
  q_kwargs :: dict
  q_thread :: "uuid option"
  q_user :: "string option"
  q_run :: uuid
  q_status :: run_status
  q_metadata :: "dict option"
  q_prevent :: bool
  q_multitask :: multitask
  q_create :: bool
  q_after_seconds :: int

definition run_configurable :: "run_request \<Rightarrow> assistant \<Rightarrow> uuid \<Rightarrow> thread option \<Rightarrow> dict" where
  "run_configurable q a thread_id t =
     (let config = dict_at (q_kwargs q) ''config'';
          tconf = (case t of None \<Rightarrow> [] | Some t \<Rightarrow> get_configurable (t_config t));
          user = (\<lambda>d. dict_get d ''user_id'' PNone)
      in merge_jsonb [get_configurable (a_config a), tconf, get_configurable config,
           [(''run_id'', PStr (uuid_str (q_run q))), (''thread_id'', PStr (uuid_str thread_id)),
            (''graph_id'', PStr (a_graph_id a)), (''assistant_id'', PStr (uuid_str (a_id a))),
            (''user_id'', py_or (py_or (py_or (user (get_configurable config)) (user tconf)) (user (get_configurable (a_config a))))
                            (case q_user q of None \<Rightarrow> PNone | Some u \<Rightarrow> PStr u))]])"

definition run_metadata :: "run_request \<Rightarrow> dict \<Rightarrow> assistant \<Rightarrow> thread option \<Rightarrow> dict" where
  "run_metadata q metadata a t =
     AList.update ''assistant_id'' (PStr (uuid_str (a_id a)))
       (merge_jsonb [a_metadata a, (case t of None \<Rightarrow> [] | Some t \<Rightarrow> t_metadata t),
          dict_at (dict_at (q_kwargs q) ''config'') ''metadata'', metadata])"

definition new_run :: "run_request \<Rightarrow> dict \<Rightarrow> assistant \<Rightarrow> uuid \<Rightarrow> thread option \<Rightarrow> int \<Rightarrow> int \<Rightarrow> run" where
  "new_run q metadata a thread_id t created updated =
     (let config = dict_at (q_kwargs q) ''config''; merged = run_metadata q metadata a t in
      \<lparr>r_id = q_run q, r_thread = thread_id, r_assistant = a_id a, r_metadata = merged, r_status = q_status q,
       r_kwargs = merge_jsonb [q_kwargs q,
         [(''config'', PDict (merge_jsonb [a_config a, config,
              [(''configurable'', PDict (run_configurable q a thread_id t))], [(''metadata'', PDict merged)]])),
          (''context'', PDict (merge_jsonb [(case a_context a of None \<Rightarrow> [] | Some c \<Rightarrow> c), dict_at (q_kwargs q) ''context'']))]],
       r_multitask = q_multitask q, r_created_at = created, r_updated_at = updated\<rparr>)"

definition inflight_runs :: "uuid \<Rightarrow> run list \<Rightarrow> run list" where
  "inflight_runs thread_id rs = filter (\<lambda>r. r_thread r = thread_id \<and> active_status (r_status r)) rs"

text \<open>The mutation section: the thread exists (and is passed as it was found, before it is marked
  busy) or was just created.\<close>

definition insert_run :: "env \<Rightarrow> run_request \<Rightarrow> dict \<Rightarrow> assistant \<Rightarrow> uuid \<Rightarrow> bool \<Rightarrow> run list act" where
  "insert_run env q metadata a thread_id existing =
     bind (reads id) (\<lambda>s.
       let t = (if existing then find_thread thread_id (s_threads s) else None);
           inflight = inflight_runs thread_id (s_runs s)
       in if q_prevent q \<and> inflight \<noteq> [] then ret inflight
          else bind (datetime_now env) (\<lambda>created. bind (datetime_now env) (\<lambda>updated.
            let r = new_run q metadata a thread_id t (created + q_after_seconds q * 1000000) updated
            in bind (modify (\<lambda>s. s\<lparr>s_runs := s_runs s @ [r]\<rparr>)) (\<lambda>_. ret (r # inflight)))))"

definition runs_put :: "env \<Rightarrow> run_request \<Rightarrow> run list act" where
  "runs_put env q =
     bind (reads s_assistants) (\<lambda>as.
       case find_assistant (q_assistant q) as of
         None \<Rightarrow> ret []
       | Some a \<Rightarrow>
           (let config = dict_at (q_kwargs q) ''config'';
                temporary = truthy (dict_get (q_kwargs q) ''temporary'' (PBool False));
                metadata = (case q_metadata q of None \<Rightarrow> [] | Some m \<Rightarrow> m) in
            bind (lift_res (handle_event env AThreads ACreateRun (if temporary then None else q_thread q) metadata)) (\<lambda>(filters, metadata).
            bind (if system_created (a_metadata a) then ret True
                  else bind (lift_res (auth_filters env AAssistants ARead (Some (a_id a)))) (\<lambda>f.
                         lift_res (allowed (a_metadata a) f))) (\<lambda>owned.
              if \<not> owned then ret []
              else bind (reads s_threads) (\<lambda>ts.
                case (case q_thread q of None \<Rightarrow> None | Some i \<Rightarrow> find_thread i ts) of
                  Some t \<Rightarrow>
                    bind (lift_res (allowed (t_metadata t) filters)) (\<lambda>ok.
                      if \<not> ok then ret []
                      else bind (if t_status t = TBusy then ret ()
                                 else bind (datetime_now env) (\<lambda>now. modify (set_thread (t_id t) (occupy_thread a config now)))) (\<lambda>_.
                           insert_run env q metadata a (t_id t) True))
                | None \<Rightarrow>
                    if q_thread q = None \<or> q_create q then
                      bind (case q_thread q of None \<Rightarrow> uuid4 env | Some i \<Rightarrow> ret i) (\<lambda>thread_id.
                      bind (datetime_now env) (\<lambda>created. bind (datetime_now env) (\<lambda>updated.
                      bind (modify (append_thread (new_run_thread a thread_id config metadata created updated))) (\<lambda>_.
                        insert_run env q metadata a thread_id False))))
                    else ret [])))))"

section \<open>Reading, deleting and cancelling\<close>

text \<open>\<open>not filters or await Threads._get_with_filters(conn, thread_id, filters)\<close>.\<close>

definition thread_gate :: "dict option \<Rightarrow> uuid \<Rightarrow> bool act" where
  "thread_gate filters thread_id =
     (if filters = None \<or> filters = Some [] then ret True
      else bind (get_with_filters thread_id filters) (\<lambda>t. ret (t \<noteq> None)))"

fun filter_act :: "('a \<Rightarrow> bool act) \<Rightarrow> 'a list \<Rightarrow> 'a list act" where
  "filter_act p [] = ret []"
| "filter_act p (x # xs) = bind (p x) (\<lambda>b. bind (filter_act p xs) (\<lambda>ys. ret (if b then x # ys else ys)))"

definition runs_get :: "env \<Rightarrow> uuid \<Rightarrow> uuid \<Rightarrow> run option act" where
  "runs_get env run_id thread_id =
     bind (lift_res (auth_filters env AThreads ARead (Some thread_id))) (\<lambda>filters.
     bind (reads s_runs) (\<lambda>rs.
       case find (is_run run_id thread_id) rs of
         None \<Rightarrow> ret None
       | Some r \<Rightarrow> bind (thread_gate filters (r_thread r)) (\<lambda>ok. ret (if ok then Some r else None))))"

definition runs_delete :: "env \<Rightarrow> uuid \<Rightarrow> uuid \<Rightarrow> uuid option act" where
  "runs_delete env run_id thread_id =
     bind (lift_res (auth_filters env AThreads ADelete (Some thread_id))) (\<lambda>filters.
     bind (thread_gate filters thread_id) (\<lambda>ok.
       if \<not> ok then ret None
       else bind (reads s_runs) (\<lambda>rs.
         if find (is_run run_id thread_id) rs = None then raise (HTTPException 404)
         else bind (delete_checkpoints_for_thread env thread_id (Some run_id)) (\<lambda>_.
              bind (modify (\<lambda>s. s\<lparr>s_stream := delete_run (e_codec env) run_id (Some thread_id) (s_stream s),
                                  s_runs := filter (\<lambda>r. \<not> is_run run_id thread_id r) (s_runs s)\<rparr>)) (\<lambda>_.
                ret (Some run_id))))))"

datatype cancel_action = CancelInterrupt | CancelRollback

definition action_name :: "cancel_action \<Rightarrow> string" where
  "action_name a = (case a of CancelInterrupt \<Rightarrow> ''interrupt'' | CancelRollback \<Rightarrow> ''rollback'')"

text \<open>What to cancel, one of the three usage patterns; any other combination is refused.\<close>

record cancel_request =
  k_run_ids :: "uuid list option"
  k_thread :: "uuid option"
  k_status :: "string option"
  k_assistant :: "uuid option"

definition cancel_args_ok :: "cancel_request \<Rightarrow> bool" where
  "cancel_args_ok k =
     (if k_assistant k \<noteq> None then k_thread k = None \<and> k_run_ids k = None \<and> k_status k = None
      else if k_status k \<noteq> None then k_thread k = None \<and> k_run_ids k = None
      else k_thread k \<noteq> None \<and> k_run_ids k \<noteq> None)"

definition status_list :: "string option \<Rightarrow> run_status list res" where
  "status_list st =
     (case st of
        None \<Rightarrow> Inr []
      | Some x \<Rightarrow>
          if x = ''all'' then Inr [RPending, RRunning]
          else if x = ''pending'' then Inr [RPending]
          else if x = ''running'' then Inr [RRunning]
          else Inl ValueError)"

definition is_run_match :: "cancel_request \<Rightarrow> run_status list \<Rightarrow> run \<Rightarrow> bool" where
  "is_run_match k sts r =
     (case k_assistant k of
        Some a \<Rightarrow> r_assistant r = a \<and> active_status (r_status r)
      | None \<Rightarrow>
          if sts \<noteq> [] then r_status r \<in> set sts
          else Some (r_thread r) = k_thread k \<and> (case k_run_ids k of None \<Rightarrow> False | Some ids \<Rightarrow> r_id r \<in> set ids))"

text \<open>A coroutine collected for the final \<open>gather\<close>.\<close>

datatype coro = PutControl run | DeleteRun run

definition run_coro :: "env \<Rightarrow> cancel_action \<Rightarrow> coro \<Rightarrow> unit act" where
  "run_coro env action c =
     (case c of
        PutControl r \<Rightarrow>
          modify (\<lambda>s. s\<lparr>s_stream := put_message (r_id r) (Some (r_thread r))
            \<lparr>m_topic = control_topic (r_id r), m_data = action_name action, m_id = None\<rparr> False (s_stream s)\<rparr>)
      | DeleteRun r \<Rightarrow> bind (runs_delete env (r_id r) (r_thread r)) (\<lambda>_. ret ()))"

text \<open>The loop over the candidates: the statuses change at once, messages and deletions are
  collected.\<close>

definition interrupt_run :: "env \<Rightarrow> run \<Rightarrow> unit act" where
  "interrupt_run env r =
     bind (if r_status r = RPending then
             bind (reads s_threads) (\<lambda>ts.
               if find_thread (r_thread r) ts = None then ret ()
               else bind (datetime_now env) (\<lambda>now.
                 modify (set_thread (r_thread r) (\<lambda>t. t\<lparr>t_status := TIdle, t_updated_at := now\<rparr>))))
           else ret ()) (\<lambda>_.
     bind (datetime_now env) (\<lambda>now.
       modify (set_run (r_id r) (r_thread r) (\<lambda>x. x\<lparr>r_status := RInterrupted, r_updated_at := now\<rparr>))))"

fun cancel_loop :: "env \<Rightarrow> cancel_action \<Rightarrow> run list \<Rightarrow> (coro list \<times> run list) act" where
  "cancel_loop env action [] = ret ([], [])"
| "cancel_loop env action (r # rs) =
     bind (reads s_stream) (\<lambda>w.
       if active_status (r_status r) then
         if get_queues (r_id r) (Some (r_thread r)) w \<noteq> [] \<or> action \<noteq> CancelRollback then
           bind (interrupt_run env r) (\<lambda>_. bind (cancel_loop env action rs) (\<lambda>(coros, cancelable).
             ret (PutControl r # coros, r # cancelable)))
         else bind (cancel_loop env action rs) (\<lambda>(coros, cancelable).
                ret (PutControl r # DeleteRun r # coros, r # cancelable))
       else bind (cancel_loop env action rs) (\<lambda>(coros, cancelable). ret (PutControl r # coros, cancelable)))"

definition runs_cancel :: "env \<Rightarrow> cancel_request \<Rightarrow> cancel_action \<Rightarrow> unit act" where
  "runs_cancel env k action =
     (if \<not> cancel_args_ok k then raise (HTTPException 422)
      else
        bind (lift_res (auth_filters env AThreads AUpdate (k_thread k))) (\<lambda>filters.
        bind (lift_res (status_list (k_status k))) (\<lambda>sts.
        bind (reads s_runs) (\<lambda>rs.
        bind (case k_thread k of
                Some t \<Rightarrow> bind (thread_gate filters t) (\<lambda>ok. ret (if ok then filter (is_run_match k sts) rs else []))
              | None \<Rightarrow> filter_act (\<lambda>r. thread_gate filters (r_thread r)) (filter (is_run_match k sts) rs)) (\<lambda>candidates.
          if candidates = [] then (if k_assistant k \<noteq> None then ret () else raise (HTTPException 404))
          else bind (cancel_loop env action candidates) (\<lambda>(coros, cancelable).
            if cancelable = [] then (if k_assistant k \<noteq> None then ret () else raise (HTTPException 404))
            else bind (gather_act (run_coro env action) coros) (\<lambda>_. ret ())))))))"

definition cancel_run :: "env \<Rightarrow> uuid \<Rightarrow> uuid \<Rightarrow> unit act" where
  "cancel_run env thread_id run_id =
     runs_cancel env \<lparr>k_run_ids = Some [run_id], k_thread = Some thread_id, k_status = None, k_assistant = None\<rparr>
       CancelInterrupt"

definition runs_search :: "env \<Rightarrow> uuid \<Rightarrow> nat \<Rightarrow> nat \<Rightarrow> run_status option \<Rightarrow> run list act" where
  "runs_search env thread_id limit offset status =
     bind (lift_res (handle_event env AThreads ASearch (Some thread_id) [])) (\<lambda>(filters, metadata).
     bind (reads s_runs) (\<lambda>rs.
     bind (filter_act (\<lambda>r.
             if r_thread r \<noteq> thread_id \<or> \<not> is_jsonb_contained (r_metadata r) metadata then ret False
             else bind (thread_gate filters thread_id) (\<lambda>ok.
               ret (ok \<and> (case status of None \<Rightarrow> True | Some st \<Rightarrow> r_status r = st)))) rs) (\<lambda>found.
       ret (py_slice offset limit (sort_desc r_created_at found)))))"

section \<open>Status\<close>

definition runs_set_status :: "env \<Rightarrow> uuid \<Rightarrow> run_status \<Rightarrow> run option act" where
  "runs_set_status env run_id status =
     bind (reads s_runs) (\<lambda>rs.
       case find (\<lambda>r. r_id r = run_id) rs of
         None \<Rightarrow> ret None
       | Some r \<Rightarrow>
           bind (datetime_now env) (\<lambda>now.
             let f = (\<lambda>x. x\<lparr>r_status := status, r_updated_at := now\<rparr>)
             in bind (modify (\<lambda>s. s\<lparr>s_runs := update_first (\<lambda>r. r_id r = run_id) f (s_runs s)\<rparr>)) (\<lambda>_. ret (Some (f r)))))"

datatype joint_status = JStatus run_status | JRollback

definition threads_set_joint_status ::
  "env \<Rightarrow> uuid \<Rightarrow> uuid \<Rightarrow> joint_status \<Rightarrow> string \<Rightarrow> checkpoint_payload option \<Rightarrow> run_exception option \<Rightarrow> unit act" where
  "threads_set_joint_status env thread_id run_id run_status graph_id checkpoint exception =
     bind (reads id) (\<lambda>s.
       if find_thread thread_id (s_threads s) = None then raise (HTTPException 404)
       else if find (is_run run_id thread_id) (s_runs s) = None then raise (HTTPException 404)
       else
         let base = base_status (case exception of None \<Rightarrow> False | Some e \<Rightarrow> \<not> ex_user e) checkpoint in
         bind (datetime_now env) (\<lambda>now.
         bind (case run_status of
                 JRollback \<Rightarrow> bind (runs_delete env run_id thread_id) (\<lambda>_. ret False)
               | JStatus st \<Rightarrow>
                   bind (modify (set_run run_id thread_id (\<lambda>x. x\<lparr>r_status := st, r_updated_at := now\<rparr>))) (\<lambda>_.
                     ret (active_status st))) (\<lambda>busy.
         bind (reads s_runs) (\<lambda>rs.
           let final = (if busy \<or> has_active_runs thread_id rs then TBusy else base)
           in modify (set_thread thread_id (\<lambda>t.
                status_update env now final checkpoint exception
                  (t\<lparr>t_metadata := AList.update ''graph_id'' (PStr graph_id) (t_metadata t)\<rparr>)))))))"

section \<open>The streams of a run\<close>

definition run_stream_mode_matches :: "string \<Rightarrow> string list option \<Rightarrow> bool" where
  "run_stream_mode_matches event_mode stream_mode =
     (case stream_mode of
        None \<Rightarrow> True
      | Some modes \<Rightarrow>
          modes = [] \<or> event_mode \<in> set modes
          \<or> ((''messages'' \<in> set modes \<or> ''messages-tuple'' \<in> set modes) \<and> starts_with event_mode ''messages'')
          \<or> (case partition_at (CHR ''|'') event_mode of (base_mode, has_bar, _) \<Rightarrow> has_bar \<and> base_mode \<in> set modes))"

text \<open>\<open>Runs.Stream.subscribe\<close>: a new queue, into which the messages waiting in the run's control
  queues are moved.\<close>

definition drain_queue :: "nat \<Rightarrow> nat \<Rightarrow> stream \<Rightarrow> stream" where
  "drain_queue q c w =
     (if c = q then w
      else w\<lparr>sm_heap := (sm_heap w)(q := sm_heap w q @ sm_heap w c, c := [])\<rparr>)"

definition run_subscribe :: "uuid \<Rightarrow> uuid option \<Rightarrow> stream \<Rightarrow> nat \<times> stream" where
  "run_subscribe run_id thread_id w =
     (case add_queue run_id thread_id w of (q, w) \<Rightarrow>
        (q, fold (drain_queue q) (get_control_queues run_id thread_id w) w))"

definition run_publish :: "codec \<Rightarrow> uuid \<Rightarrow> string \<Rightarrow> string \<Rightarrow> uuid option \<Rightarrow> bool \<Rightarrow> stream \<Rightarrow> stream" where
  "run_publish enc run_id event message thread_id resumable w =
     put_message run_id thread_id \<lparr>m_topic = stream_topic run_id, m_data = enc event message, m_id = None\<rparr> resumable w"

text \<open>\<open>Runs.enter\<close>, before and after the body of the worker.\<close>

definition enter_begin :: "uuid \<Rightarrow> uuid option \<Rightarrow> stream \<Rightarrow> nat \<times> stream" where
  "enter_begin run_id thread_id w = add_control_queue run_id thread_id (mark_run_active run_id thread_id w)"

definition enter_end :: "codec \<Rightarrow> uuid \<Rightarrow> uuid option \<Rightarrow> bool \<Rightarrow> nat \<Rightarrow> stream \<Rightarrow> stream" where
  "enter_end enc run_id thread_id resumable q w =
     (let w = put_message run_id thread_id \<lparr>m_topic = control_topic run_id, m_data = ''done'', m_id = None\<rparr> False w;
          w = put_message run_id thread_id
                \<lparr>m_topic = stream_topic run_id, m_data = enc ''control'' ''done'', m_id = None\<rparr> resumable w;
          w = remove_control_queue run_id thread_id q w
      in mark_run_inactive run_id thread_id w)"

text \<open>\<open>listen_for_cancellation\<close>: the stored control message is read first, then the queue; the
  result is what \<open>done\<close> holds once the queue is empty or the listener stops, and the messages it
  has not read.\<close>

datatype done_event = NotDone | Done | DoneInterrupt | DoneRollback

definition control_event :: "string \<Rightarrow> done_event option" where
  "control_event payload =
     (if payload = ''rollback'' then Some DoneRollback
      else if payload = ''interrupt'' then Some DoneInterrupt
      else None)"

fun listen_loop :: "message list \<Rightarrow> done_event \<times> message list" where
  "listen_loop [] = (NotDone, [])"
| "listen_loop (m # ms) =
     (case control_event (m_data m) of
        Some e \<Rightarrow> (e, ms)
      | None \<Rightarrow> if m_data m = ''done'' then (Done, ms) else listen_loop ms)"

definition listen_for_cancellation :: "uuid \<Rightarrow> uuid option \<Rightarrow> nat \<Rightarrow> stream \<Rightarrow> done_event \<times> stream" where
  "listen_for_cancellation run_id thread_id q w =
     (case (case get_control_key run_id thread_id w of None \<Rightarrow> None | Some m \<Rightarrow> control_event (m_data m)) of
        Some e \<Rightarrow> (e, w)
      | None \<Rightarrow> (case listen_loop (sm_heap w q) of (e, ms) \<Rightarrow> (e, w\<lparr>sm_heap := (sm_heap w)(q := ms)\<rparr>)))"

text \<open>
  \<open>Runs.Stream.join\<close>. \<open>decode topic data\<close> is \<open>decode_stream_message\<close>: the event and the payload of
  a frame. The replay stops at a \<open>done\<close> frame; the live loop reads the queue, and on a timeout looks
  the run up again. \<open>JTimeout r\<close> is a timeout at which \<open>Runs.get\<close> finds \<open>r\<close>.
\<close>

type_synonym frame = "string \<times> string \<times> string option"
type_synonym decoder = "string \<Rightarrow> string \<Rightarrow> string \<times> string"

fun join_replay :: "decoder \<Rightarrow> string list option \<Rightarrow> message list \<Rightarrow> frame list \<times> bool" where
  "join_replay decode modes [] = ([], False)"
| "join_replay decode modes (m # ms) =
     (case decode (m_topic m) (m_data m) of (mode, payload) \<Rightarrow>
        if mode = ''control''
        then (if payload = ''done'' then ([], True) else join_replay decode modes ms)
        else (case join_replay decode modes ms of (fs, d) \<Rightarrow>
                (if run_stream_mode_matches mode modes then (mode, payload, m_id m) # fs else fs, d)))"

datatype join_event = JMessage message | JTimeout "run option"

text \<open>How the live loop ends: it is still waiting, it broke off, it reported that the run is gone,
  or it raised (\<open>run.get\<close> on \<open>None\<close>).\<close>

datatype join_end = Waiting | Ended | Gone | Raised exn

definition frame_id :: "run \<Rightarrow> message \<Rightarrow> string option" where
  "frame_id r m = (if truthy (dict_get (r_kwargs r) ''resumable'' PNone) then m_id m else None)"

fun join_live :: "decoder \<Rightarrow> string list option \<Rightarrow> bool \<Rightarrow> run option \<Rightarrow> join_event list \<Rightarrow> frame list \<times> join_end" where
  "join_live decode modes ignore_404 run [] = ([], Waiting)"
| "join_live decode modes ignore_404 run (JMessage m # es) =
     (if m_topic m = STREAM_CLOSE_TOPIC then ([], Ended)
      else case decode (m_topic m) (m_data m) of (mode, payload) \<Rightarrow>
        if mode = ''control''
        then (if payload = ''done'' then ([], Ended) else join_live decode modes ignore_404 run es)
        else if \<not> run_stream_mode_matches mode modes then join_live decode modes ignore_404 run es
        else (case run of
                None \<Rightarrow> ([], Raised AttributeError)
              | Some r \<Rightarrow>
                  (case join_live decode modes ignore_404 run es of (fs, e) \<Rightarrow>
                     ((mode, payload, frame_id r m) # fs, e))))"
| "join_live decode modes ignore_404 run (JTimeout r # es) =
     (case r of
        None \<Rightarrow> ([], if ignore_404 then Ended else Gone)
      | Some x \<Rightarrow> if \<not> active_status (r_status x) then ([], Ended) else join_live decode modes ignore_404 r es)"

definition check_run_stream_auth :: "env \<Rightarrow> uuid \<Rightarrow> unit act" where
  "check_run_stream_auth env thread_id =
     bind (lift_res (auth_filters env AThreads ARead (Some thread_id))) (\<lambda>filters.
     bind (thread_gate filters thread_id) (\<lambda>ok. if ok then ret () else raise (HTTPException 404)))"

text \<open>The whole call: the authorization, the replay after \<open>last_event_id\<close>, the live loop, and the
  release of the queue. A disconnect with \<open>cancel_on_disconnect\<close>, which starts a task, is not
  modelled.\<close>

definition run_join ::
  "env \<Rightarrow> decoder \<Rightarrow> uuid \<Rightarrow> uuid \<Rightarrow> nat \<Rightarrow> bool \<Rightarrow> string list option \<Rightarrow> string option \<Rightarrow> join_event list
     \<Rightarrow> (frame list \<times> join_end) act" where
  "run_join env decode run_id thread_id q ignore_404 modes last_event_id events =
     finally_act
       (bind (check_run_stream_auth env thread_id) (\<lambda>_.
        bind (runs_get env run_id thread_id) (\<lambda>run.
        bind (reads s_stream) (\<lambda>w.
        bind (lift_res (restore_messages run_id (Some thread_id) last_event_id w)) (\<lambda>ms.
          case join_replay decode modes ms of (fs, d) \<Rightarrow>
            if d then ret (fs, Ended)
            else (case join_live decode modes ignore_404 run events of (gs, e) \<Rightarrow> ret (fs @ gs, e)))))))
       (\<lambda>s. s\<lparr>s_stream := remove_queue run_id (Some thread_id) q (s_stream s)\<rparr>)"

end
