(* ===== verification/Assistants.thy ===== *)
theory Assistants
  imports Runs
begin

text \<open>
  The class \<open>Assistants\<close> of \<open>ops.py\<close>: search and count, get, put, patch with its versions,
  set_latest, get_versions, and delete with its cascade over threads, runs, versions and crons. The
  graph registry is a parameter. A \<open>configurable\<close> is a dictionary.
\<close>

section \<open>Reading\<close>

definition assistant_matches ::
  "dict option \<Rightarrow> dict \<Rightarrow> string option \<Rightarrow> string option \<Rightarrow> assistant \<Rightarrow> bool res" where
  "assistant_matches filters metadata graph_id name a =
     (if (case graph_id of None \<Rightarrow> False | Some g \<Rightarrow> g \<noteq> [] \<and> a_graph_id a \<noteq> g) then Inr False
      else if (case name of None \<Rightarrow> False | Some n \<Rightarrow> n \<noteq> [] \<and> \<not> substring (py_lower n) (py_lower (a_name a))) then Inr False
      else if \<not> is_jsonb_contained (a_metadata a) metadata then Inr False
      else allowed (a_metadata a) filters)"

fun filter_res :: "('a \<Rightarrow> bool res) \<Rightarrow> 'a list \<Rightarrow> 'a list res" where
  "filter_res p [] = Inr []"
| "filter_res p (x # xs) = res_bind (p x) (\<lambda>b. res_bind (filter_res p xs) (\<lambda>ys. Inr (if b then x # ys else ys)))"

definition sort_assistants :: "string option \<Rightarrow> string option \<Rightarrow> assistant list \<Rightarrow> assistant list" where
  "sort_assistants sort_by sort_order as =
     (let rev = sort_reverse sort_order; k = map_option py_lower sort_by in
      if k = Some ''assistant_id'' then sort_rows rev a_id as
      else if k = Some ''graph_id'' then sort_rows rev (\<lambda>a. py_lower (a_graph_id a)) as
      else if k = Some ''name'' then sort_rows rev (\<lambda>a. py_lower (a_name a)) as
      else if k = Some ''created_at'' then sort_rows rev a_created_at as
      else if k = Some ''updated_at'' then sort_rows rev a_updated_at as
      else sort_desc a_created_at as)"

definition assistants_search ::
  "env \<Rightarrow> string option \<Rightarrow> string option \<Rightarrow> dict option \<Rightarrow> nat \<Rightarrow> nat \<Rightarrow> string option \<Rightarrow> string option
     \<Rightarrow> (assistant list \<times> nat option) act" where
  "assistants_search env graph_id name metadata limit offset sort_by sort_order =
     bind (lift_res (handle_event env AAssistants ASearch None (case metadata of None \<Rightarrow> [] | Some m \<Rightarrow> m))) (\<lambda>(filters, metadata).
     bind (lift_res (case graph_id of None \<Rightarrow> Inr () | Some g \<Rightarrow> e_assert_graph_exists env g)) (\<lambda>_.
     bind (reads s_assistants) (\<lambda>as.
     bind (lift_res (filter_res (assistant_matches filters metadata graph_id name) as)) (\<lambda>found.
       ret (paginate offset limit (sort_assistants sort_by sort_order found))))))"

definition assistants_count :: "env \<Rightarrow> string option \<Rightarrow> string option \<Rightarrow> dict option \<Rightarrow> nat act" where
  "assistants_count env graph_id name metadata =
     bind (lift_res (handle_event env AAssistants ASearch None (case metadata of None \<Rightarrow> [] | Some m \<Rightarrow> m))) (\<lambda>(filters, metadata).
     bind (lift_res (case graph_id of None \<Rightarrow> Inr () | Some g \<Rightarrow> e_assert_graph_exists env g)) (\<lambda>_.
     bind (reads s_assistants) (\<lambda>as.
       lift_res (count_loop (assistant_matches filters metadata graph_id name) as))))"

definition assistants_get :: "env \<Rightarrow> uuid \<Rightarrow> assistant list act" where
  "assistants_get env assistant_id =
     bind (lift_res (auth_filters env AAssistants ARead (Some assistant_id))) (\<lambda>filters.
     bind (reads s_assistants) (\<lambda>as.
       lift_res (filter_res (\<lambda>a. if a_id a \<noteq> assistant_id then Inr False else allowed (a_metadata a) filters) as)))"

section \<open>Creating and changing\<close>

text \<open>\<open>config\<close> and \<open>context\<close> follow one another (giving both was refused before).\<close>

definition sync_context :: "dict \<Rightarrow> dict option \<Rightarrow> dict \<times> dict option" where
  "sync_context config context =
     (let configurable = dict_at config ''configurable''; c = (case context of None \<Rightarrow> [] | Some x \<Rightarrow> x) in
      if configurable \<noteq> [] then (config, Some configurable)
      else if c \<noteq> [] then (AList.update ''configurable'' (PDict c) config, context)
      else (config, context))"

definition set_assistant :: "uuid \<Rightarrow> (assistant \<Rightarrow> assistant) \<Rightarrow> sys \<Rightarrow> sys" where
  "set_assistant assistant_id f s = s\<lparr>s_assistants := update_first (\<lambda>a. a_id a = assistant_id) f (s_assistants s)\<rparr>"

definition new_assistant :: "uuid \<Rightarrow> string \<Rightarrow> dict \<Rightarrow> dict \<Rightarrow> dict \<Rightarrow> string \<Rightarrow> string option \<Rightarrow> int \<Rightarrow> assistant" where
  "new_assistant assistant_id graph_id config context metadata name description now =
     \<lparr>a_id = assistant_id, a_graph_id = graph_id, a_config = config, a_context = Some context, a_metadata = metadata,
      a_name = name, a_created_at = now, a_updated_at = now, a_version = 1, a_description = description\<rparr>"

definition first_version :: "assistant \<Rightarrow> dict \<Rightarrow> assistant_version" where
  "first_version a context =
     \<lparr>v_assistant = a_id a, v_version = 1, v_graph_id = a_graph_id a, v_config = a_config a, v_context = context,
      v_metadata = a_metadata a, v_created_at = a_created_at a, v_name = Some (a_name a),
      v_description = Some (a_description a)\<rparr>"

definition assistants_put ::
  "env \<Rightarrow> uuid \<Rightarrow> string \<Rightarrow> dict \<Rightarrow> dict option \<Rightarrow> dict option \<Rightarrow> if_exists \<Rightarrow> string \<Rightarrow> string option \<Rightarrow> assistant act" where
  "assistants_put env assistant_id graph_id config context metadata if_exists name description =
     bind (lift_res (handle_event env AAssistants ACreate (Some assistant_id) (case metadata of None \<Rightarrow> [] | Some m \<Rightarrow> m))) (\<lambda>(filters, metadata).
     bind (lift_res (if dict_at config ''configurable'' \<noteq> [] \<and> (case context of None \<Rightarrow> False | Some c \<Rightarrow> c \<noteq> [])
                     then Inl (HTTPException 400) else Inr ())) (\<lambda>_.
     bind (lift_res (e_assert_graph_exists env graph_id)) (\<lambda>_.
     bind (ret (sync_context config context)) (\<lambda>(config, context).
     bind (reads s_assistants) (\<lambda>as.
       case find_assistant assistant_id as of
         Some a \<Rightarrow>
           bind (lift_res (allowed (a_metadata a) filters)) (\<lambda>ok.
             if \<not> ok then raise (HTTPException 409)
             else case if_exists of IfRaise \<Rightarrow> raise (HTTPException 409) | IfDoNothing \<Rightarrow> ret a)
       | None \<Rightarrow>
           bind (datetime_now env) (\<lambda>now.
             let c = (case context of None \<Rightarrow> [] | Some x \<Rightarrow> x);
                 a = new_assistant assistant_id graph_id config c metadata name description now
             in bind (modify (\<lambda>s. s\<lparr>s_assistants := s_assistants s @ [a], s_versions := s_versions s @ [first_version a c]\<rparr>)) (\<lambda>_.
                ret a)))))))"

text \<open>\<open>max(...) + 1\<close> over the versions of the assistant when the table has any row at all; \<open>max\<close> of
  nothing raises.\<close>

definition next_version :: "uuid \<Rightarrow> assistant_version list \<Rightarrow> int res" where
  "next_version assistant_id vs =
     (if vs = [] then Inr 1
      else case map v_version (filter (\<lambda>v. v_assistant v = assistant_id) vs) of
             [] \<Rightarrow> Inl ValueError
           | n # ns \<Rightarrow> Inr (fold max ns n + 1))"

record assistant_patch =
  p_config :: dict
  p_context :: "dict option"
  p_graph_id :: "string option"
  p_metadata :: dict
  p_name :: "string option"
  p_description :: "string option"

definition patched_assistant :: "assistant_patch \<Rightarrow> int \<Rightarrow> int \<Rightarrow> assistant \<Rightarrow> assistant" where
  "patched_assistant p n now a =
     a\<lparr>a_graph_id := (case p_graph_id p of None \<Rightarrow> a_graph_id a | Some g \<Rightarrow> g),
       a_config := (if p_config p \<noteq> [] then p_config p else a_config a),
       a_context := Some (case p_context p of None \<Rightarrow> (case a_context a of None \<Rightarrow> [] | Some c \<Rightarrow> c) | Some c \<Rightarrow> c),
       a_metadata := dict_merge (a_metadata a) (p_metadata p),
       a_name := (case p_name p of None \<Rightarrow> a_name a | Some x \<Rightarrow> x),
       a_description := (case p_description p of None \<Rightarrow> a_description a | Some x \<Rightarrow> Some x),
       a_updated_at := now, a_version := n\<rparr>"

definition version_entry :: "assistant \<Rightarrow> int \<Rightarrow> assistant_version" where
  "version_entry a now =
     \<lparr>v_assistant = a_id a, v_version = a_version a, v_graph_id = a_graph_id a, v_config = a_config a,
      v_context = (case a_context a of None \<Rightarrow> [] | Some c \<Rightarrow> c), v_metadata = a_metadata a, v_created_at = now,
      v_name = Some (a_name a), v_description = Some (a_description a)\<rparr>"

text \<open>The checks \<open>patch\<close>, \<open>set_latest\<close> and \<open>delete\<close> share: the assistant, or 404.\<close>

definition get_assistant :: "uuid \<Rightarrow> dict option \<Rightarrow> assistant act" where
  "get_assistant assistant_id filters =
     bind (reads s_assistants) (\<lambda>as.
       case find_assistant assistant_id as of
         None \<Rightarrow> raise (HTTPException 404)
       | Some a \<Rightarrow> bind (lift_res (allowed (a_metadata a) filters)) (\<lambda>ok. if ok then ret a else raise (HTTPException 404)))"

definition assistants_patch ::
  "env \<Rightarrow> uuid \<Rightarrow> dict option \<Rightarrow> dict option \<Rightarrow> string option \<Rightarrow> dict option \<Rightarrow> string option \<Rightarrow> string option
     \<Rightarrow> assistant act" where
  "assistants_patch env assistant_id config context graph_id metadata name description =
     (let config = (case config of None \<Rightarrow> [] | Some c \<Rightarrow> c) in
      bind (lift_res (handle_event env AAssistants AUpdate (Some assistant_id) (case metadata of None \<Rightarrow> [] | Some m \<Rightarrow> m))) (\<lambda>(filters, metadata).
      bind (lift_res (if dict_at config ''configurable'' \<noteq> [] \<and> (case context of None \<Rightarrow> False | Some c \<Rightarrow> c \<noteq> [])
                      then Inl (HTTPException 400) else Inr ())) (\<lambda>_.
      bind (lift_res (case graph_id of None \<Rightarrow> Inr () | Some g \<Rightarrow> e_assert_graph_exists env g)) (\<lambda>_.
      bind (ret (sync_context config context)) (\<lambda>(config, context).
      bind (get_assistant assistant_id filters) (\<lambda>a.
      bind (datetime_now env) (\<lambda>now. bind (reads s_versions) (\<lambda>vs.
      bind (lift_res (next_version assistant_id vs)) (\<lambda>n.
        let a' = patched_assistant \<lparr>p_config = config, p_context = context, p_graph_id = graph_id, p_metadata = metadata,
                   p_name = name, p_description = description\<rparr> n now a
        in bind (modify (\<lambda>s. s\<lparr>s_versions := s_versions s @ [version_entry a' now]\<rparr>)) (\<lambda>_.
           bind (modify (set_assistant assistant_id (\<lambda>_. a'))) (\<lambda>_. ret a')))))))))))"

section \<open>Versions\<close>

definition restored :: "assistant_version \<Rightarrow> string \<Rightarrow> string option \<Rightarrow> int \<Rightarrow> assistant \<Rightarrow> assistant" where
  "restored v name description now a =
     a\<lparr>a_config := v_config v, a_metadata := v_metadata v, a_version := v_version v, a_updated_at := now,
       a_name := name, a_description := description\<rparr>"

definition assistants_set_latest :: "env \<Rightarrow> uuid \<Rightarrow> int \<Rightarrow> assistant act" where
  "assistants_set_latest env assistant_id version =
     bind (lift_res (auth_filters env AAssistants AUpdate (Some assistant_id))) (\<lambda>filters.
     bind (get_assistant assistant_id filters) (\<lambda>a.
     bind (reads s_versions) (\<lambda>vs.
       case find (\<lambda>v. v_assistant v = assistant_id \<and> v_version v = version) vs of
         None \<Rightarrow> raise (HTTPException 404)
       | Some v \<Rightarrow>
           bind (datetime_now env) (\<lambda>now.
             case (v_name v, v_description v) of
               (Some name, Some description) \<Rightarrow>
                 bind (modify (set_assistant assistant_id (restored v name description now))) (\<lambda>_.
                   ret (restored v name description now a))
             | _ \<Rightarrow> raise KeyError))))"

text \<open>The names and descriptions missing in old rows are filled in, the description with the last
  one seen before.\<close>

fun fill_versions :: "string \<Rightarrow> string option \<Rightarrow> (bool \<times> assistant_version) list \<Rightarrow> (bool \<times> assistant_version) list" where
  "fill_versions name description [] = []"
| "fill_versions name description ((b, v) # vs) =
     (if \<not> b then (b, v) # fill_versions name description vs
      else let v' = v\<lparr>v_name := (case v_name v of None \<Rightarrow> Some name | Some x \<Rightarrow> Some x),
                      v_description := (case v_description v of None \<Rightarrow> Some description | Some x \<Rightarrow> Some x)\<rparr>
           in (b, v') # fill_versions name (case v_description v of None \<Rightarrow> description | Some x \<Rightarrow> x) vs)"

definition assistants_get_versions :: "env \<Rightarrow> uuid \<Rightarrow> dict option \<Rightarrow> nat \<Rightarrow> nat \<Rightarrow> assistant_version list act" where
  "assistants_get_versions env assistant_id metadata limit offset =
     bind (lift_res (auth_filters env AAssistants ARead (Some assistant_id))) (\<lambda>filters.
     bind (reads id) (\<lambda>s.
       case find_assistant assistant_id (s_assistants s) of
         None \<Rightarrow> raise (HTTPException 404)
       | Some a \<Rightarrow>
           bind (lift_res (map_res (\<lambda>v.
                   if v_assistant v \<noteq> assistant_id then Inr (False, v)
                   else if \<not> is_jsonb_contained (v_metadata v) (case metadata of None \<Rightarrow> [] | Some m \<Rightarrow> m) then Inr (False, v)
                   else res_bind (allowed (v_metadata v) filters) (\<lambda>b. Inr (b, v))) (s_versions s))) (\<lambda>bvs.
             let filled = fill_versions (a_name a) (a_description a) bvs
             in bind (modify (\<lambda>s. s\<lparr>s_versions := map snd filled\<rparr>)) (\<lambda>_.
                ret (py_slice offset limit (sort_desc v_version (map snd (filter fst filled))))))))"

section \<open>Deleting\<close>

definition assistant_threads :: "uuid \<Rightarrow> thread list \<Rightarrow> uuid list" where
  "assistant_threads assistant_id ts =
     map t_id (filter (\<lambda>t. map_of (t_metadata t) ''assistant_id'' = Some (PStr (uuid_str assistant_id))) ts)"

definition drop_assistant :: "uuid \<Rightarrow> sys \<Rightarrow> sys" where
  "drop_assistant assistant_id s =
     s\<lparr>s_assistants := filter (\<lambda>a. a_id a \<noteq> assistant_id) (s_assistants s),
       s_versions := filter (\<lambda>v. v_assistant v \<noteq> assistant_id) (s_versions s),
       s_crons := filter (\<lambda>c. c_assistant c \<noteq> assistant_id) (s_crons s)\<rparr>"

definition assistants_delete :: "env \<Rightarrow> uuid \<Rightarrow> bool \<Rightarrow> uuid act" where
  "assistants_delete env assistant_id delete_threads =
     bind (lift_res (auth_filters env AAssistants ADelete (Some assistant_id))) (\<lambda>filters.
     bind (get_assistant assistant_id filters) (\<lambda>_.
     bind (reads s_threads) (\<lambda>ts.
     bind (when_act delete_threads
             (each_act (\<lambda>i. catch_http (bind (threads_delete env i) (\<lambda>_. ret ())) (\<lambda>_. ret ()))
               (assistant_threads assistant_id ts))) (\<lambda>_.
     bind (runs_cancel env \<lparr>k_run_ids = None, k_thread = None, k_status = None, k_assistant = Some assistant_id\<rparr> CancelInterrupt) (\<lambda>_.
     bind (modify (drop_assistant assistant_id)) (\<lambda>_. ret assistant_id))))))"

end
