(* ===== verification/Crons.thy ===== *)
theory Crons
  imports Assistants
begin

text \<open>
  The class \<open>Crons\<close> of \<open>ops.py\<close>: put, update, get, delete, next, set_next_run_date, search and count.
  The validity of a schedule and the next date it gives (\<open>croniter\<close>), and the resolution of an
  assistant name, are parameters. \<open>config\<close> and \<open>configurable\<close> of a payload are dictionaries, \<open>None\<close>
  or absent.
\<close>

section \<open>Creating\<close>

definition find_cron :: "uuid \<Rightarrow> cron list \<Rightarrow> cron option" where
  "find_cron cron_id cs = find (\<lambda>c. c_id c = cron_id) cs"

definition set_cron :: "uuid \<Rightarrow> (cron \<Rightarrow> cron) \<Rightarrow> sys \<Rightarrow> sys" where
  "set_cron cron_id f s = s\<lparr>s_crons := update_first (\<lambda>c. c_id c = cron_id) f (s_crons s)\<rparr>"

definition validate_cron_schedule :: "env \<Rightarrow> string \<Rightarrow> unit res" where
  "validate_cron_schedule env schedule = (if e_cron_valid env schedule then Inr () else Inl (HTTPException 422))"

text \<open>\<open>payload["config"]["configurable"]["cron_id"] = str(cron_id)\<close>, creating what is missing.\<close>

definition tag_payload :: "uuid \<Rightarrow> dict \<Rightarrow> dict" where
  "tag_payload cron_id payload =
     (let config = dict_at payload ''config''; configurable = dict_at config ''configurable''
      in AList.update ''config''
           (PDict (AList.update ''configurable''
             (PDict (AList.update ''cron_id'' (PStr (uuid_str cron_id)) configurable)) config)) payload)"

definition parse_thread_id :: "id_arg option \<Rightarrow> uuid option res" where
  "parse_thread_id thread_id =
     (case thread_id of
        None \<Rightarrow> Inr None
      | Some (IdStr []) \<Rightarrow> Inr None
      | Some i \<Rightarrow>
          (case uuid_of_string (id_str i) of Inl _ \<Rightarrow> Inl (HTTPException 422) | Inr u \<Rightarrow> Inr (Some u)))"

text \<open>\<open>str(v)\<close> of an assistant id.\<close>

definition str_of_id :: "env \<Rightarrow> pyval \<Rightarrow> string" where
  "str_of_id env v = (case v of PStr s \<Rightarrow> s | PUUID u \<Rightarrow> uuid_str u | _ \<Rightarrow> e_str env v)"

record cron_request =
  cq_payload :: dict
  cq_schedule :: string
  cq_id :: "uuid option"
  cq_thread :: "id_arg option"
  cq_on_run_completed :: "string option"
  cq_end_time :: "int option"
  cq_metadata :: "dict option"
  cq_enabled :: bool
  cq_timezone :: "string option"
  cq_user :: "string option"

text \<open>The authorization of the assistant and of the thread a cron names; 404 when one is missing or
  denied.\<close>

definition cron_assistant :: "env \<Rightarrow> pyval \<Rightarrow> assistant act" where
  "cron_assistant env assistant_id =
     bind (if \<exists>x \<in> set (e_system_assistants env). py_eq x assistant_id then ret None
           else lift_res (case uuid_of_string (str_of_id env assistant_id) of
                            Inl e \<Rightarrow> auth_filters env AAssistants ARead None
                          | Inr u \<Rightarrow> auth_filters env AAssistants ARead (Some u))) (\<lambda>filters.
     bind (reads s_assistants) (\<lambda>as.
       case find (\<lambda>a. uuid_str (a_id a) = str_of_id env assistant_id) as of
         None \<Rightarrow> raise (HTTPException 404)
       | Some a \<Rightarrow> bind (lift_res (allowed (a_metadata a) filters)) (\<lambda>ok. if ok then ret a else raise (HTTPException 404))))"

definition cron_thread_check :: "env \<Rightarrow> uuid option \<Rightarrow> dict \<Rightarrow> dict act" where
  "cron_thread_check env thread_id metadata =
     (case thread_id of
        None \<Rightarrow> ret metadata
      | Some i \<Rightarrow>
          bind (lift_res (handle_event env AThreads ARead (Some i) metadata)) (\<lambda>(filters, metadata).
          bind (reads s_threads) (\<lambda>ts.
            case find_thread i ts of
              None \<Rightarrow> raise (HTTPException 404)
            | Some t \<Rightarrow>
                bind (lift_res (allowed (t_metadata t) filters)) (\<lambda>ok.
                  if ok then ret metadata else raise (HTTPException 404)))))"

definition crons_put :: "env \<Rightarrow> cron_request \<Rightarrow> cron option act" where
  "crons_put env q =
     bind (case cq_id q of None \<Rightarrow> uuid4 env | Some i \<Rightarrow> ret i) (\<lambda>cron_id.
     bind (lift_res (parse_thread_id (cq_thread q))) (\<lambda>thread_id.
       let completed = (case thread_id of
             Some _ \<Rightarrow> None
           | None \<Rightarrow> Some (case cq_on_run_completed q of None \<Rightarrow> ''delete'' | Some x \<Rightarrow> if x = [] then ''delete'' else x));
           payload = tag_payload cron_id (cq_payload q)
       in
       bind (lift_res (handle_event env ACrons ACreate (Some cron_id) (case cq_metadata q of None \<Rightarrow> [] | Some m \<Rightarrow> m))) (\<lambda>(filters, metadata).
       bind (lift_res (validate_cron_schedule env (cq_schedule q))) (\<lambda>_.
         case map_of payload ''assistant_id'' of
           None \<Rightarrow> raise KeyError
         | Some v \<Rightarrow>
             let assistant_id = e_get_assistant_id env v;
                 payload = AList.update ''assistant_id'' assistant_id payload
             in
             bind (cron_assistant env assistant_id) (\<lambda>a.
             bind (cron_thread_check env thread_id metadata) (\<lambda>metadata.
             bind (reads s_crons) (\<lambda>cs.
               case find_cron cron_id cs of
                 Some c \<Rightarrow> bind (lift_res (allowed (c_metadata c) filters)) (\<lambda>ok. ret (if ok then Some c else None))
               | None \<Rightarrow>
                   bind (datetime_now env) (\<lambda>now.
                     let c = \<lparr>c_id = cron_id, c_assistant = a_id a, c_thread = thread_id, c_user = cq_user q,
                              c_end_time = cq_end_time q, c_schedule = cq_schedule q, c_timezone = cq_timezone q,
                              c_payload = payload, c_next_run = e_next_cron env (cq_schedule q) now (cq_timezone q),
                              c_metadata = metadata, c_on_run_completed = completed, c_enabled = cq_enabled q,
                              c_created_at = now, c_updated_at = now\<rparr>
                     in bind (modify (\<lambda>s. s\<lparr>s_crons := s_crons s @ [c]\<rparr>)) (\<lambda>_. ret (Some c)))))))))) "

section \<open>Changing\<close>

record cron_update =
  cu_schedule :: "string option"
  cu_end_time :: "int option"
  cu_clear_end_time :: bool
  cu_enabled :: "bool option"
  cu_on_run_completed :: "string option"
  cu_payload :: "dict option"
  cu_metadata :: "dict option"
  cu_timezone :: "string option"

definition has_updates :: "cron_update \<Rightarrow> bool" where
  "has_updates u \<longleftrightarrow>
     cu_clear_end_time u \<or> cu_schedule u \<noteq> None \<or> cu_end_time u \<noteq> None \<or> cu_enabled u \<noteq> None
     \<or> cu_on_run_completed u \<noteq> None \<or> cu_payload u \<noteq> None \<or> cu_metadata u \<noteq> None \<or> cu_timezone u \<noteq> None"

text \<open>The payload of an update: merged, with the assistant of the cron and its tag kept.\<close>

definition merged_payload :: "uuid \<Rightarrow> dict \<Rightarrow> dict \<Rightarrow> dict" where
  "merged_payload cron_id existing payload =
     (let merged = dict_merge existing payload
      in tag_payload cron_id
           (AList.update ''assistant_id''
             (dict_get existing ''assistant_id'' (dict_get merged ''assistant_id'' PNone)) merged))"

text \<open>The fields that follow the schedule in the code.\<close>

definition rest_update :: "uuid \<Rightarrow> cron_update \<Rightarrow> dict option \<Rightarrow> int \<Rightarrow> cron \<Rightarrow> cron" where
  "rest_update cron_id u metadata now c =
     c\<lparr>c_end_time := (if cu_clear_end_time u then None else case cu_end_time u of None \<Rightarrow> c_end_time c | Some t \<Rightarrow> Some t),
       c_enabled := (case cu_enabled u of None \<Rightarrow> c_enabled c | Some b \<Rightarrow> b),
       c_on_run_completed := (case cu_on_run_completed u of None \<Rightarrow> c_on_run_completed c | Some x \<Rightarrow> Some x),
       c_metadata := (case metadata of None \<Rightarrow> c_metadata c | Some m \<Rightarrow> dict_merge (c_metadata c) m),
       c_payload := (case cu_payload u of None \<Rightarrow> c_payload c | Some p \<Rightarrow> merged_payload cron_id (c_payload c) p),
       c_updated_at := now\<rparr>"

definition crons_update :: "env \<Rightarrow> uuid \<Rightarrow> cron_update \<Rightarrow> cron act" where
  "crons_update env cron_id u =
     bind (lift_res (handle_event env ACrons AUpdate (Some cron_id) (case cu_metadata u of None \<Rightarrow> [] | Some m \<Rightarrow> m))) (\<lambda>(filters, md).
       let metadata = (case cu_metadata u of None \<Rightarrow> None | Some _ \<Rightarrow> Some md) in
       if \<not> has_updates u then raise (HTTPException 400)
       else bind (reads s_crons) (\<lambda>cs.
         case find_cron cron_id cs of
           None \<Rightarrow> raise (HTTPException 404)
         | Some c \<Rightarrow>
             bind (lift_res (allowed (c_metadata c) filters)) (\<lambda>ok.
               if \<not> ok then raise (HTTPException 404)
               else
                 bind (case cu_timezone u of None \<Rightarrow> ret ()
                       | Some z \<Rightarrow> modify (set_cron cron_id (\<lambda>c. c\<lparr>c_timezone := Some z\<rparr>))) (\<lambda>_.
                 bind (case cu_schedule u of
                         Some sched \<Rightarrow>
                           bind (lift_res (validate_cron_schedule env sched)) (\<lambda>_.
                           bind (datetime_now env) (\<lambda>now.
                             modify (set_cron cron_id (\<lambda>c. c\<lparr>c_schedule := sched, c_next_run := e_next_cron env sched now (c_timezone c)\<rparr>))))
                       | None \<Rightarrow>
                           (case cu_timezone u of
                              None \<Rightarrow> ret ()
                            | Some z \<Rightarrow>
                                bind (datetime_now env) (\<lambda>now.
                                  modify (set_cron cron_id (\<lambda>c. c\<lparr>c_next_run := e_next_cron env (c_schedule c) now (Some z)\<rparr>))))) (\<lambda>_.
                 bind (datetime_now env) (\<lambda>now.
                 bind (modify (set_cron cron_id (rest_update cron_id u metadata now))) (\<lambda>_.
                 bind (reads s_crons) (\<lambda>cs.
                   ret (case find_cron cron_id cs of None \<Rightarrow> c | Some c' \<Rightarrow> c')))))))))"

definition crons_set_next_run_date :: "uuid \<Rightarrow> int \<Rightarrow> unit act" where
  "crons_set_next_run_date cron_id next_run_date =
     modify (set_cron cron_id (\<lambda>c. c\<lparr>c_next_run := next_run_date\<rparr>))"

section \<open>Reading and deleting\<close>

definition crons_get :: "env \<Rightarrow> uuid \<Rightarrow> cron list act" where
  "crons_get env cron_id =
     bind (lift_res (auth_filters env ACrons ARead (Some cron_id))) (\<lambda>filters.
     bind (reads s_crons) (\<lambda>cs.
       lift_res (filter_res (\<lambda>c. if c_id c \<noteq> cron_id then Inr False else allowed (c_metadata c) filters) cs)))"

definition crons_delete :: "env \<Rightarrow> uuid \<Rightarrow> uuid option act" where
  "crons_delete env cron_id =
     bind (lift_res (auth_filters env ACrons ADelete (Some cron_id))) (\<lambda>filters.
     bind (reads s_crons) (\<lambda>cs.
     bind (lift_res (filter_res (\<lambda>c. if c_id c \<noteq> cron_id then Inr True
                                     else res_bind (allowed (c_metadata c) filters) (\<lambda>ok. Inr (\<not> ok))) cs)) (\<lambda>kept.
     bind (modify (\<lambda>s. s\<lparr>s_crons := kept\<rparr>)) (\<lambda>_.
       ret (if length cs > length kept then Some cron_id else None)))))"

text \<open>The crons that are due, each with the time they were found at.\<close>

definition crons_next :: "env \<Rightarrow> (cron \<times> int) list act" where
  "crons_next env =
     bind (datetime_now env) (\<lambda>now. bind (reads s_crons) (\<lambda>cs.
       ret (map (\<lambda>c. (c, now))
         (filter (\<lambda>c. c_enabled c \<and> (case c_end_time c of None \<Rightarrow> True | Some e \<Rightarrow> e \<ge> now) \<and> c_next_run c \<le> now) cs))))"

definition cron_matches ::
  "dict option \<Rightarrow> dict \<Rightarrow> uuid option \<Rightarrow> uuid option \<Rightarrow> bool option \<Rightarrow> cron \<Rightarrow> bool res" where
  "cron_matches filters metadata assistant_id thread_id enabled c =
     (if (case assistant_id of None \<Rightarrow> False | Some a \<Rightarrow> c_assistant c \<noteq> a) then Inr False
      else if thread_id \<noteq> None \<and> c_thread c \<noteq> thread_id then Inr False
      else if (case enabled of None \<Rightarrow> False | Some b \<Rightarrow> c_enabled c \<noteq> b) then Inr False
      else if \<not> is_jsonb_contained (c_metadata c) metadata then Inr False
      else allowed (c_metadata c) filters)"

text \<open>The second pass: crons of a thread are shown to those who may see the thread; a missing thread
  counts as one without metadata.\<close>

definition cron_thread_visible :: "dict option \<Rightarrow> thread list \<Rightarrow> cron \<Rightarrow> bool res" where
  "cron_thread_visible thread_filters ts c =
     (case c_thread c of
        None \<Rightarrow> Inr True
      | Some i \<Rightarrow> allowed (case find_thread i (rev ts) of None \<Rightarrow> [] | Some t \<Rightarrow> t_metadata t) thread_filters)"

definition cron_visible ::
  "env \<Rightarrow> dict option \<Rightarrow> uuid option \<Rightarrow> uuid option \<Rightarrow> bool option \<Rightarrow> cron list act" where
  "cron_visible env metadata assistant_id thread_id enabled =
     bind (lift_res (handle_event env ACrons ASearch None (case metadata of None \<Rightarrow> [] | Some m \<Rightarrow> m))) (\<lambda>(filters, md).
     bind (lift_res (case thread_id of
                       Some i \<Rightarrow> auth_filters env AThreads ARead (Some i)
                     | None \<Rightarrow> auth_filters env AThreads ASearch None)) (\<lambda>thread_filters.
     bind (reads id) (\<lambda>s.
     bind (lift_res (filter_res (cron_matches filters (if metadata = None \<or> metadata = Some [] then [] else md)
                       assistant_id thread_id enabled) (s_crons s))) (\<lambda>cs.
       if thread_filters = None \<or> thread_filters = Some [] then ret cs
       else lift_res (filter_res (cron_thread_visible thread_filters (s_threads s)) cs)))))"

definition sort_crons :: "string option \<Rightarrow> string option \<Rightarrow> cron list \<Rightarrow> cron list res" where
  "sort_crons sort_by sort_order cs =
     (let rev = sort_reverse sort_order;
          k = (case sort_by of None \<Rightarrow> None | Some x \<Rightarrow> if x = [] then None else Some (py_lower x)) in
      if k = Some ''cron_id'' then Inr (sort_rows rev (\<lambda>c. uuid_str (c_id c)) cs)
      else if k = Some ''assistant_id'' then Inr (sort_rows rev (\<lambda>c. uuid_str (c_assistant c)) cs)
      else if k = Some ''thread_id'' then
        Inr (sort_rows rev (\<lambda>c. case c_thread c of None \<Rightarrow> ''none'' | Some i \<Rightarrow> uuid_str i) cs)
      else if k = Some ''next_run_date'' then Inr (sort_rows rev c_next_run cs)
      else if k = Some ''end_time'' then
        Inr (sort_rows rev (\<lambda>c. case c_end_time c of None \<Rightarrow> datetime_min | Some e \<Rightarrow> e) cs)
      else if k = Some ''created_at'' then Inr (sort_rows rev c_created_at cs)
      else if k = Some ''updated_at'' then Inr (sort_rows rev c_updated_at cs)
      else if k = None then Inr (sort_desc c_created_at cs)
      else Inl (HTTPException 422))"

definition paginate_more :: "nat \<Rightarrow> nat \<Rightarrow> 'a list \<Rightarrow> 'a list \<times> nat option" where
  "paginate_more offset limit xs =
     (let page = py_slice offset (limit + 1) xs
      in if length page > limit then (take limit page, Some (offset + limit)) else (page, None))"

definition crons_search ::
  "env \<Rightarrow> uuid option \<Rightarrow> uuid option \<Rightarrow> bool option \<Rightarrow> nat \<Rightarrow> nat \<Rightarrow> string option \<Rightarrow> string option \<Rightarrow> dict option
     \<Rightarrow> (cron list \<times> nat option) act" where
  "crons_search env assistant_id thread_id enabled limit offset sort_by sort_order metadata =
     bind (cron_visible env metadata assistant_id thread_id enabled) (\<lambda>cs.
     bind (lift_res (sort_crons sort_by sort_order cs)) (\<lambda>sorted. ret (paginate_more offset limit sorted)))"

definition crons_count :: "env \<Rightarrow> uuid option \<Rightarrow> uuid option \<Rightarrow> dict option \<Rightarrow> nat act" where
  "crons_count env assistant_id thread_id metadata =
     bind (cron_visible env metadata assistant_id thread_id None) (\<lambda>cs. ret (length cs))"

end
