(* ===== verification/Thread_Safety.thy ===== *)
theory Thread_Safety
  imports Threads Stream_Safety Checkpoint_Safety "HOL-Library.Multiset"
begin

text \<open>
  What the operations on threads guarantee: searches return exactly the matching threads and their
  pages cover them, an authorization filter hides a thread from every operation, deleting a thread
  removes everything that belongs to it and nothing else, and the TTL sweep only touches threads
  that are idle and expired.
\<close>

section \<open>Executions\<close>

definition dropped :: "env \<Rightarrow> uuid \<Rightarrow> sys \<Rightarrow> sys" where
  "dropped env i s =
     s\<lparr>s_saver := saver_delete_thread (e_base_delete env) (IdStr (uuid_str i)) (s_saver s),
       s_stream := stream_delete_thread (e_codec env) i (s_stream s),
       s_runs := filter (\<lambda>r. r_thread r \<noteq> i) (s_runs s),
       s_crons := filter (\<lambda>c. c_thread c \<noteq> Some i) (s_crons s),
       s_threads := remove_first (\<lambda>t. t_id t = i) (s_threads s),
       s_ttls := AList.delete (uuid_str i) (s_ttls s)\<rparr>"

lemma drop_thread_eq: "drop_thread env i s = (Inr (), dropped env i s)"
  by (simp add: drop_thread_def delete_checkpoints_for_thread_def act_defs dropped_def)

lemma threads_delete_eq:
  "threads_delete env i s =
     (case auth_filters env AThreads ADelete (Some i) of
        Inl e \<Rightarrow> (Inl e, s)
      | Inr f \<Rightarrow>
          (case find_thread i (s_threads s) of
             None \<Rightarrow> (Inl (HTTPException 404), s)
           | Some t \<Rightarrow>
               (case allowed (t_metadata t) f of
                  Inl e \<Rightarrow> (Inl e, s)
                | Inr ok \<Rightarrow> if ok then (Inr i, dropped env i s) else (Inl (HTTPException 404), s))))"
  by (simp add: threads_delete_def bind_def reads_def lift_res_def raise_def ret_def drop_thread_eq split: sum.splits option.splits)

text \<open>A delete leaves the state alone or drops the thread.\<close>

lemma threads_delete_cases:
  "(snd (threads_delete env i s) = s \<and> (\<exists>e. fst (threads_delete env i s) = Inl e)) \<or>
   (threads_delete env i s = (Inr i, dropped env i s) \<and> find_thread i (s_threads s) \<noteq> None)"
  by (auto simp: threads_delete_eq split: sum.splits option.splits)

lemma find_thread_set:
  "(\<And>t. t_id (f t) = t_id t) \<Longrightarrow>
   find_thread j (s_threads (set_thread i f s)) =
     (if j = i then map_option f (find_thread i (s_threads s)) else find_thread j (s_threads s))"
  by (auto simp: find_thread_def set_thread_def intro!: find_update_first find_update_first_other)

lemma with_state_time_fields [simp]:
  "t_id (with_state_time t) = t_id t" "t_metadata (with_state_time t) = t_metadata t"
  "t_status (with_state_time t) = t_status t" "t_values (with_state_time t) = t_values t"
  "t_updated_at (with_state_time t) = t_updated_at t" "t_created_at (with_state_time t) = t_created_at t"
  "state_time (with_state_time t) = state_time t"
  by (simp_all add: with_state_time_def state_time_def)

lemma with_state_time_idem [simp]: "with_state_time (with_state_time t) = with_state_time t"
  by (simp add: with_state_time_def state_time_def)

lemma find_thread_SomeD: "find_thread i ts = Some t \<Longrightarrow> t \<in> set ts \<and> t_id t = i"
  by (auto simp: find_thread_def find_Some_iff)

lemma find_thread_remove_other:
  "j \<noteq> i \<Longrightarrow> find_thread j (remove_first (\<lambda>t. t_id t = i) ts) = find_thread j ts"
  unfolding find_thread_def by (induction ts) auto

section \<open>Deleting\<close>

lemma stream_delete_absent: "run_absent (TKey u) r (stream_delete_thread enc u w)"
  by (auto simp: stream_delete_thread_def Let_def run_absent_def fold_release_tables dict_simps)

lemma delete_thread_saver:
  assumes "base_delete_thread_law base"
  shows "cp_storage (saver_delete_thread base t sv) = AList.delete t (cp_storage sv)"
    and "cp_writes (saver_delete_thread base t sv) = filter (\<lambda>(k, g). fst k \<noteq> t) (cp_writes sv)"
    and "cp_blobs (saver_delete_thread base t sv) = filter (\<lambda>(k, b). fst k \<noteq> t) (cp_blobs sv)"
  using assms by (simp_all add: base_delete_thread_law_def saver_delete_thread_def Let_def)


section \<open>Searching\<close>

text \<open>A predicate that never raises on a table, and what the loops compute then.\<close>

lemma search_loop_total:
  assumes "\<And>t. t \<in> set ts \<Longrightarrow> p t = Inr (q t)"
  shows "search_loop p ts =
    (Inr (map with_state_time (filter q ts)), map (\<lambda>t. if q t then with_state_time t else t) ts)"
  using assms by (induction ts) (auto simp: res_bind_def)

lemma count_loop_total:
  assumes "\<And>t. t \<in> set ts \<Longrightarrow> p t = Inr (q t)"
  shows "count_loop p ts = Inr (length (filter q ts))"
  using assms by (induction ts) (auto simp: res_bind_def)

lemma set_sort_rows [simp]: "set (sort_rows r f xs) = set xs" "length (sort_rows r f xs) = length xs"
  by (simp_all add: sort_rows_def)

lemma mset_sort_desc [simp]: "mset (sort_desc f xs) = mset xs"
  by (simp add: sort_desc_def)

lemma mset_sort_threads [simp]: "mset (sort_threads sk order ts) = mset ts"
  by (simp add: sort_threads_def sort_rows_def Let_def)

text \<open>A client that follows the cursors: \<open>k\<close> bounds the number of pages.\<close>

fun follow_pages :: "nat \<Rightarrow> (nat \<Rightarrow> 'a list \<times> nat option) \<Rightarrow> nat \<Rightarrow> 'a list" where
  "follow_pages 0 page offset = []"
| "follow_pages (Suc k) page offset =
     (case page offset of (xs, None) \<Rightarrow> xs | (xs, Some next) \<Rightarrow> xs @ follow_pages k page next)"

lemma follow_paginate:
  assumes "0 < n" and "length xs - m \<le> k"
  shows "follow_pages (Suc k) (\<lambda>offset. paginate offset n xs) m = drop m xs"
  using assms(2)
proof (induction k arbitrary: m)
  case 0
  then show ?case by (simp add: paginate_def py_slice_def)
next
  case (Suc k)
  show ?case
  proof (cases "length xs > m + n")
    case True
    have "length xs - (m + n) \<le> k"
      using Suc.prems assms(1) by linarith
    then have "follow_pages (Suc k) (\<lambda>offset. paginate offset n xs) (m + n) = drop (m + n) xs"
      by (rule Suc.IH)
    moreover have "take n (drop m xs) @ drop (m + n) xs = drop m xs"
      by (metis append_take_drop_id drop_drop add.commute)
    ultimately show ?thesis
      using True by (subst follow_pages.simps(2)) (simp add: paginate_def py_slice_def del: follow_pages.simps)
  qed (simp add: paginate_def py_slice_def)
qed

text \<open>The threads a search or a count is about.\<close>

definition found_threads ::
  "dict option \<Rightarrow> dict \<Rightarrow> dict \<Rightarrow> thread_status option \<Rightarrow> thread list \<Rightarrow> thread list" where
  "found_threads filters metadata values status ts =
     filter (\<lambda>t. thread_matches filters metadata values status t = Inr True) ts"

lemma threads_search_eq:
  assumes "handle_event env AThreads ASearch None (case metadata of None \<Rightarrow> [] | Some m \<Rightarrow> m) = Inr (filters, md)"
    and "\<And>t. t \<in> set (s_threads s) \<Longrightarrow> \<exists>b. thread_matches filters md (case vals of None \<Rightarrow> [] | Some v \<Rightarrow> v) status t = Inr b"
  shows "threads_search env None metadata vals status limit offset sk order s =
    (Inr (paginate offset limit (sort_threads sk order (map with_state_time
        (found_threads filters md (case vals of None \<Rightarrow> [] | Some v \<Rightarrow> v) status (s_threads s))))),
     s\<lparr>s_threads := map (\<lambda>t. if t \<in> set (found_threads filters md (case vals of None \<Rightarrow> [] | Some v \<Rightarrow> v) status (s_threads s))
         then with_state_time t else t) (s_threads s)\<rparr>)"
proof -
  let ?v = "case vals of None \<Rightarrow> [] | Some v \<Rightarrow> v"
  let ?q = "\<lambda>t. thread_matches filters md ?v status t = Inr True"
  have total: "thread_matches filters md ?v status t = Inr (?q t)" if "t \<in> set (s_threads s)" for t
    using assms(2) [OF that] by (auto simp: fun_eq_iff)
  show ?thesis
    using assms(1) search_loop_total [of "s_threads s" "thread_matches filters md ?v status" ?q, OF total]
    by (simp add: threads_search_def Let_def act_defs found_threads_def cong: map_cong)
qed


section \<open>Authorization\<close>

lemma search_loop_matches:
  "search_loop p ts = (Inr rows, ts') \<Longrightarrow> r \<in> set rows \<Longrightarrow> \<exists>t \<in> set ts. p t = Inr True \<and> r = with_state_time t"
  by (induction ts arbitrary: rows ts')
     (auto simp: res_bind_def split: sum.splits prod.splits if_splits)

lemma thread_matches_allowed: "thread_matches filters md vals st t = Inr True \<Longrightarrow> allowed (t_metadata t) filters = Inr True"
  by (auto simp: thread_matches_def res_bind_def split: sum.splits if_splits)

lemma set_paginate: "set (fst (paginate offset limit xs)) \<subseteq> set xs"
  by (auto simp: paginate_def py_slice_def dest!: in_set_takeD in_set_dropD)

lemma search_result_allowed:
  assumes "handle_event env AThreads ASearch None [] = Inr (filters, [])"
    and "threads_search env None None None st limit offset sk order s = (Inr (rows, cursor), s')"
    and "r \<in> set rows"
  shows "allowed (t_metadata r) filters = Inr True"
proof -
  obtain ms ts where loop: "search_loop (thread_matches filters [] [] st) (s_threads s) = (Inr ms, ts)"
    and "(rows, cursor) = paginate offset limit (sort_threads sk order ms)"
    using assms(1,2) by (auto simp: threads_search_def act_defs split: sum.splits prod.splits)
  then have "r \<in> set (sort_threads sk order ms)"
    using assms(3) set_paginate [of offset limit "sort_threads sk order ms"] by (metis fst_conv subsetD)
  then have "r \<in> set ms"
    by (metis mset_sort_threads set_mset_mset)
  then obtain t where "thread_matches filters [] [] st t = Inr True" "r = with_state_time t"
    using search_loop_matches [OF loop] by blast
  then show ?thesis
    using thread_matches_allowed [of filters "[]" "[]" st t] by simp
qed


section \<open>Creating and changing\<close>

text \<open>The rows of the table by id.\<close>

lemma find_thread_append:
  "find_thread j (s_threads (append_thread t s)) =
     (case find_thread j (s_threads s) of None \<Rightarrow> if t_id t = j then Some t else None | Some u \<Rightarrow> Some u)"
  by (simp add: find_thread_def append_thread_def find_append split: option.splits)

lemma override_ttl_threads: "s_threads (snd (override_ttl env i ttl s)) = s_threads s"
  by (simp add: override_ttl_def act_defs split: option.splits sum.splits prod.splits)

lemma override_ttl_None [simp]: "override_ttl env i None s = (Inr (), s)"
  by (simp add: override_ttl_def act_defs)

lemma threads_put_new:
  assumes "handle_event env AThreads ACreate (Some i) md = Inr (filters, md')"
    and "find_thread i (s_threads s) = None"
  defines "t \<equiv> new_thread i (e_clock env (s_clock s)) md' (Some PNone)"
  shows "threads_put env i (Some md) ie ttl s =
    bind (override_ttl env i ttl) (\<lambda>_. ret t) (append_thread t (s\<lparr>s_clock := Suc (s_clock s)\<rparr>))"
  using assms(1,2) by (simp add: threads_put_def Let_def bind_def reads_def lift_res_def datetime_now_def modify_def t_def)

lemma threads_put_existing:
  assumes "handle_event env AThreads ACreate (Some i) md = Inr (filters, md')"
    and "find_thread i (s_threads s) = Some t" and "allowed (t_metadata t) filters = Inr True"
  shows "threads_put env i (Some md) IfRaise ttl s = (Inl (HTTPException 409), s)"
    and "threads_put env i (Some md) IfDoNothing ttl s = (Inr t, s)"
  using assms by (simp_all add: threads_put_def Let_def act_defs)

lemma new_thread_id [simp]: "t_id (new_thread i now md v) = i" "t_metadata (new_thread i now md v) = md"
  by (simp_all add: new_thread_def)

text \<open>Creating a thread creates it once. A put under a new id appends an idle thread with the
  metadata as the handler leaves it and changes no other row; from then on a put under that id is a
  conflict, or returns the thread that exists when the caller asks for that, and neither changes
  the state; and a read returns it.\<close>

theorem thread_put_creates_once:
  assumes "\<And>a md. handle_event env AThreads a (Some i) md = Inr (None, md)"
    and "find_thread i (s_threads s) = None"
    and "threads_put env i (Some md) ie None s = (r, s')"
  shows "r = Inr (new_thread i (e_clock env (s_clock s)) md (Some PNone)) \<and>
    s_threads s' = s_threads s @ [new_thread i (e_clock env (s_clock s)) md (Some PNone)] \<and>
    s_runs s' = s_runs s \<and> s_saver s' = s_saver s \<and>
    threads_put env i (Some md2) IfRaise ttl s' = (Inl (HTTPException 409), s') \<and>
    threads_put env i (Some md2) IfDoNothing ttl s' = (r, s') \<and>
    threads_get env i False s' = (Inr (new_thread i (e_clock env (s_clock s)) md (Some PNone), None), s')"
proof -
  let ?t = "new_thread i (e_clock env (s_clock s)) md (Some PNone)"
  have eq: "r = Inr ?t" "s' = append_thread ?t (s\<lparr>s_clock := Suc (s_clock s)\<rparr>)"
    using threads_put_new [OF assms(1,2), of md ie None] assms(3) by (simp_all add: bind_def ret_def)
  have find: "find_thread i (s_threads s') = Some ?t"
    using assms(2) by (simp add: eq(2) find_thread_append)
  have "allowed (t_metadata ?t) None = Inr True"
    by (simp add: allowed_def)
  note exists = threads_put_existing [OF assms(1) find this]
  have w: "with_state_time ?t = ?t"
    by (simp add: with_state_time_def state_time_def new_thread_def)
  have "set_thread i with_state_time s' = s'"
    using w assms(2) by (simp add: eq(2) set_thread_def append_thread_def find_thread_def update_first_last)
  then have "threads_get env i False s' = (Inr (?t, None), s')"
    using assms(1) find w
    by (simp add: threads_get_def threads_get_opt_def get_with_filters_def auth_filters_def allowed_def act_defs res_bind_def)
  with exists show ?thesis
    by (simp add: eq append_thread_def)
qed

text \<open>An invalid TTL is refused too late. Creating a thread with a TTL that does not validate
  raises, but the thread was appended before the validation and stays: the request that failed
  cannot be repeated, it now conflicts.\<close>

theorem invalid_ttl_leaves_thread:
  assumes "\<And>a md. handle_event env AThreads a (Some i) md = Inr (None, md)"
    and "find_thread i (s_threads s) = None"
    and "normalize_ttl_config (e_clock env (Suc (s_clock s))) (Some ttl) = Inl e"
    and "threads_put env i (Some md) IfRaise (Some ttl) s = (r, s')"
  shows "r = Inl e \<and>
    s_threads s' = s_threads s @ [new_thread i (e_clock env (s_clock s)) md (Some PNone)] \<and>
    threads_put env i (Some md) IfRaise (Some ttl) s' = (Inl (HTTPException 409), s')"
proof -
  let ?t = "new_thread i (e_clock env (s_clock s)) md (Some PNone)"
  have eq: "r = Inl e" "s_threads s' = s_threads s @ [?t]"
    using threads_put_new [OF assms(1,2), of md IfRaise "Some ttl"] assms(3,4)
    by (auto simp: bind_def ret_def override_ttl_def datetime_now_def reads_def lift_res_def append_thread_def
        set_thread_ttl_override_def res_bind_def)
  then have "find_thread i (s_threads s') = Some ?t"
    using assms(2) by (simp add: find_thread_def find_append)
  then show ?thesis
    using eq threads_put_existing(1) [OF assms(1), of s' ?t] by (simp add: allowed_def)
qed

lemma threads_patch_eq:
  assumes "find_thread i (s_threads s) = Some t"
    and "handle_event env AThreads AUpdate (Some i) md = Inr (filters, md')" and "allowed (t_metadata t) filters = Inr True"
  defines "t' \<equiv> (with_state_time t)\<lparr>t_metadata := dict_merge (t_metadata t) md', t_updated_at := e_clock env (s_clock s)\<rparr>"
  shows "threads_patch env i md ttl s =
    bind (override_ttl env i ttl) (\<lambda>_. ret (Some t')) (set_thread i (\<lambda>_. t') (s\<lparr>s_clock := Suc (s_clock s)\<rparr>))"
  using assms(1-3) by (simp add: threads_patch_def Let_def bind_def reads_def lift_res_def datetime_now_def modify_def t'_def)

lemma thread_matches_metadata:
  "thread_matches None md [] None t = Inr (is_jsonb_contained (t_metadata t) md)"
  by (simp add: thread_matches_def allowed_def res_bind_def split: option.splits)

lemma find_update_first_const:
  "find p xs = Some x \<Longrightarrow> p y \<Longrightarrow> find p (update_first p (\<lambda>_. y) xs) = Some y"
  by (induction xs) (auto split: if_splits)

text \<open>What a patch writes, a search finds. Patching a thread merges the metadata into its own,
  keeping every key the patch does not name, moves its update time and changes no other row; and a
  search for the patched metadata then returns the thread, with only threads that contain it.\<close>

theorem patched_thread_found:
  assumes "find_thread i (s_threads s) = Some t"
    and "handle_event env AThreads AUpdate (Some i) md = Inr (filters, md')" and "allowed (t_metadata t) filters = Inr True"
    and "handle_event env AThreads ASearch None md' = Inr (None, md')" and "dicts_ok (PDict md')"
    and "threads_patch env i md None s = (r, s')"
  shows "\<exists>t' rows. r = Inr (Some t') \<and> find_thread i (s_threads s') = Some t' \<and>
    (\<forall>j. j \<noteq> i \<longrightarrow> find_thread j (s_threads s') = find_thread j (s_threads s)) \<and>
    (\<forall>k. map_of (t_metadata t') k = (case map_of md' k of None \<Rightarrow> map_of (t_metadata t) k | Some v \<Rightarrow> Some v)) \<and>
    t_updated_at t' = e_clock env (s_clock s) \<and>
    fst (threads_search env None (Some md') None None (length (s_threads s)) 0 None None s') = Inr (rows, None) \<and>
    t' \<in> set rows \<and> (\<forall>u \<in> set rows. is_jsonb_contained (t_metadata u) md')"
proof -
  let ?t = "(with_state_time t)\<lparr>t_metadata := dict_merge (t_metadata t) md', t_updated_at := e_clock env (s_clock s)\<rparr>"
  have eq: "r = Inr (Some ?t)" "s' = set_thread i (\<lambda>_. ?t) (s\<lparr>s_clock := Suc (s_clock s)\<rparr>)"
    using threads_patch_eq [OF assms(1-3), of None] assms(6) by (simp_all add: bind_def ret_def)
  have id: "t_id t = i"
    using find_thread_SomeD [OF assms(1)] by simp
  have found: "find_thread i (s_threads s') = Some ?t"
    using find_update_first_const [of "\<lambda>u. t_id u = i" "s_threads s" t ?t] assms(1) id
    by (simp add: eq(2) set_thread_def find_thread_def)
  have others: "find_thread j (s_threads s') = find_thread j (s_threads s)" if "j \<noteq> i" for j
    using that id find_update_first_other [of "\<lambda>u. t_id u = i" "\<lambda>u. t_id u = j" "\<lambda>_. ?t" "s_threads s"]
    by (simp add: eq(2) set_thread_def find_thread_def)
  let ?ms = "found_threads None md' [] None (s_threads s')"
  let ?rows = "sort_threads None None (map with_state_time ?ms)"
  have len: "length ?ms \<le> length (s_threads s)"
    using length_filter_le [of "\<lambda>u. thread_matches None md' [] None u = Inr True" "s_threads s'"]
    by (simp add: found_threads_def eq(2) set_thread_def)
  have set_rows: "set ?rows = with_state_time ` set ?ms"
    by (metis set_map mset_sort_threads set_mset_mset)
  have "length ?rows = length ?ms"
    by (metis length_map mset_sort_threads size_mset)
  then have page: "fst (threads_search env None (Some md') None None (length (s_threads s)) 0 None None s') = Inr (?rows, None)"
    using threads_search_eq [of env "Some md'" None md' s' None None] assms(4) len
    by (simp add: thread_matches_metadata paginate_def py_slice_def)
  have "dict_merge (t_metadata t) md' = t_metadata ?t" by simp
  then have "?t \<in> set ?ms"
    using merge_contains [OF assms(5), of "t_metadata t"] find_thread_SomeD [OF found]
    by (simp add: found_threads_def thread_matches_metadata)
  moreover have "with_state_time ?t = ?t"
    by (simp add: with_state_time_def state_time_def)
  ultimately have in_rows: "?t \<in> set ?rows"
    unfolding set_rows by (metis imageI)
  have contained: "\<forall>u \<in> set ?rows. is_jsonb_contained (t_metadata u) md'"
    unfolding set_rows by (auto simp: found_threads_def thread_matches_metadata)
  have "distinct (map fst md')"
    using assms(5) by simp
  then have "\<forall>k. map_of (t_metadata ?t) k = (case map_of md' k of None \<Rightarrow> map_of (t_metadata t) k | Some v \<Rightarrow> Some v)"
    by (simp add: map_of_dict_merge)
  with found others page in_rows contained show ?thesis
    by (intro exI [of _ ?t] exI [of _ ?rows]) (simp add: eq(1))
qed

section \<open>Concrete instances\<close>

definition demo_meta_a :: dict where "demo_meta_a = [(''owner'', PStr ''a'')]"

definition demo_sys :: sys where
  "demo_sys = empty_sys\<lparr>s_threads := [new_thread 1 0 demo_meta_a (Some PNone), new_thread 2 0 [] None],
     s_ttls := [(uuid_str 1, [])]\<rparr>"

lemma demo_env_event [simp]: "handle_event demo_env r a i md = Inr (None, md)"
  by (simp add: handle_event_def demo_env_def)

lemma demo_env_filters [simp]: "auth_filters demo_env r a i = Inr None"
  by (simp add: auth_filters_def res_bind_def)

lemma demo_env_delete [simp]: "base_delete_thread_law (e_base_delete demo_env)"
  using demo_delete_thread_law by (simp add: demo_env_def)

lemma demo_sys_threads [simp]:
  "s_threads demo_sys = [new_thread 1 0 demo_meta_a (Some PNone), new_thread 2 0 [] None]"
  "s_runs demo_sys = []" "s_clock demo_sys = 0" "s_maint demo_sys = []"
  by (simp_all add: demo_sys_def empty_sys_def)



definition demo_guard :: env where
  "demo_guard = demo_env\<lparr>e_auth := (\<lambda>q. Inr (Some [(''owner'', PStr ''b'')], aq_metadata q))\<rparr>"


theorem thread_put_creates_once_witness:
  "threads_put demo_env 3 (Some []) IfRaise None (snd (threads_put demo_env 3 (Some []) IfRaise None demo_sys)) =
     (Inl (HTTPException 409), snd (threads_put demo_env 3 (Some []) IfRaise None demo_sys))"
proof (cases "threads_put demo_env 3 (Some []) IfRaise None demo_sys")
  case (Pair r s')
  have "find_thread 3 (s_threads demo_sys) = None"
    by (simp add: find_thread_def)
  from thread_put_creates_once [OF demo_env_event this Pair, of "[]" None] Pair show ?thesis by simp
qed

theorem invalid_ttl_leaves_thread_witness:
  "fst (threads_put demo_env 3 (Some []) IfRaise (Some [(''ttl'', PStr ''soon'')]) demo_sys) = Inl (HTTPException 422) \<and>
   find_thread 3 (s_threads (snd (threads_put demo_env 3 (Some []) IfRaise (Some [(''ttl'', PStr ''soon'')]) demo_sys))) \<noteq> None"
proof -
  have "normalize_ttl_config 1 (Some [(''ttl'', PStr ''soon'')]) = Inl (HTTPException 422)"
    by code_simp
  then have "normalize_ttl_config (e_clock demo_env (Suc (s_clock demo_sys))) (Some [(''ttl'', PStr ''soon'')]) = Inl (HTTPException 422)"
    by (simp add: demo_env_def)
  from invalid_ttl_leaves_thread [OF demo_env_event, of 3 demo_sys, OF _ this, of "[]"] show ?thesis
    by (cases "threads_put demo_env 3 (Some []) IfRaise (Some [(''ttl'', PStr ''soon'')]) demo_sys")
       (simp add: find_thread_def)
qed

theorem patched_thread_found_witness:
  "\<exists>rows. fst (threads_search demo_env None (Some [(''k'', PInt 1)]) None None (length (s_threads demo_sys)) 0 None None
       (snd (threads_patch demo_env 2 [(''k'', PInt 1)] None demo_sys))) = Inr (rows, None) \<and> rows \<noteq> []"
proof -
  obtain r s' where p: "threads_patch demo_env 2 [(''k'', PInt 1)] None demo_sys = (r, s')"
    by force
  have f: "find_thread 2 (s_threads demo_sys) = Some (new_thread 2 0 [] None)"
    by (simp add: find_thread_def)
  have a: "allowed (t_metadata (new_thread 2 0 [] None)) None = Inr True" and d: "dicts_ok (PDict [(''k'', PInt 1)])"
    by (simp_all add: allowed_def)
  obtain t' rows where
    "fst (threads_search demo_env None (Some [(''k'', PInt 1)]) None None (length (s_threads demo_sys)) 0 None None s') = Inr (rows, None)"
    "t' \<in> set rows"
    using patched_thread_found [OF f demo_env_event a demo_env_event d p] by (elim exE conjE)
  then show ?thesis
    by (intro exI [of _ rows]) (auto simp only: p snd_conv list.set empty_iff)
qed

end
