(* ===== verification/Sweep_Safety.thy ===== *)
theory Sweep_Safety
  imports Thread_Safety
begin

text \<open>
  The TTL sweep of \<open>Threads.sweep_ttl\<close>: what it may do to a thread, whatever the clock reads and
  whichever other threads are swept with it, and that it does delete what has expired.
\<close>

section \<open>One claimed thread\<close>

definition tick :: "nat \<Rightarrow> sys \<Rightarrow> sys" where
  "tick n s = s\<lparr>s_clock := s_clock s + n\<rparr>"

lemma tick_fields [simp]:
  "s_threads (tick n s) = s_threads s" "s_runs (tick n s) = s_runs s" "s_ttls (tick n s) = s_ttls s"
  "s_saver (tick n s) = s_saver s" "s_maint (tick n s) = s_maint s" "s_clock (tick n s) = s_clock s + n"
  by (simp_all add: tick_def)

lemma tick_0 [simp]: "tick 0 s = s"
  by (simp add: tick_def)

text \<open>The thread \<open>t\<close> is due under the configuration \<open>c\<close>: it has no active run, and it expired
  before a reading of the clock.\<close>

definition due :: "env \<Rightarrow> sys \<Rightarrow> thread \<Rightarrow> int \<Rightarrow> ttl_config \<Rightarrow> dict \<Rightarrow> bool" where
  "due env s t x c state \<longleftrightarrow>
     \<not> has_active_runs (t_id t) (s_runs s) \<and>
     (\<exists>n. thread_expiry (e_clock env n) (e_thread_ttl env) (s_ttls s) t = Inr (Some (x, c, state))) \<and>
     (\<exists>n. x \<le> e_clock env n)"

definition swept :: "thread \<Rightarrow> dict \<Rightarrow> dict" where
  "swept t state = AList.update ''last_swept_updated_at'' (PDatetime (t_updated_at t)) state"

text \<open>The three outcomes of a claim: nothing but the clock moves, the thread is dropped, or its
  checkpoints are pruned and the sweep is recorded.\<close>

lemma aprune_keep_latest:
  "aprune env is ''keep_latest'' s =
     (Inr (), s\<lparr>s_saver := fold (prune_thread (e_versions env) (e_meta env)) is (s_saver s)\<rparr>)"
  by (simp add: aprune_def saver_prune_def)

text \<open>What the claim decides: the expiry at the first reading, compared with the second one.\<close>

definition due_now :: "env \<Rightarrow> sys \<Rightarrow> thread \<Rightarrow> int \<Rightarrow> ttl_config \<Rightarrow> dict \<Rightarrow> bool" where
  "due_now env s t x c state \<longleftrightarrow>
     \<not> has_active_runs (t_id t) (s_runs s) \<and>
     thread_expiry (e_clock env (s_clock s)) (e_thread_ttl env) (s_ttls s) t = Inr (Some (x, c, state)) \<and>
     x \<le> e_clock env (Suc (s_clock s))"

lemma due_now_due: "due_now env s t x c state \<Longrightarrow> due env s t x c state"
  by (auto simp: due_now_def due_def)

lemma sweep_claimed_idle:
  assumes "\<And>t x c state. find_thread j (s_threads s) = Some t \<Longrightarrow> \<not> due_now env s t x c state"
  shows "\<exists>n. snd (sweep_claimed env j s) = tick n s"
proof (cases "find_thread j (s_threads s)")
  case None
  then have "snd (sweep_claimed env j s) = tick 0 s"
    by (simp add: sweep_claimed_def act_defs)
  then show ?thesis by blast
next
  case (Some t)
  let ?x = "thread_expiry (e_clock env (s_clock s)) (e_thread_ttl env) (s_ttls s) t"
  have "has_active_runs j (s_runs s) \<or> (\<forall>x c state. ?x = Inr (Some (x, c, state)) \<longrightarrow> x > e_clock env (Suc (s_clock s)))"
    using assms [OF Some] find_thread_SomeD [OF Some] by (force simp: due_now_def)
  then have "snd (sweep_claimed env j s) \<in> {tick 0 s, tick 1 s, tick 2 s}"
    using Some by (auto simp: sweep_claimed_def act_defs tick_def split: sum.splits option.splits)
  then show ?thesis by blast
qed

lemma sweep_claimed_prune:
  assumes "find_thread j (s_threads s) = Some t" and "due_now env s t x c state" and "tc_strategy c = TTLKeepLatest"
  shows "sweep_claimed env j s = (Inr (1, 0),
    (tick 2 s)\<lparr>s_saver := prune_thread (e_versions env) (e_meta env) (IdStr (uuid_str j)) (s_saver s),
               s_ttls := AList.update (uuid_str j) (swept t state) (s_ttls s)\<rparr>)"
  using assms find_thread_SomeD [OF assms(1)]
  by (simp add: sweep_claimed_def due_now_def bind_def reads_def datetime_now_def lift_res_def aprune_keep_latest
      modify_def ret_def tick_def swept_def)

lemma sweep_claimed_delete:
  assumes "find_thread j (s_threads s) = Some t" and "due_now env s t x c state" and "tc_strategy c = TTLDelete"
  shows "sweep_claimed env j s =
    catch_http (bind (threads_delete env j) (\<lambda>_. ret (1, 1)))
      (\<lambda>code. if code \<noteq> 404 then raise (HTTPException code) else ret (0, 0)) (tick 2 s)"
  using assms find_thread_SomeD [OF assms(1)]
  by (simp add: sweep_claimed_def due_now_def bind_def reads_def datetime_now_def lift_res_def tick_def)

lemma sweep_delete_cases:
  "snd (catch_http (bind (threads_delete env j) (\<lambda>_. ret (1, 1)))
      (\<lambda>code. if code \<noteq> 404 then raise (HTTPException code) else ret (0, 0)) s) \<in> {s, dropped env j s}"
  using threads_delete_cases [of env j s]
  by (auto simp: catch_http_def bind_def raise_def ret_def split: prod.splits sum.splits exn.splits)

lemma sweep_claimed_cases:
  obtains (idle) n where "snd (sweep_claimed env j s) = tick n s"
  | (delete) t x c state where "find_thread j (s_threads s) = Some t" "due env s t x c state" "tc_strategy c = TTLDelete"
      "snd (sweep_claimed env j s) = dropped env j (tick 2 s)"
  | (prune) t x c state where "find_thread j (s_threads s) = Some t" "due env s t x c state" "tc_strategy c = TTLKeepLatest"
      "snd (sweep_claimed env j s) =
         (tick 2 s)\<lparr>s_saver := prune_thread (e_versions env) (e_meta env) (IdStr (uuid_str j)) (s_saver s),
                    s_ttls := AList.update (uuid_str j) (swept t state) (s_ttls s)\<rparr>"
proof (cases "\<exists>t x c state. find_thread j (s_threads s) = Some t \<and> due_now env s t x c state")
  case False
  then show ?thesis using sweep_claimed_idle idle by metis
next
  case True
  then obtain t x c state where t: "find_thread j (s_threads s) = Some t" "due_now env s t x c state" by blast
  show ?thesis
  proof (cases "tc_strategy c")
    case TTLDelete
    have "snd (sweep_claimed env j s) \<in> {tick 2 s, dropped env j (tick 2 s)}"
      unfolding sweep_claimed_delete [OF t TTLDelete] by (rule sweep_delete_cases)
    then show ?thesis
      using idle delete [OF t(1) due_now_due [OF t(2)] TTLDelete] by blast
  next
    case TTLKeepLatest
    from prune [OF t(1) due_now_due [OF t(2)] TTLKeepLatest] show ?thesis
      by (simp add: sweep_claimed_prune [OF t TTLKeepLatest])
  qed
qed

section \<open>What a sweep may do to a thread\<close>

definition runs_of :: "uuid \<Rightarrow> run list \<Rightarrow> run list" where
  "runs_of i rs = filter (\<lambda>r. r_thread r = i) rs"

definition same_thread :: "uuid \<Rightarrow> sys \<Rightarrow> sys \<Rightarrow> bool" where
  "same_thread i s s' \<longleftrightarrow>
     find_thread i (s_threads s') = find_thread i (s_threads s) \<and>
     runs_of i (s_runs s') = runs_of i (s_runs s) \<and>
     map_of (s_ttls s') (uuid_str i) = map_of (s_ttls s) (uuid_str i) \<and>
     map_of (cp_storage (s_saver s')) (IdStr (uuid_str i)) = map_of (cp_storage (s_saver s)) (IdStr (uuid_str i))"

definition sweep_deleted :: "env \<Rightarrow> sys \<Rightarrow> thread \<Rightarrow> sys \<Rightarrow> bool" where
  "sweep_deleted env s t s' \<longleftrightarrow>
     (\<exists>x c state. due env s t x c state \<and> tc_strategy c = TTLDelete) \<and>
     find_thread (t_id t) (s_threads s') = None \<and> runs_of (t_id t) (s_runs s') = []"

definition sweep_pruned :: "env \<Rightarrow> sys \<Rightarrow> thread \<Rightarrow> sys \<Rightarrow> bool" where
  "sweep_pruned env s t s' \<longleftrightarrow>
     (\<exists>x c state. due env s t x c state \<and> tc_strategy c = TTLKeepLatest \<and>
        map_of (s_ttls s') (uuid_str (t_id t)) = Some (swept t state)) \<and>
     find_thread (t_id t) (s_threads s') = Some t \<and> runs_of (t_id t) (s_runs s') = runs_of (t_id t) (s_runs s)"

lemma same_thread_refl [simp]: "same_thread i s s"
  by (simp add: same_thread_def)

lemma active_runs_of: "has_active_runs i rs \<longleftrightarrow> (\<exists>r \<in> set (runs_of i rs). active_status (r_status r))"
  by (auto simp: has_active_runs_def runs_of_def)

lemma expiry_cong:
  "map_of ttls (uuid_str (t_id t)) = map_of ttls' (uuid_str (t_id t)) \<Longrightarrow>
   thread_expiry now glob ttls t = thread_expiry now glob ttls' t"
  by (simp add: thread_expiry_def effective_thread_ttl_def dict_get_def)

lemma due_cong: "same_thread (t_id t) s s' \<Longrightarrow> due env s' t x c state = due env s t x c state"
  using expiry_cong [of "s_ttls s'" t "s_ttls s"] by (simp add: same_thread_def due_def active_runs_of)

lemma normalize_strategy:
  "normalize_ttl_config now cfg = Inr (Some c) \<Longrightarrow> \<exists>d. cfg = Some d \<and> read_strategy d = Some (tc_strategy c)"
  by (auto simp: normalize_ttl_config_def split: option.splits if_splits sum.splits exn.splits pyfloat.splits)

text \<open>A thread whose sweep was recorded is not due again.\<close>

lemma swept_not_due:
  assumes "thread_expiry now glob ttls t = Inr (Some (x, c, state))" and "tc_strategy c = TTLKeepLatest"
    and "map_of ttls' (uuid_str (t_id t)) = Some (swept t state)"
  shows "thread_expiry now' glob ttls' t \<noteq> Inr (Some (x', c', state'))"
proof
  assume again: "thread_expiry now' glob ttls' t = Inr (Some (x', c', state'))"
  define cfg where "cfg = (case map_of state ''ttl_minutes'' of
      Some m \<Rightarrow> Some [(''strategy'', dict_get state ''strategy'' (PStr ''delete'')), (''ttl_minutes'', m)] | None \<Rightarrow> glob)"
  have eff: "effective_thread_ttl n glob ttls' (t_id t) =
      res_bind (normalize_ttl_config n cfg) (\<lambda>c. Inr (c, swept t state))" for n
    using assms(3) by (simp add: effective_thread_ttl_def Let_def dict_get_def cfg_def swept_def dict_simps split: option.splits)
  have "effective_thread_ttl now glob ttls (t_id t) = Inr (Some c, state)"
    using assms(1) by (auto simp: thread_expiry_def res_bind_def split: sum.splits exn.splits option.splits if_splits)
  moreover from this have "state = dict_get ttls (uuid_str (t_id t)) []"
    by (auto simp: effective_thread_ttl_def Let_def res_bind_def split: sum.splits)
  ultimately have c: "normalize_ttl_config now cfg = Inr (Some c)"
    by (auto simp: effective_thread_ttl_def Let_def res_bind_def cfg_def split: sum.splits option.splits)
  have c': "normalize_ttl_config now' cfg = Inr (Some c')"
    using again by (auto simp: thread_expiry_def eff res_bind_def split: sum.splits exn.splits option.splits if_splits)
  have "tc_strategy c' = TTLKeepLatest"
    using normalize_strategy [OF c] normalize_strategy [OF c'] assms(2) by auto
  moreover have "already_pruned (swept t state) (t_updated_at t)"
    by (simp add: already_pruned_def swept_def dict_simps)
  ultimately show False
    using again by (simp add: thread_expiry_def eff c' res_bind_def)
qed

definition sweep_inv :: "env \<Rightarrow> sys \<Rightarrow> thread \<Rightarrow> sys \<Rightarrow> bool" where
  "sweep_inv env s0 t s \<longleftrightarrow>
     distinct (map t_id (s_threads s)) \<and>
     (same_thread (t_id t) s0 s \<and> find_thread (t_id t) (s_threads s) = Some t
      \<or> sweep_deleted env s0 t s \<or> sweep_pruned env s0 t s)"

lemma sweep_inv_same:
  assumes "sweep_inv env s0 t s" and "same_thread (t_id t) s s'" and "distinct (map t_id (s_threads s'))"
  shows "sweep_inv env s0 t s'"
  using assms by (auto simp: sweep_inv_def same_thread_def sweep_deleted_def sweep_pruned_def)

lemma dropped_fields [simp]:
  "s_threads (dropped env j s) = remove_first (\<lambda>t. t_id t = j) (s_threads s)"
  "s_runs (dropped env j s) = filter (\<lambda>r. r_thread r \<noteq> j) (s_runs s)"
  "s_ttls (dropped env j s) = AList.delete (uuid_str j) (s_ttls s)"
  "s_saver (dropped env j s) = saver_delete_thread (e_base_delete env) (IdStr (uuid_str j)) (s_saver s)"
  "s_maint (dropped env j s) = s_maint s" "s_clock (dropped env j s) = s_clock s"
  by (simp_all add: dropped_def)

lemma map_remove_first: "distinct (map f (xs)) \<Longrightarrow> distinct (map f (remove_first p xs))"
  by (induction xs) (auto dest!: subsetD [OF set_remove_first])

lemma runs_of_filter_other: "i \<noteq> j \<Longrightarrow> runs_of i (filter (\<lambda>r. r_thread r \<noteq> j) rs) = runs_of i rs"
  by (induction rs) (auto simp: runs_of_def)

lemma runs_of_filter_self [simp]: "runs_of j (filter (\<lambda>r. r_thread r \<noteq> j) rs) = []"
  by (simp add: runs_of_def)

lemma dropped_other:
  assumes "base_delete_thread_law (e_base_delete env)" and "i \<noteq> j"
  shows "same_thread i s (dropped env j (tick n s))"
  using assms(2) by (simp add: same_thread_def find_thread_remove_other runs_of_filter_other dict_simps
      delete_thread_saver [OF assms(1)])

lemma pruned_other:
  assumes "i \<noteq> j"
  shows "same_thread i s ((tick n s)\<lparr>s_saver := prune_thread v m (IdStr (uuid_str j)) (s_saver s),
    s_ttls := AList.update (uuid_str j) d (s_ttls s)\<rparr>)"
  using assms fold_prune_other(1) [of "IdStr (uuid_str i)" "[IdStr (uuid_str j)]" v m "s_saver s"]
  by (simp add: same_thread_def dict_simps)

lemma find_thread_removed:
  "distinct (map t_id ts) \<Longrightarrow> find_thread j (remove_first (\<lambda>t. t_id t = j) ts) = None"
  by (auto simp: remove_first_distinct find_thread_def find_None_iff)

lemma sweep_inv_not_due_again:
  assumes "sweep_pruned env s0 t s" shows "\<not> due env s t x c state"
  using assms swept_not_due by (auto simp: sweep_pruned_def due_def)

lemma sweep_claimed_inv:
  assumes law: "base_delete_thread_law (e_base_delete env)" and inv: "sweep_inv env s0 t s"
  shows "sweep_inv env s0 t (snd (sweep_claimed env j s))"
proof (cases rule: sweep_claimed_cases [of env j s])
  case (idle n)
  then show ?thesis
    using sweep_inv_same [OF inv, of "tick n s"] inv by (simp add: same_thread_def sweep_inv_def)
next
  case (delete u x c state)
  show ?thesis
  proof (cases "j = t_id t")
    case False
    then show ?thesis
      using sweep_inv_same [OF inv dropped_other [OF law, of "t_id t" j s 2]] delete(4) inv
      by (simp add: sweep_inv_def map_remove_first)
  next
    case True
    with delete inv have u: "u = t"
      by (auto simp: sweep_inv_def sweep_deleted_def sweep_pruned_def)
    then have "same_thread (t_id t) s0 s"
      using inv delete True sweep_inv_not_due_again by (auto simp: sweep_inv_def sweep_deleted_def)
    then have "due env s0 t x c state"
      using delete(2) u by (simp add: due_cong)
    then show ?thesis
      using delete inv True
      by (auto simp: sweep_inv_def sweep_deleted_def find_thread_removed map_remove_first)
  qed
next
  case (prune u x c state)
  show ?thesis
  proof (cases "j = t_id t")
    case False
    then show ?thesis
      using sweep_inv_same [OF inv pruned_other [of "t_id t" j]] prune(4) inv by (simp add: sweep_inv_def)
  next
    case True
    with prune inv have u: "u = t"
      by (auto simp: sweep_inv_def sweep_deleted_def sweep_pruned_def)
    then have same: "same_thread (t_id t) s0 s"
      using inv prune True sweep_inv_not_due_again by (auto simp: sweep_inv_def sweep_deleted_def)
    then have "due env s0 t x c state"
      using prune(2) u by (simp add: due_cong)
    then have "sweep_pruned env s0 t (snd (sweep_claimed env j s))"
      using prune same True u by (auto simp: sweep_pruned_def same_thread_def dict_simps)
    then show ?thesis
      using inv prune(4) by (simp add: sweep_inv_def)
  qed
qed

lemma keeps_finally [keeps_rules]:
  "keeps I m \<Longrightarrow> (\<And>s. I s \<Longrightarrow> I (f s)) \<Longrightarrow> keeps I (finally_act m f)"
  by (auto simp: keeps_def finally_act_def split: prod.splits)

lemma sweep_inv_fields:
  "sweep_inv env s0 t (s\<lparr>s_maint := m\<rparr>) = sweep_inv env s0 t s" "sweep_inv env s0 t (s\<lparr>s_clock := n\<rparr>) = sweep_inv env s0 t s"
  by (simp_all add: sweep_inv_def same_thread_def sweep_deleted_def sweep_pruned_def)

lemma keeps_select [keeps_rules]:
  "(\<And>s n. I s \<Longrightarrow> I (s\<lparr>s_clock := n\<rparr>)) \<Longrightarrow> keeps I (select_expired env now active ts)"
  by (induction ts) (auto intro!: keeps_rules split: option.splits prod.splits)

lemma keeps_sweep_one:
  assumes "base_delete_thread_law (e_base_delete env)"
  shows "keeps (sweep_inv env s0 t) (sweep_one env j)"
  unfolding sweep_one_def
  by (intro keeps_rules keepsI sweep_claimed_inv [OF assms]) (simp_all add: sweep_inv_fields)

lemma keeps_sweep_all [keeps_rules]:
  "(\<And>j. keeps I (sweep_one env j)) \<Longrightarrow> keeps I (sweep_all env is acc)"
  by (induction "is" arbitrary: acc) (auto intro!: keeps_rules split: prod.splits)


section \<open>What a sweep must do\<close>

lemma concat_batches: "0 < n \<Longrightarrow> concat (batches n xs) = xs"
  by (induction n xs rule: batches.induct) (subst batches.simps, simp)

lemma keeps_sweep_claimed_maint: "keeps (\<lambda>s. s_maint s = m) (sweep_claimed env j)"
proof (rule keepsI)
  fix s :: sys
  assume "s_maint s = m"
  then show "s_maint (snd (sweep_claimed env j s)) = m"
    by (cases rule: sweep_claimed_cases [of env j s]) simp_all
qed

lemma find_thread_remove_None:
  "find_thread i ts = None \<Longrightarrow> find_thread i (remove_first p ts) = None"
  using set_remove_first [of p ts] by (auto simp: find_thread_def find_None_iff)

lemma keeps_sweep_claimed_gone: "keeps (\<lambda>s. find_thread i (s_threads s) = None) (sweep_claimed env j)"
proof (rule keepsI)
  fix s :: sys
  assume "find_thread i (s_threads s) = None"
  then show "find_thread i (s_threads (snd (sweep_claimed env j s))) = None"
    by (cases rule: sweep_claimed_cases [of env j s]) (simp_all add: find_thread_remove_None)
qed

lemma keeps_sweep_one_gone: "keeps (\<lambda>s. find_thread i (s_threads s) = None) (sweep_one env j)"
  unfolding sweep_one_def by (intro keeps_rules keeps_sweep_claimed_gone) simp_all

lemma sweep_one_maint: "s_maint s = [] \<Longrightarrow> s_maint (snd (sweep_one env j s)) = []"
  using keepsD [OF keeps_sweep_claimed_maint [of "[uuid_str j]" env j], of "s\<lparr>s_maint := [uuid_str j]\<rparr>"]
  by (auto simp: sweep_one_def act_defs finally_act_def split: prod.splits)

text \<open>A thread with a \<open>delete\<close> policy that no reading of the clock precedes is deleted when it is
  claimed.\<close>

definition long_expired :: "env \<Rightarrow> sys \<Rightarrow> thread \<Rightarrow> bool" where
  "long_expired env s t \<longleftrightarrow>
     \<not> has_active_runs (t_id t) (s_runs s) \<and>
     (\<exists>x c state. tc_strategy c = TTLDelete \<and>
        (\<forall>n. thread_expiry (e_clock env n) (e_thread_ttl env) (s_ttls s) t = Inr (Some (x, c, state)) \<and> x \<le> e_clock env n))"

lemma sweep_one_deletes:
  assumes "long_expired env s t" and "find_thread (t_id t) (s_threads s) = Some t" and "s_maint s = []"
    and "auth_filters env AThreads ADelete (Some (t_id t)) = Inr None" and "distinct (map t_id (s_threads s))"
  shows "find_thread (t_id t) (s_threads (snd (sweep_one env (t_id t) s))) = None"
proof -
  let ?s = "s\<lparr>s_maint := [uuid_str (t_id t)]\<rparr>"
  obtain x c state where "due_now env ?s t x c state" and c: "tc_strategy c = TTLDelete"
    using assms(1) by (auto simp: long_expired_def due_now_def)
  then have "snd (sweep_claimed env (t_id t) ?s) = dropped env (t_id t) (tick 2 ?s)"
    using sweep_claimed_delete [of "t_id t" ?s t env x c state] assms(2,4)
    by (simp add: threads_delete_eq allowed_def catch_http_def bind_def ret_def)
  then have "find_thread (t_id t) (s_threads (snd (sweep_claimed env (t_id t) ?s))) = None"
    using find_thread_removed [OF assms(5)] by simp
  then show ?thesis
    using assms(3) by (auto simp: sweep_one_def act_defs finally_act_def split: prod.splits)
qed

lemma long_expired_cong: "same_thread (t_id t) s s' \<Longrightarrow> long_expired env s' t = long_expired env s t"
  using expiry_cong [of "s_ttls s'" t "s_ttls s"] by (simp add: same_thread_def long_expired_def active_runs_of)

lemma long_expired_not_pruned: "long_expired env s t \<Longrightarrow> \<not> sweep_pruned env s t s'"
  by (auto simp: long_expired_def sweep_pruned_def due_def)

lemma sweep_all_deletes:
  assumes "sweep_all env is acc s = (Inr r, s')" and "t_id t \<in> set is" and "sweep_inv env s0 t s" and "s_maint s = []"
    and "long_expired env s0 t" and "auth_filters env AThreads ADelete (Some (t_id t)) = Inr None"
    and "base_delete_thread_law (e_base_delete env)"
  shows "find_thread (t_id t) (s_threads s') = None"
  using assms(1-4)
proof (induction "is" arbitrary: acc s)
  case (Cons j js)
  let ?gone = "\<lambda>s. find_thread (t_id t) (s_threads s) = None"
  obtain p d s1 where one: "sweep_one env j s = (Inr (p, d), s1)"
    and rest: "sweep_all env js (fst acc + p, snd acc + d) s1 = (Inr r, s')"
    using Cons.prems(1) by (auto simp: bind_def split: prod.splits sum.splits)
  have inv1: "sweep_inv env s0 t s1" and m1: "s_maint s1 = []"
    using keepsD [OF keeps_sweep_one [OF assms(7)] Cons.prems(3), of j] sweep_one_maint [OF Cons.prems(4), of env j] one
    by simp_all
  have keep: "?gone s1 \<Longrightarrow> ?gone s'"
    using keepsD [OF keeps_sweep_all [OF keeps_sweep_one_gone], of "t_id t" s1 env js] rest by (metis snd_conv)
  show ?case
  proof (cases "j = t_id t")
    case False
    then show ?thesis using Cons.IH [OF rest _ inv1 m1] Cons.prems(2) by simp
  next
    case True
    have "?gone s1"
    proof (cases "?gone s")
      case True
      then show ?thesis using keepsD [OF keeps_sweep_one_gone, of "t_id t" s env j] one by simp
    next
      case False
      then have "same_thread (t_id t) s0 s" "find_thread (t_id t) (s_threads s) = Some t"
        using Cons.prems(3) long_expired_not_pruned [OF assms(5)] by (auto simp: sweep_inv_def sweep_deleted_def)
      then show ?thesis
        using sweep_one_deletes [of env s t] long_expired_cong assms(5,6) Cons.prems(3,4) True one
        by (simp add: sweep_inv_def)
    qed
    then show ?thesis by (rule keep)
  qed
qed simp

lemma select_expired_mem:
  assumes "select_expired env now active ts s = (Inr rows, s')" and "t \<in> set ts" and "t_id t \<notin> set active"
    and "\<And>n. thread_expiry (e_clock env n) (e_thread_ttl env) (s_ttls s) t = Inr (Some (x, c, state))" and "x \<le> now"
  shows "(x, t_id t) \<in> set rows"
  using assms(1,2,4)
proof (induction ts arbitrary: s rows)
  case (Cons u ts)
  show ?case
  proof (cases "t_id u \<in> set active")
    case True
    with Cons.prems assms(3) have "t \<in> set ts" by auto
    then show ?thesis using Cons True by auto
  next
    case False
    then obtain y rest where y: "thread_expiry (e_clock env (s_clock s)) (e_thread_ttl env) (s_ttls s) u = Inr y"
      and rest: "select_expired env now active ts (s\<lparr>s_clock := Suc (s_clock s)\<rparr>) = (Inr rest, s')"
      and rows: "rows = (case y of None \<Rightarrow> rest
        | Some (expires_at, _, _) \<Rightarrow> if expires_at \<le> now then (expires_at, t_id u) # rest else rest)"
      using Cons.prems(1) by (auto simp: act_defs split: prod.splits sum.splits)
    show ?thesis
    proof (cases "t \<in> set ts")
      case True
      then have "(x, t_id t) \<in> set rest"
        using Cons.IH [OF rest] Cons.prems(3) by simp
      then show ?thesis by (auto simp: rows split: option.splits)
    next
      case False
      then have "y = Some (x, c, state)"
        using Cons.prems(2,3) y by auto
      then show ?thesis using assms(5) False Cons.prems(2) by (simp add: rows)
    qed
  qed
qed simp


section \<open>Concrete instances\<close>

text \<open>A server whose threads are deleted after one minute, a day later; one thread that was updated
  before, and one updated since.\<close>

definition demo_sweep_env :: env where
  "demo_sweep_env = demo_env\<lparr>e_thread_ttl := Some [(''ttl'', PInt 1), (''sweep_limit'', PNone)], e_clock := (\<lambda>_. 86400000000)\<rparr>"

definition demo_sweep_sys :: sys where
  "demo_sweep_sys = empty_sys\<lparr>s_threads := [new_thread 1 0 [] None, new_thread 2 86400000000 [] None]\<rparr>"

lemma demo_sweep_env_simps [simp]:
  "base_delete_thread_law (e_base_delete demo_sweep_env)" "auth_filters demo_sweep_env AThreads ADelete (Some i) = Inr None"
  "e_clock demo_sweep_env n = 86400000000" "e_thread_ttl demo_sweep_env = Some [(''ttl'', PInt 1), (''sweep_limit'', PNone)]"
  using demo_delete_thread_law
  by (simp_all add: demo_sweep_env_def demo_env_def auth_filters_def handle_event_def res_bind_def)

lemma demo_sweep_sys_simps [simp]:
  "s_threads demo_sweep_sys = [new_thread 1 0 [] None, new_thread 2 86400000000 [] None]" "s_runs demo_sweep_sys = []"
  "s_ttls demo_sweep_sys = []" "s_maint demo_sweep_sys = []"
  by (simp_all add: demo_sweep_sys_def empty_sys_def)

lemma demo_expiry:
  "thread_expiry 86400000000 (Some [(''ttl'', PInt 1), (''sweep_limit'', PNone)]) [] (new_thread 1 0 [] None) =
     Inr (Some (60000000, \<lparr>tc_strategy = TTLDelete, tc_minutes = 1\<rparr>, []))"
  "thread_expiry 86400000000 (Some [(''ttl'', PInt 1), (''sweep_limit'', PNone)]) [] (new_thread 2 86400000000 [] None) =
     Inr (Some (86460000000, \<lparr>tc_strategy = TTLDelete, tc_minutes = 1\<rparr>, []))"
  by code_simp+

lemma demo_long_expired: "long_expired demo_sweep_env demo_sweep_sys (new_thread 1 0 [] None)"
  by (simp add: long_expired_def demo_expiry has_active_runs_def)

lemma demo_sweep_returns: "\<exists>r s'. threads_sweep_ttl demo_sweep_env None 100 demo_sweep_sys = (Inr r, s')"
proof -
  let ?ts = "[new_thread 1 0 [] None, new_thread 2 86400000000 [] None]"
  let ?s = "demo_sweep_sys\<lparr>s_clock := Suc (s_clock demo_sweep_sys)\<rparr>"
  obtain s1 where sel: "select_expired demo_sweep_env 86400000000 [] ?ts ?s = (Inr [(60000000, 1)], s1)"
    and s1: "s_threads s1 = ?ts" "s_runs s1 = []" "s_ttls s1 = []" "s_maint s1 = []"
    by (simp add: act_defs demo_expiry)
  obtain p d s2 where one: "sweep_one demo_sweep_env 1 s1 = (Inr (p, d), s2)"
    using s1 demo_expiry(1)
    by (simp add: sweep_one_def sweep_claimed_def act_defs finally_act_def find_thread_def has_active_runs_def
        threads_delete_eq allowed_def split: prod.splits)
  have "sweep_limit demo_sweep_env None = Inr None"
    by (simp add: sweep_limit_def dict_get_def)
  then show ?thesis
    by (simp add: threads_sweep_ttl_def Let_def bind_def reads_def lift_res_def datetime_now_def ret_def sel one
        concat_batches del: select_expired.simps)
qed



end
