(* ===== verification/Run_Safety.thy ===== *)
theory Run_Safety
  imports Runs Sweep_Safety
begin

text \<open>
  The queue of runs: what \<open>Runs.next\<close> claims, as a refinement of an abstract selection, what
  \<open>Runs.put\<close> inserts, what a cancellation does, and the life cycle of a run's stream.
\<close>

section \<open>Claiming runs\<close>

text \<open>
  The specification of \<open>Runs.next\<close>: go through the due runs from the oldest on, and take a run when
  its thread is known and not busy; a taken run makes its thread busy.
\<close>

fun pick_runs :: "uuid list \<Rightarrow> uuid list \<Rightarrow> run list \<Rightarrow> run list" where
  "pick_runs known busy [] = []"
| "pick_runs known busy (r # rs) =
     (if r_thread r \<notin> set known \<or> r_thread r \<in> set busy then pick_runs known busy rs
      else r # pick_runs known (r_thread r # busy) rs)"

definition busy_threads :: "run list \<Rightarrow> uuid list" where
  "busy_threads rs = map r_thread (filter (\<lambda>r. r_status r = RRunning) rs)"

lemma find_thread_None: "find_thread i ts = None \<longleftrightarrow> i \<notin> set (map t_id ts)"
  by (auto simp: find_thread_def find_None_iff)

lemma has_running_busy: "has_running i rs \<longleftrightarrow> i \<in> set (busy_threads rs)"
  by (auto simp: has_running_def busy_threads_def)

lemma pick_runs_set: "set (pick_runs known busy rs) \<subseteq> set rs"
  by (induction rs arbitrary: busy) auto

lemma pick_runs_sound:
  "r \<in> set (pick_runs known busy rs) \<Longrightarrow> r_thread r \<in> set known \<and> r_thread r \<notin> set busy"
proof (induction rs arbitrary: busy)
  case (Cons x rs)
  show ?case
  proof (cases "r_thread x \<notin> set known \<or> r_thread x \<in> set busy")
    case False
    with Cons.prems Cons.IH [of "r_thread x # busy"] show ?thesis by auto
  qed (use Cons in auto)
qed simp

lemma pick_runs_distinct: "distinct (map r_thread (pick_runs known busy rs))"
  by (induction rs arbitrary: busy) (auto dest: pick_runs_sound)

text \<open>The oldest run of a thread that is free is taken.\<close>

lemma pick_runs_first:
  "rs = xs @ r # ys \<Longrightarrow> r_thread r \<in> set known \<Longrightarrow> r_thread r \<notin> set busy \<Longrightarrow>
   r_thread r \<notin> r_thread ` set xs \<Longrightarrow> r \<in> set (pick_runs known busy rs)"
proof (induction xs arbitrary: rs busy)
  case (Cons x xs)
  then show ?case by (auto simp: image_iff)
qed auto

lemma pick_runs_cong:
  "set busy = set busy' \<Longrightarrow> pick_runs known busy rs = pick_runs known busy' rs"
proof (induction rs arbitrary: busy busy')
  case (Cons r rs)
  have "set (r_thread r # busy) = set (r_thread r # busy')"
    using Cons.prems by simp
  then show ?case
    using Cons.IH [OF Cons.prems] Cons.IH [of "r_thread r # busy" "r_thread r # busy'"] Cons.prems
    by (simp only: pick_runs.simps)
qed simp

definition running :: "run \<Rightarrow> run" where
  "running r = r\<lparr>r_status := RRunning\<rparr>"

lemma running_fields [simp]:
  "r_id (running r) = r_id r" "r_thread (running r) = r_thread r" "r_status (running r) = RRunning"
  by (simp_all add: running_def)

lemma running_created [simp]: "r_created_at (running r) = r_created_at r"
  by (simp add: running_def)

definition claimed_runs :: "run list \<Rightarrow> run list \<Rightarrow> run list" where
  "claimed_runs ps rs = map (\<lambda>r. if r_id r \<in> r_id ` set ps then running r else r) rs"

lemma find_is_run:
  "distinct (map r_id rs) \<Longrightarrow> r \<in> set rs \<Longrightarrow> find (is_run (r_id r) (r_thread r)) rs = Some r"
proof (induction rs)
  case (Cons x xs)
  then show ?case by (auto simp: is_run_def)
qed simp

lemma update_is_run:
  "distinct (map r_id rs) \<Longrightarrow> r \<in> set rs \<Longrightarrow>
   update_first (is_run (r_id r) (r_thread r)) f rs = map (\<lambda>x. if r_id x = r_id r then f x else x) rs"
proof (induction rs)
  case (Cons x xs)
  have "map (\<lambda>y. if r_id y = r_id x then f y else y) xs = xs"
    using Cons.prems(1) by (induction xs) auto
  with Cons show ?case by (auto simp: is_run_def)
qed simp

lemma claim_run_blocked:
  assumes "distinct (map r_id (s_runs s))" and "r \<in> set (s_runs s)" and "r_status r = RPending"
    and "r_thread r \<notin> set (map t_id (s_threads s)) \<or> r_thread r \<in> set (busy_threads (s_runs s))"
  shows "claim_run r s = (Inr None, s)"
proof -
  have "find_thread (r_thread r) (s_threads s) = None \<or> has_running (r_thread r) (s_runs s)"
    using assms(4) by (simp only: find_thread_None has_running_busy)
  then show ?thesis
    using find_is_run [OF assms(1,2)] assms(3) by (auto simp: claim_run_def act_defs)
qed

lemma claim_run_free:
  assumes "distinct (map r_id (s_runs s))" and "r \<in> set (s_runs s)" and "r_status r = RPending"
    and "r_thread r \<in> set (map t_id (s_threads s))" and "r_thread r \<notin> set (busy_threads (s_runs s))"
  defines "n \<equiv> dict_get (s_retries s) (r_id r) 0 + 1"
  shows "claim_run r s = (Inr (Some (running r, n)),
    s\<lparr>s_retries := AList.update (r_id r) n (s_retries s), s_runs := claimed_runs [r] (s_runs s)\<rparr>)"
proof -
  have "find_thread (r_thread r) (s_threads s) \<noteq> None" "\<not> has_running (r_thread r) (s_runs s)"
    using assms(4,5) by (simp_all only: find_thread_None has_running_busy not_not not_False_eq_True)
  then show ?thesis
    using find_is_run [OF assms(1,2)] update_is_run [OF assms(1,2), of "r_status_update (\<lambda>_. RRunning)"] assms(3)
    by (simp add: claim_run_def act_defs retry_increment_def Let_def set_run_def running_def claimed_runs_def n_def)
qed

lemma claimed_runs_simps [simp]:
  "map r_id (claimed_runs ps rs) = map r_id rs" "claimed_runs [] rs = rs"
  by (simp_all add: claimed_runs_def comp_def if_distrib cong: if_cong)

lemma claimed_runs_compose: "claimed_runs ps (claimed_runs [r] rs) = claimed_runs (r # ps) rs"
  by (simp add: claimed_runs_def running_def)

lemma busy_claimed:
  "distinct (map r_id rs) \<Longrightarrow> r \<in> set rs \<Longrightarrow> set (busy_threads (claimed_runs [r] rs)) = insert (r_thread r) (set (busy_threads rs))"
proof (rule set_eqI, unfold has_running_busy [symmetric] insert_iff)
  fix i
  assume d: "distinct (map r_id rs)" "r \<in> set rs"
  have "has_running i (claimed_runs [r] rs) \<longleftrightarrow>
      (\<exists>x \<in> set rs. r_thread x = i \<and> (r_id x = r_id r \<or> r_status x = RRunning))"
    unfolding has_running_def claimed_runs_def set_map bex_simps(7) by (intro bex_cong refl) auto
  also have "\<dots> \<longleftrightarrow> i = r_thread r \<or> has_running i rs"
    using d by (auto simp: has_running_def distinct_map inj_on_def)
  finally show "has_running i (claimed_runs [r] rs) \<longleftrightarrow> i = r_thread r \<or> has_running i rs" .
qed

lemma claim_runs_refines:
  assumes "distinct (map r_id (s_runs s))" and "set rs \<subseteq> set (s_runs s)" and "distinct (map r_id rs)"
    and "\<forall>r \<in> set rs. r_status r = RPending"
  defines "ps \<equiv> pick_runs (map t_id (s_threads s)) (busy_threads (s_runs s)) rs"
  shows "\<exists>s'. claim_runs rs s = (Inr (map (\<lambda>r. (running r, dict_get (s_retries s) (r_id r) 0 + 1)) ps), s') \<and>
    s_runs s' = claimed_runs ps (s_runs s) \<and> s_threads s' = s_threads s"
  using assms(1-4) unfolding ps_def
proof (induction rs arbitrary: s)
  case Nil
  then show ?case by (simp add: act_defs)
next
  case (Cons r rs)
  have r: "r \<in> set (s_runs s)" "r_status r = RPending" using Cons.prems by auto
  let ?known = "map t_id (s_threads s)" and ?busy = "busy_threads (s_runs s)"
  show ?case
  proof (cases "r_thread r \<notin> set ?known \<or> r_thread r \<in> set ?busy")
    case True
    obtain s' where "claim_runs rs s =
        (Inr (map (\<lambda>r. (running r, dict_get (s_retries s) (r_id r) 0 + 1)) (pick_runs ?known ?busy rs)), s')"
      "s_runs s' = claimed_runs (pick_runs ?known ?busy rs) (s_runs s)" "s_threads s' = s_threads s"
      using Cons.IH [of s] Cons.prems by auto
    then show ?thesis
      using claim_run_blocked [OF Cons.prems(1) r True] True by (simp add: bind_def ret_def)
  next
    case False
    let ?n = "dict_get (s_retries s) (r_id r) 0 + 1"
    let ?s = "s\<lparr>s_retries := AList.update (r_id r) ?n (s_retries s), s_runs := claimed_runs [r] (s_runs s)\<rparr>"
    have claim: "claim_run r s = (Inr (Some (running r, ?n)), ?s)"
      using False by (intro claim_run_free [OF Cons.prems(1) r]) auto
    have other: "x \<noteq> r \<and> r_id x \<noteq> r_id r" if "x \<in> set rs" for x
      using Cons.prems(3) that by (auto simp: image_iff)
    have sub: "set rs \<subseteq> set (s_runs ?s)"
      using Cons.prems(2) other by (force simp: claimed_runs_def)
    let ?ps = "pick_runs ?known (r_thread r # ?busy) rs"
    have pick: "pick_runs ?known (busy_threads (s_runs ?s)) rs = ?ps"
      using busy_claimed [OF Cons.prems(1) r(1)] by (intro pick_runs_cong) simp
    obtain s' where s': "claim_runs rs ?s =
        (Inr (map (\<lambda>r. (running r, dict_get (s_retries ?s) (r_id r) 0 + 1)) ?ps), s')"
      "s_runs s' = claimed_runs ?ps (s_runs ?s)" "s_threads s' = s_threads s"
      using Cons.IH [of ?s] Cons.prems sub pick by auto
    have "map (\<lambda>r. (running r, dict_get (s_retries ?s) (r_id r) 0 + 1)) ?ps =
        map (\<lambda>r. (running r, dict_get (s_retries s) (r_id r) 0 + 1)) ?ps"
      using other pick_runs_set [of ?known "r_thread r # ?busy" rs] by (auto simp: dict_simps)
    then show ?thesis
      using s' claim False by (simp add: bind_def ret_def claimed_runs_compose)
  qed
qed

lemma pick_runs_progress:
  assumes "x \<in> set rs" and "r_thread x \<in> set known" and "r_thread x \<notin> set busy"
  shows "\<exists>r \<in> set (pick_runs known busy rs). r_thread r = r_thread x"
proof -
  obtain ys r zs where r: "rs = ys @ r # zs" "r_thread r = r_thread x" and "\<forall>y \<in> set ys. r_thread y \<noteq> r_thread x"
    using split_list_first_prop [of rs "\<lambda>y. r_thread y = r_thread x"] assms(1) by blast
  then have "r_thread r \<notin> r_thread ` set ys" by force
  then have "r \<in> set (pick_runs known busy rs)"
    using pick_runs_first [OF r(1)] r(2) assms(2,3) by simp
  with r(2) show ?thesis by blast
qed

lemma pick_runs_oldest:
  assumes "sorted (map f rs)" and "r \<in> set (pick_runs known busy rs)" and "x \<in> set rs" and "r_thread x = r_thread r"
  shows "(f r :: 'a :: linorder) \<le> f x"
  using assms
proof (induction rs arbitrary: busy)
  case (Cons y rs)
  have le: "\<forall>z \<in> set rs. f y \<le> f z" using Cons.prems(1) by simp
  show ?case
  proof (cases "r_thread y \<notin> set known \<or> r_thread y \<in> set busy")
    case True
    then have p: "r \<in> set (pick_runs known busy rs)" using Cons.prems(2) by simp
    then have "x \<noteq> y" using pick_runs_sound [OF p] True Cons.prems(4) by auto
    then show ?thesis using Cons p by auto
  next
    case False
    show ?thesis
    proof (cases "r = y")
      case True
      then show ?thesis using le Cons.prems(3) by auto
    next
      case neq: False
      then have p: "r \<in> set (pick_runs known (r_thread y # busy) rs)" using Cons.prems(2) False by simp
      then have "x \<noteq> y" using pick_runs_sound [OF p] Cons.prems(4) by auto
      then show ?thesis using Cons.IH [OF _ p] Cons.prems by auto
    qed
  qed
qed simp

lemma set_due_runs: "set (due_runs now rs) = {r \<in> set rs. r_status r = RPending \<and> r_created_at r < now}"
  by (auto simp: due_runs_def)

lemma sorted_due_runs: "sorted (map r_created_at (due_runs now rs))"
  by (simp add: due_runs_def)

lemma distinct_due_runs: "distinct (map r_id rs) \<Longrightarrow> distinct (map r_id (due_runs now rs))"
  by (auto simp: due_runs_def distinct_map inj_on_def)

text \<open>C13: The queue refines its specification. When run ids are unique, one call of \<open>Runs.next\<close>
  claims exactly the runs the selection picks from the \<open>limit\<close> oldest due ones, marks them running
  and nothing else, and returns each with its attempt number. So a claimed run was pending and due,
  its thread exists and had no running run, no two claimed runs share a thread, and a claimed run is
  the oldest due run of its thread.\<close>

theorem next_claims_oldest:
  assumes "distinct (map r_id (s_runs s))"
  shows "\<exists>ps s'. runs_next env limit s =
      (Inr (map (\<lambda>r. (running r, dict_get (s_retries s) (r_id r) 0 + 1)) ps), s') \<and>
    ps = pick_runs (map t_id (s_threads s)) (busy_threads (s_runs s))
           (take limit (due_runs (e_clock env (s_clock s)) (s_runs s))) \<and>
    s_runs s' = claimed_runs ps (s_runs s) \<and> s_threads s' = s_threads s \<and>
    distinct (map r_thread ps) \<and>
    (\<forall>r \<in> set ps. r \<in> set (s_runs s) \<and> r_status r = RPending \<and> r_created_at r < e_clock env (s_clock s) \<and>
       r_thread r \<in> t_id ` set (s_threads s) \<and> \<not> has_running (r_thread r) (s_runs s) \<and>
       (\<forall>x \<in> set (due_runs (e_clock env (s_clock s)) (s_runs s)).
          r_thread x = r_thread r \<longrightarrow> r_created_at r \<le> r_created_at x))"
proof -
  let ?now = "e_clock env (s_clock s)"
  let ?due = "due_runs ?now (s_runs s)"
  let ?s = "s\<lparr>s_clock := Suc (s_clock s)\<rparr>"
  define ps where "ps = pick_runs (map t_id (s_threads s)) (busy_threads (s_runs s)) (take limit ?due)"
  have "set (take limit ?due) \<subseteq> set (s_runs ?s)" "\<forall>r \<in> set (take limit ?due). r_status r = RPending"
    using set_take_subset [of limit ?due] by (auto simp: set_due_runs)
  moreover have "distinct (map r_id (take limit ?due))"
    using distinct_due_runs [OF assms] by (metis distinct_take take_map)
  ultimately obtain s' where s': "claim_runs (take limit ?due) ?s =
      (Inr (map (\<lambda>r. (running r, dict_get (s_retries s) (r_id r) 0 + 1)) ps), s')"
    "s_runs s' = claimed_runs ps (s_runs s)" "s_threads s' = s_threads s"
    using claim_runs_refines [of ?s "take limit ?due"] assms by (auto simp: ps_def)
  have sub: "set ps \<subseteq> set (take limit ?due)"
    unfolding ps_def by (rule pick_runs_set)
  have oldest: "r_created_at r \<le> r_created_at x" if "r \<in> set ps" "x \<in> set ?due" "r_thread x = r_thread r" for r x
  proof (cases "x \<in> set (take limit ?due)")
    case True
    have "sorted (map r_created_at (take limit ?due))"
      using sorted_due_runs by (metis sorted_wrt_take take_map)
    then show ?thesis using pick_runs_oldest that True unfolding ps_def by blast
  next
    case False
    then have "x \<in> set (drop limit ?due)"
      using that(2) by (metis UnE append_take_drop_id set_append)
    moreover have "sorted (map r_created_at (take limit ?due) @ map r_created_at (drop limit ?due))"
      using sorted_due_runs [of ?now "s_runs s"] by (metis append_take_drop_id map_append)
    ultimately show ?thesis
      using that(1) sub by (auto simp: sorted_append)
  qed
  have "\<forall>r \<in> set ps. r \<in> set ?due"
    using sub set_take_subset [of limit ?due] by blast
  moreover have "\<forall>r \<in> set ps. r_thread r \<in> t_id ` set (s_threads s) \<and> \<not> has_running (r_thread r) (s_runs s)"
    using pick_runs_sound [of _ "map t_id (s_threads s)"] unfolding ps_def has_running_busy by fastforce
  ultimately show ?thesis
    using s' oldest pick_runs_distinct [of "map t_id (s_threads s)"]
    by (intro exI [of _ ps] exI [of _ s']) (auto simp: runs_next_def bind_def datetime_now_def reads_def ps_def set_due_runs)
qed


section \<open>Creating runs\<close>

definition inserted_run :: "env \<Rightarrow> run_request \<Rightarrow> dict \<Rightarrow> assistant \<Rightarrow> uuid \<Rightarrow> thread option \<Rightarrow> sys \<Rightarrow> run" where
  "inserted_run env q md a i t s =
     new_run q md a i t (e_clock env (s_clock s) + q_after_seconds q * 1000000) (e_clock env (Suc (s_clock s)))"

lemma insert_run_eq:
  "insert_run env q md a i ex s =
     (let t = (if ex then find_thread i (s_threads s) else None);
          inflight = inflight_runs i (s_runs s); r = inserted_run env q md a i t s
      in if q_prevent q \<and> inflight \<noteq> [] then (Inr inflight, s)
         else (Inr (r # inflight), s\<lparr>s_clock := s_clock s + 2, s_runs := s_runs s @ [r]\<rparr>))"
  by (simp add: insert_run_def Let_def bind_def reads_def datetime_now_def modify_def ret_def inserted_run_def)

lemma inserted_run_fields [simp]:
  "r_id (inserted_run env q md a i t s) = q_run q" "r_thread (inserted_run env q md a i t s) = i"
  "r_status (inserted_run env q md a i t s) = q_status q" "r_assistant (inserted_run env q md a i t s) = a_id a"
  "r_metadata (inserted_run env q md a i t s) = run_metadata q md a t"
  by (simp_all add: inserted_run_def new_run_def Let_def)

text \<open>The two states in which a run is inserted: the thread was marked busy, or created.\<close>

definition occupied :: "env \<Rightarrow> run_request \<Rightarrow> assistant \<Rightarrow> thread \<Rightarrow> sys \<Rightarrow> sys" where
  "occupied env q a t s =
     (if t_status t = TBusy then s
      else set_thread (t_id t) (occupy_thread a (dict_at (q_kwargs q) ''config'') (e_clock env (s_clock s)))
             (s\<lparr>s_clock := Suc (s_clock s)\<rparr>))"

definition with_run_thread :: "env \<Rightarrow> run_request \<Rightarrow> dict \<Rightarrow> assistant \<Rightarrow> uuid \<Rightarrow> sys \<Rightarrow> sys" where
  "with_run_thread env q md a i s =
     append_thread (new_run_thread a i (dict_at (q_kwargs q) ''config'') md
        (e_clock env (s_clock s)) (e_clock env (Suc (s_clock s)))) (s\<lparr>s_clock := Suc (Suc (s_clock s))\<rparr>)"

text \<open>The authorization of a put: the handler's answer for the run and the ownership of the
  assistant.\<close>

definition put_auth :: "env \<Rightarrow> run_request \<Rightarrow> (dict option \<times> dict) res" where
  "put_auth env q =
     handle_event env AThreads ACreateRun
       (if truthy (dict_get (q_kwargs q) ''temporary'' (PBool False)) then None else q_thread q)
       (case q_metadata q of None \<Rightarrow> [] | Some m \<Rightarrow> m)"

definition put_owned :: "env \<Rightarrow> assistant \<Rightarrow> bool res" where
  "put_owned env a =
     (if system_created (a_metadata a) then Inr True
      else res_bind (auth_filters env AAssistants ARead (Some (a_id a))) (allowed (a_metadata a)))"

lemma put_owned_act:
  "(if system_created (a_metadata a) then ret True
    else bind (lift_res (auth_filters env AAssistants ARead (Some (a_id a)))) (\<lambda>f. lift_res (allowed (a_metadata a) f))) =
   lift_res (put_owned env a)"
  by (rule ext) (simp add: act_defs res_bind_def put_owned_def split: sum.splits)

definition put_found :: "run_request \<Rightarrow> sys \<Rightarrow> thread option" where
  "put_found q s = (case q_thread q of None \<Rightarrow> None | Some i \<Rightarrow> find_thread i (s_threads s))"

lemmas put_steps = runs_put_def put_owned_act put_auth_def Let_def bind_def reads_def lift_res_def ret_def

lemma runs_put_denied:
  assumes "find_assistant (q_assistant q) (s_assistants s) = Some a"
    and "\<nexists>f md. put_auth env q = Inr (f, md) \<and> put_owned env a = Inr True"
  shows "snd (runs_put env q s) = s \<and> (fst (runs_put env q s) = Inr [] \<or> (\<exists>e. fst (runs_put env q s) = Inl e))"
  using assms by (cases "put_auth env q"; cases "put_owned env a") (auto simp: put_steps)

lemma runs_put_existing:
  assumes "find_assistant (q_assistant q) (s_assistants s) = Some a"
    and "put_auth env q = Inr (f, md)" and "put_owned env a = Inr True" and "put_found q s = Some t"
  shows "runs_put env q s =
    (case allowed (t_metadata t) f of
       Inl e \<Rightarrow> (Inl e, s)
     | Inr ok \<Rightarrow> if ok then insert_run env q md a (t_id t) True (occupied env q a t s) else (Inr [], s))"
  using assms
  by (simp add: put_steps put_found_def occupied_def datetime_now_def modify_def split: sum.splits)

lemma runs_put_created:
  assumes "find_assistant (q_assistant q) (s_assistants s) = Some a"
    and "put_auth env q = Inr (f, md)" and "put_owned env a = Inr True" and "put_found q s = None"
  shows "q_thread q = Some i \<Longrightarrow> runs_put env q s =
      (if q_create q then insert_run env q md a i False (with_run_thread env q md a i s) else (Inr [], s))"
    and "q_thread q = None \<Longrightarrow> runs_put env q s =
      insert_run env q md a (e_uuid4 env (s_fresh s)) False
        (with_run_thread env q md a (e_uuid4 env (s_fresh s)) (s\<lparr>s_fresh := Suc (s_fresh s)\<rparr>))"
  using assms
  by (simp_all add: put_steps put_found_def with_run_thread_def datetime_now_def modify_def uuid4_def)

text \<open>Every way a put can end.\<close>

lemma runs_put_cases:
  obtains (unchanged) "snd (runs_put env q s) = s" "fst (runs_put env q s) = Inr [] \<or> (\<exists>e. fst (runs_put env q s) = Inl e)"
  | (existing) a t md where "find_assistant (q_assistant q) (s_assistants s) = Some a"
      "q_thread q = Some (t_id t)" "find_thread (t_id t) (s_threads s) = Some t"
      "runs_put env q s = insert_run env q md a (t_id t) True (occupied env q a t s)"
  | (created) a md i s1 where "find_assistant (q_assistant q) (s_assistants s) = Some a"
      "q_thread q = Some i \<and> find_thread i (s_threads s) = None \<and> s1 = s
       \<or> q_thread q = None \<and> i = e_uuid4 env (s_fresh s) \<and> s1 = s\<lparr>s_fresh := Suc (s_fresh s)\<rparr>"
      "runs_put env q s = insert_run env q md a i False (with_run_thread env q md a i s1)"
proof (cases "find_assistant (q_assistant q) (s_assistants s)")
  case None
  then show ?thesis using unchanged by (simp add: runs_put_def act_defs)
next
  case a: (Some a)
  show ?thesis
  proof (cases "\<exists>f md. put_auth env q = Inr (f, md) \<and> put_owned env a = Inr True")
    case False
    then show ?thesis using runs_put_denied [OF a] unchanged by blast
  next
    case True
    then obtain f md where auth: "put_auth env q = Inr (f, md)" "put_owned env a = Inr True" by blast
    show ?thesis
    proof (cases "put_found q s")
      case (Some t)
      then have t: "q_thread q = Some (t_id t)" "find_thread (t_id t) (s_threads s) = Some t"
        by (auto simp: put_found_def find_thread_SomeD split: option.splits)
      note eq = runs_put_existing [OF a auth Some]
      show ?thesis
      proof (cases "allowed (t_metadata t) f = Inr True")
        case True
        then show ?thesis using existing [OF a t] eq by simp
      next
        case False
        then show ?thesis using unchanged eq by (cases "allowed (t_metadata t) f") auto
      qed
    next
      case None
      show ?thesis
      proof (cases "q_thread q")
        case None
        then show ?thesis
          using created [OF a, of "e_uuid4 env (s_fresh s)"] runs_put_created(2) [OF a auth \<open>put_found q s = None\<close>] by blast
      next
        case (Some i)
        note eq = runs_put_created(1) [OF a auth None Some]
        have "find_thread i (s_threads s) = None" using None Some by (simp add: put_found_def)
        then show ?thesis
          using created [OF a, of i s md] Some eq unchanged by (cases "q_create q") auto
      qed
    qed
  qed
qed

lemma merge_jsonb_fold: "merge_jsonb ds = fold (\<lambda>d acc. dict_merge acc d) ds []"
  by (cases ds) simp_all

lemma merge_jsonb_last:
  "distinct (map fst e) \<Longrightarrow> map_of e k = Some v \<Longrightarrow> map_of (merge_jsonb (ds @ [e])) k = Some v"
  by (simp add: merge_jsonb_fold map_of_dict_merge)

text \<open>What the server writes over whatever the caller passes.\<close>

lemma run_metadata_assistant: "map_of (run_metadata q md a t) ''assistant_id'' = Some (PStr (uuid_str (a_id a)))"
  by (simp add: run_metadata_def dict_simps)

lemma run_configurable_ids:
  "map_of (run_configurable q a i t) ''run_id'' = Some (PStr (uuid_str (q_run q)))"
  "map_of (run_configurable q a i t) ''thread_id'' = Some (PStr (uuid_str i))"
  "map_of (run_configurable q a i t) ''assistant_id'' = Some (PStr (uuid_str (a_id a)))"
  "map_of (run_configurable q a i t) ''graph_id'' = Some (PStr (a_graph_id a))"
  unfolding run_configurable_def Let_def
  by (rule merge_jsonb_last [of _ _ _ "[x, y, z]" for x y z, simplified append.simps]; simp)+

lemma new_run_config:
  "\<exists>c. map_of (r_kwargs (new_run q md a i t x y)) ''config'' = Some (PDict c) \<and>
     map_of c ''configurable'' = Some (PDict (run_configurable q a i t))"
proof -
  let ?c = "merge_jsonb [a_config a, dict_at (q_kwargs q) ''config'',
    [(''configurable'', PDict (run_configurable q a i t))], [(''metadata'', PDict (run_metadata q md a t))]]"
  have "map_of ?c ''configurable'' = Some (PDict (run_configurable q a i t))"
    by (simp add: dict_simps)
  moreover have "map_of (r_kwargs (new_run q md a i t x y)) ''config'' = Some (PDict ?c)"
    unfolding new_run_def Let_def by (simp add: dict_simps)
  ultimately show ?thesis by blast
qed

lemma occupied_thread:
  assumes "find_thread (t_id t) (s_threads s) = Some t"
  shows "\<exists>t'. find_thread (t_id t) (s_threads (occupied env q a t s)) = Some t' \<and> t_status t' = TBusy"
    and "s_runs (occupied env q a t s) = s_runs s"
    and "map t_id (s_threads (occupied env q a t s)) = map t_id (s_threads s)"
  using assms find_thread_set [of "occupy_thread a c n" for c n]
  by (auto simp: occupied_def occupy_thread_def set_thread_def map_update_first find_thread_def)

lemma find_assistant_id: "find_assistant i as = Some a \<Longrightarrow> a_id a = i"
  by (auto simp: find_assistant_def find_Some_iff)

lemma with_run_thread_fields:
  "s_runs (with_run_thread env q md a i s) = s_runs s"
  "s_threads (with_run_thread env q md a i s) = s_threads s @
     [new_run_thread a i (dict_at (q_kwargs q) ''config'') md (e_clock env (s_clock s)) (e_clock env (Suc (s_clock s)))]"
  by (simp_all add: with_run_thread_def append_thread_def)

lemma new_run_thread_fields [simp]:
  "t_id (new_run_thread a i c md x y) = i" "t_status (new_run_thread a i c md x y) = TBusy"
  by (simp_all add: new_run_thread_def)

definition run_ids_fixed :: "run_request \<Rightarrow> assistant \<Rightarrow> run \<Rightarrow> bool" where
  "run_ids_fixed q a x \<longleftrightarrow>
     r_id x = q_run q \<and> r_status x = q_status q \<and> r_assistant x = a_id a \<and>
     map_of (r_metadata x) ''assistant_id'' = Some (PStr (uuid_str (a_id a))) \<and>
     (\<exists>c d. map_of (r_kwargs x) ''config'' = Some (PDict c) \<and> map_of c ''configurable'' = Some (PDict d) \<and>
        map_of d ''run_id'' = Some (PStr (uuid_str (q_run q))) \<and> map_of d ''thread_id'' = Some (PStr (uuid_str (r_thread x))) \<and>
        map_of d ''assistant_id'' = Some (PStr (uuid_str (a_id a))) \<and> map_of d ''graph_id'' = Some (PStr (a_graph_id a)))"

lemma inserted_run_fixed: "run_ids_fixed q a (inserted_run env q md a i t s)"
proof -
  obtain c where "map_of (r_kwargs (inserted_run env q md a i t s)) ''config'' = Some (PDict c)"
    "map_of c ''configurable'' = Some (PDict (run_configurable q a i t))"
    using new_run_config unfolding inserted_run_def by blast
  then show ?thesis
    unfolding run_ids_fixed_def using run_metadata_assistant run_configurable_ids by simp
qed

text \<open>C15: What a put inserts. When a put changes the queue, it appends one run and returns it with
  the active runs of its thread; with \<open>prevent_insert_if_inflight\<close> there were none. The thread of
  the run exists and is busy. Whatever metadata and configuration the caller passes, the run
  carries the assistant it was created for, and its configuration the run, thread, assistant and
  graph ids of the server.\<close>

theorem run_put_inserts:
  assumes "runs_put env q s = (r, s')" and "s_runs s' \<noteq> s_runs s"
    and "q_thread q = None \<Longrightarrow> find_thread (e_uuid4 env (s_fresh s)) (s_threads s) = None"
  shows "\<exists>x a t. r = Inr (x # inflight_runs (r_thread x) (s_runs s)) \<and> s_runs s' = s_runs s @ [x] \<and>
    (q_prevent q \<longrightarrow> inflight_runs (r_thread x) (s_runs s) = []) \<and>
    find_thread (r_thread x) (s_threads s') = Some t \<and> t_status t = TBusy \<and>
    find_assistant (q_assistant q) (s_assistants s) = Some a \<and> run_ids_fixed q a x"
proof (cases rule: runs_put_cases [of env q s])
  case unchanged
  with assms show ?thesis by simp
next
  case (existing a t md)
  let ?s = "occupied env q a t s"
  let ?x = "inserted_run env q md a (t_id t) (find_thread (t_id t) (s_threads ?s)) ?s"
  obtain t' where "find_thread (t_id t) (s_threads ?s) = Some t'" "t_status t' = TBusy"
    using occupied_thread(1) [OF existing(3)] by blast
  then show ?thesis
    using existing assms(1,2) inserted_run_fixed [of q a env md "t_id t" "find_thread (t_id t) (s_threads ?s)" ?s]
      occupied_thread(2) [OF existing(3), of env q a]
    by (intro exI [of _ ?x] exI [of _ a] exI [of _ t']) (auto simp: insert_run_eq Let_def split: if_splits)
next
  case (created a md i s1)
  let ?s = "with_run_thread env q md a i s1"
  let ?x = "inserted_run env q md a i None ?s"
  have s1: "s_runs s1 = s_runs s" "s_threads s1 = s_threads s" "find_thread i (s_threads s) = None"
    using created(2) assms(3) by auto
  obtain t where "find_thread i (s_threads ?s) = Some t" "t_status t = TBusy"
    using s1(2,3) by (simp add: with_run_thread_fields find_thread_def find_append)
  then show ?thesis
    using created assms(1,2) inserted_run_fixed [of q a env md i None ?s] s1(1)
    by (intro exI [of _ ?x] exI [of _ a] exI [of _ t]) (auto simp: insert_run_eq Let_def with_run_thread_fields(1) split: if_splits)
qed

section \<open>Cancelling\<close>

text \<open>What a cancellation changes of a run: its status.\<close>

definition run_view :: "run \<Rightarrow> uuid \<times> uuid \<times> run_status" where
  "run_view r = (r_id r, r_thread r, r_status r)"

definition interrupt_view :: "run list \<Rightarrow> uuid \<times> uuid \<times> run_status \<Rightarrow> uuid \<times> uuid \<times> run_status" where
  "interrupt_view xs v = (case v of (i, t, st) \<Rightarrow> (i, t, if (i, t) \<in> (\<lambda>r. (r_id r, r_thread r)) ` set xs then RInterrupted else st))"

lemma interrupt_view_Nil [simp]: "interrupt_view [] v = v"
  by (simp add: interrupt_view_def split: prod.splits)

lemma interrupt_view_compose: "interrupt_view xs (interrupt_view [r] v) = interrupt_view (r # xs) v"
  by (auto simp: interrupt_view_def split: prod.splits)

lemma update_first_is_run:
  "distinct (map r_id rs) \<Longrightarrow> update_first (is_run i t) f rs = map (\<lambda>x. if is_run i t x then f x else x) rs"
proof (induction rs)
  case (Cons x xs)
  have "map (\<lambda>y. if is_run (r_id x) t y then f y else y) xs = xs"
    using Cons.prems by (induction xs) (auto simp: is_run_def)
  with Cons show ?case by (auto simp: is_run_def)
qed simp

lemma interrupt_run_effect:
  assumes "distinct (map r_id (s_runs s))"
  shows "\<exists>s'. interrupt_run env r s = (Inr (), s') \<and> s_stream s' = s_stream s \<and>
    map run_view (s_runs s') = map (interrupt_view [r]) (map run_view (s_runs s)) \<and>
    map t_id (s_threads s') = map t_id (s_threads s) \<and> map r_id (s_runs s') = map r_id (s_runs s)"
  using update_first_is_run [OF assms]
  by (auto simp: interrupt_run_def act_defs set_run_def set_thread_def map_update_first run_view_def interrupt_view_def is_run_def)

lemma cancel_loop_interrupt:
  assumes "distinct (map r_id (s_runs s))"
  shows "\<exists>s'. cancel_loop env CancelInterrupt rs s = (Inr (map PutControl rs, filter (\<lambda>r. active_status (r_status r)) rs), s') \<and>
    s_stream s' = s_stream s \<and> map t_id (s_threads s') = map t_id (s_threads s) \<and> map r_id (s_runs s') = map r_id (s_runs s) \<and>
    map run_view (s_runs s') =
      map (interrupt_view (filter (\<lambda>r. active_status (r_status r)) rs)) (map run_view (s_runs s))"
  using assms
proof (induction rs arbitrary: s)
  case Nil
  then show ?case by (simp add: ret_def)
next
  case (Cons r rs)
  show ?case
  proof (cases "active_status (r_status r)")
    case True
    obtain s1 where one: "interrupt_run env r s = (Inr (), s1)" "s_stream s1 = s_stream s"
      "map run_view (s_runs s1) = map (interrupt_view [r]) (map run_view (s_runs s))"
      "map t_id (s_threads s1) = map t_id (s_threads s)" "map r_id (s_runs s1) = map r_id (s_runs s)"
      using interrupt_run_effect [OF Cons.prems] by blast
    then have "distinct (map r_id (s_runs s1))" using Cons.prems by simp
    from Cons.IH [OF this] obtain s2 where
      "cancel_loop env CancelInterrupt rs s1 = (Inr (map PutControl rs, filter (\<lambda>r. active_status (r_status r)) rs), s2)"
      "s_stream s2 = s_stream s1" "map t_id (s_threads s2) = map t_id (s_threads s1)" "map r_id (s_runs s2) = map r_id (s_runs s1)"
      "map run_view (s_runs s2) =
        map (interrupt_view (filter (\<lambda>r. active_status (r_status r)) rs)) (map run_view (s_runs s1))"
      by blast
    then show ?thesis
      using one True by (simp add: bind_def reads_def ret_def interrupt_view_compose)
  next
    case False
    then show ?thesis
      using Cons.IH [OF Cons.prems] by (auto simp: bind_def reads_def ret_def)
  qed
qed

lemma gather_put_control:
  "\<exists>s'. gather_act (run_coro env action) (map PutControl rs) s = (Inr (map (\<lambda>_. ()) rs), s') \<and>
    s_runs s' = s_runs s \<and> s_threads s' = s_threads s \<and>
    s_stream s' = fold (\<lambda>r. put_message (r_id r) (Some (r_thread r))
      \<lparr>m_topic = control_topic (r_id r), m_data = action_name action, m_id = None\<rparr> False) rs (s_stream s)"
proof (induction rs arbitrary: s)
  case (Cons r rs)
  let ?s = "s\<lparr>s_stream := put_message (r_id r) (Some (r_thread r))
    \<lparr>m_topic = control_topic (r_id r), m_data = action_name action, m_id = None\<rparr> False (s_stream s)\<rparr>"
  have "run_coro env action (PutControl r) s = (Inr (), ?s)"
    by (simp add: run_coro_def modify_def)
  then show ?case using Cons.IH [of ?s] by (auto simp: res_bind_def)
qed simp

text \<open>Publishing a control message stores it as the run's control key.\<close>

lemma fold_queue_put_fields:
  "sm_control_keys (fold (queue_put m) qs w) = sm_control_keys w" "sm_stopped (fold (queue_put m) qs w) = sm_stopped w"
  "sm_pending_run_deletes (fold (queue_put m) qs w) = sm_pending_run_deletes w"
  "sm_active_runs (fold (queue_put m) qs w) = sm_active_runs w"
proof -
  have "only_messages w (fold (queue_put m) qs w)"
    by (intro only_messages_fold only_messages_queue_put)
  then have "tables (fold (queue_put m) qs w) = tables w"
    by (simp add: only_messages_def)
  from tables_eqD [OF this] show
    "sm_control_keys (fold (queue_put m) qs w) = sm_control_keys w" "sm_stopped (fold (queue_put m) qs w) = sm_stopped w"
    "sm_pending_run_deletes (fold (queue_put m) qs w) = sm_pending_run_deletes w"
    "sm_active_runs (fold (queue_put m) qs w) = sm_active_runs w"
    by simp_all
qed

lemma starts_with_refl: "starts_with (xs @ ys) xs"
  by (induction xs) auto

lemma substring_append: "substring sub (xs @ sub @ ys)"
proof (induction xs)
  case Nil
  then show ?case using starts_with_refl [of sub ys] by (cases "sub @ ys") (auto simp: substring.simps)
qed simp

lemma control_topic_control: "substring ''control'' (control_topic r)"
  using substring_append [of "''control''" "''run:'' @ uuid_str r @ '':''" "[]"] by (simp add: control_topic_def)

lemma put_control:
  assumes "\<not> sm_stopped w" and "(thread_key th, r) \<notin> set (sm_pending_run_deletes w)"
    and "substring ''control'' (m_topic m)"
  shows "\<exists>i. sm_control_keys (put_message r th m False w) =
    nested_put (sm_control_keys w) (thread_key th) r (m\<lparr>m_id := Some i\<rparr>)"
  using assms by (auto simp: put_message_def Let_def stamp_def fold_queue_put_fields split: prod.splits)

lemma put_message_flags:
  "sm_stopped (put_message r th m b w) = sm_stopped w"
  "sm_pending_run_deletes (put_message r th m b w) = sm_pending_run_deletes w"
  "sm_active_runs (put_message r th m b w) = sm_active_runs w"
  by (simp_all add: put_message_def Let_def stamp_def fold_queue_put_fields split: prod.splits)

lemma fold_put_control:
  assumes "\<not> sm_stopped w" and "\<forall>r \<in> set rs. (thread_key (th r), key r) \<notin> set (sm_pending_run_deletes w)"
    and "\<forall>r \<in> set rs. substring ''control'' (m_topic (msg r)) \<and> m_data (msg r) = d" and "r \<in> set rs"
  shows "\<exists>m. nested_get (sm_control_keys (fold (\<lambda>r. put_message (key r) (th r) (msg r) False) rs w)) (thread_key (th r)) (key r) = Some m
    \<and> m_data m = d"
  using assms
proof (induction rs rule: rev_induct)
  case (snoc x rs)
  let ?w = "fold (\<lambda>r. put_message (key r) (th r) (msg r) False) rs w"
  have flags: "sm_stopped ?w = sm_stopped w" "sm_pending_run_deletes ?w = sm_pending_run_deletes w"
    by (induction rs arbitrary: w) (simp_all add: put_message_flags)
  obtain i where "sm_control_keys (put_message (key x) (th x) (msg x) False ?w) =
      nested_put (sm_control_keys ?w) (thread_key (th x)) (key x) ((msg x)\<lparr>m_id := Some i\<rparr>)"
    using put_control [of ?w "th x" "key x" "msg x"] snoc.prems(1-3) flags by auto
  then show ?case
    using snoc by (cases "thread_key (th r) = thread_key (th x) \<and> key r = key x") (auto simp: nested_get_put)
qed simp

text \<open>C16: An interrupt reaches exactly the runs it names. When no filter restricts the caller and
  some matching run is active, the call returns; the pending and running runs that match are
  interrupted, every other run keeps its status and none is added or removed; and unless the
  stream manager is stopped or the run's deletion is pending, the interrupt is stored for the
  worker of each matching run.\<close>

theorem cancel_interrupts_exactly:
  assumes "distinct (map r_id (s_runs s))" and "cancel_args_ok k" and "status_list (k_status k) = Inr sts"
    and "auth_filters env AThreads AUpdate (k_thread k) = Inr None"
    and "\<exists>r \<in> set (s_runs s). is_run_match k sts r \<and> active_status (r_status r)"
    and "runs_cancel env k CancelInterrupt s = (res, s')"
  shows "res = Inr () \<and>
    map run_view (s_runs s') = map (\<lambda>r. (r_id r, r_thread r,
      if is_run_match k sts r \<and> active_status (r_status r) then RInterrupted else r_status r)) (s_runs s) \<and>
    (\<not> sm_stopped (s_stream s) \<and> sm_pending_run_deletes (s_stream s) = [] \<longrightarrow>
       (\<forall>r \<in> set (s_runs s). is_run_match k sts r \<longrightarrow>
          (\<exists>m. get_control_key (r_id r) (Some (r_thread r)) (s_stream s') = Some m \<and> m_data m = ''interrupt'')))"
proof -
  let ?cs = "filter (is_run_match k sts) (s_runs s)"
  let ?as = "filter (\<lambda>r. active_status (r_status r)) ?cs"
  obtain s1 where loop: "cancel_loop env CancelInterrupt ?cs s = (Inr (map PutControl ?cs, ?as), s1)"
    and s1: "s_stream s1 = s_stream s" "map run_view (s_runs s1) = map (interrupt_view ?as) (map run_view (s_runs s))"
    using cancel_loop_interrupt [OF assms(1), of env ?cs] by blast
  obtain s2 where gather: "gather_act (run_coro env CancelInterrupt) (map PutControl ?cs) s1 = (Inr (map (\<lambda>_. ()) ?cs), s2)"
    and s2: "s_runs s2 = s_runs s1"
    "s_stream s2 = fold (\<lambda>r. put_message (r_id r) (Some (r_thread r))
      \<lparr>m_topic = control_topic (r_id r), m_data = action_name CancelInterrupt, m_id = None\<rparr> False) ?cs (s_stream s1)"
    using gather_put_control by blast
  have gate: "filter_act (\<lambda>r. ret True) xs s = (Inr xs, s)" for xs :: "run list"
    by (induction xs) (simp_all add: bind_def ret_def)
  have ne: "?cs \<noteq> []" "?as \<noteq> []" using assms(5) by (auto simp: filter_empty_conv)
  then have eq: "res = Inr ()" "s' = s2"
    using assms(2-4,6) loop gather
    by (auto simp: runs_cancel_def bind_def lift_res_def reads_def ret_def gate thread_gate_def split: option.splits)
  have "interrupt_view ?as (run_view r) = (r_id r, r_thread r,
      if is_run_match k sts r \<and> active_status (r_status r) then RInterrupted else r_status r)" if "r \<in> set (s_runs s)" for r
    using that assms(1) by (auto simp: interrupt_view_def run_view_def distinct_map inj_on_def)
  then have views: "map run_view (s_runs s') = map (\<lambda>r. (r_id r, r_thread r,
      if is_run_match k sts r \<and> active_status (r_status r) then RInterrupted else r_status r)) (s_runs s)"
    using s1(2) by (simp add: eq s2(1))
  have "\<exists>m. get_control_key (r_id r) (Some (r_thread r)) (s_stream s') = Some m \<and> m_data m = ''interrupt''"
    if "\<not> sm_stopped (s_stream s)" "sm_pending_run_deletes (s_stream s) = []" "r \<in> set ?cs" for r
    using fold_put_control [of "s_stream s" ?cs "\<lambda>r. Some (r_thread r)" r_id
        "\<lambda>r. \<lparr>m_topic = control_topic (r_id r), m_data = action_name CancelInterrupt, m_id = None\<rparr>" "''interrupt''" r] that
    by (simp add: eq s2(2) s1(1) get_control_key_def control_topic_control action_name_def)
  with eq(1) views show ?thesis by auto
qed

text \<open>C25: Cancelling a queued run unblocks the status of a thread that is still working. When a run
  of a thread is running and another one is pending, cancelling the pending one sets the thread to
  \<open>idle\<close> although its other run keeps running.\<close>

theorem cancel_idles_busy_thread:
  assumes "distinct (map r_id (s_runs s))" and "auth_filters env AThreads AUpdate (Some i) = Inr None"
    and "find_thread i (s_threads s) \<noteq> None" and "r \<in> set (s_runs s)" and "r_thread r = i" and "r_status r = RPending"
    and "x \<in> set (s_runs s)" and "r_thread x = i" and "r_status x = RRunning"
  shows "\<exists>s' t. cancel_run env i (r_id r) s = (Inr (), s') \<and>
    find_thread i (s_threads s') = Some t \<and> t_status t = TIdle \<and> has_active_runs i (s_runs s')"
proof -
  let ?k = "\<lparr>k_run_ids = Some [r_id r], k_thread = Some i, k_status = None, k_assistant = None\<rparr>"
  have match: "is_run_match ?k [] y \<longleftrightarrow> y = r" if "y \<in> set (s_runs s)" for y
    using that assms(1,4,5) by (auto simp: is_run_match_def distinct_map inj_on_def)
  have "filter (is_run_match ?k []) (s_runs s) = filter (\<lambda>y. y = r) (s_runs s)"
    using match by (intro filter_cong) auto
  also have "\<dots> = [r]"
    using assms(1,4) by (simp add: filter_eq_single distinct_map)
  finally have cs: "filter (is_run_match ?k []) (s_runs s) = [r]" .
  obtain t0 where t0: "find_thread i (s_threads s) = Some t0" using assms(3) by blast
  let ?f = "\<lambda>t. t\<lparr>t_status := TIdle, t_updated_at := e_clock env (s_clock s)\<rparr>"
  obtain s1 where int: "interrupt_run env r s = (Inr (), s1)" and s1: "s_threads s1 = s_threads (set_thread i ?f s)"
    "map run_view (s_runs s1) = map (interrupt_view [r]) (map run_view (s_runs s))"
    using interrupt_run_effect [OF assms(1), of env r] assms(5,6) t0
    by (auto simp: interrupt_run_def act_defs set_run_def set_thread_def)
  obtain s2 where gather: "gather_act (run_coro env CancelInterrupt) [PutControl r] s1 = (Inr [()], s2)"
    and s2: "s_runs s2 = s_runs s1" "s_threads s2 = s_threads s1"
    using gather_put_control [of env CancelInterrupt "[r]" s1] by auto
  have "cancel_run env i (r_id r) s = (Inr (), s2)"
    using assms(2,6) cs int gather
    by (simp add: cancel_run_def runs_cancel_def cancel_args_ok_def status_list_def thread_gate_def bind_def lift_res_def
        reads_def ret_def active_status_def)
  moreover have "find_thread i (s_threads s2) = Some (?f t0)"
    using find_thread_set [of ?f i i s] t0 by (simp add: s2(2) s1(1))
  moreover have "run_view x \<in> set (map run_view (s_runs s1))"
    using assms(4,6,7,9) unfolding s1(2)
    by (auto simp: image_iff interrupt_view_def run_view_def intro!: bexI [of _ x])
      (metis assms(1) distinct_map inj_onD run_status.distinct(1))
  then have "has_active_runs i (s_runs s2)"
    using assms(8,9) by (auto simp: s2(1) has_active_runs_def run_view_def active_status_def)
  ultimately show ?thesis by auto
qed

section \<open>Joint status\<close>

text \<open>The state after the run's own update in \<open>set_joint_status\<close>: only the runs, the stream and the
  checkpoints may have changed.\<close>

lemma get_with_filters_threads:
  "find_thread i (s_threads (snd (get_with_filters j f s))) \<noteq> None \<longleftrightarrow> find_thread i (s_threads s) \<noteq> None"
  using find_thread_set [of with_state_time i j s]
  by (auto simp: get_with_filters_def act_defs split: option.splits sum.splits)

lemma runs_delete_threads:
  "find_thread i (s_threads (snd (runs_delete env r t s))) \<noteq> None \<longleftrightarrow> find_thread i (s_threads s) \<noteq> None"
proof -
  have gate: "find_thread i (s_threads (snd (thread_gate f t s))) \<noteq> None \<longleftrightarrow> find_thread i (s_threads s) \<noteq> None" for f
    using get_with_filters_threads [of i t f s]
    by (cases "get_with_filters t f s") (auto simp: thread_gate_def bind_def ret_def split: sum.splits)
  show ?thesis
  proof (cases "auth_filters env AThreads ADelete (Some t)")
    case (Inl e)
    then show ?thesis by (simp add: runs_delete_def bind_def lift_res_def)
  next
    case (Inr f)
    then show ?thesis
      using gate [of f]
      by (cases "thread_gate f t s")
        (auto simp: runs_delete_def bind_def lift_res_def reads_def raise_def ret_def modify_def delete_checkpoints_for_thread_def
          split: sum.splits if_splits)
  qed
qed

definition joint_update :: "env \<Rightarrow> int \<Rightarrow> string \<Rightarrow> checkpoint_payload option \<Rightarrow> run_exception option \<Rightarrow> thread_status \<Rightarrow> thread \<Rightarrow> thread" where
  "joint_update env now g cp exc final t =
     status_update env now final cp exc (t\<lparr>t_metadata := AList.update ''graph_id'' (PStr g) (t_metadata t)\<rparr>)"

lemmas joint_defs = threads_set_joint_status_def Let_def bind_def reads_def datetime_now_def modify_def ret_def raise_def

lemma joint_found:
  "threads_set_joint_status env i r js g cp exc s = (Inr (), s') \<Longrightarrow>
   find_thread i (s_threads s) \<noteq> None \<and> find (is_run r i) (s_runs s) \<noteq> None"
  by (auto simp: joint_defs split: if_splits)

lemma joint_set:
  assumes "threads_set_joint_status env i r (JStatus st) g cp exc s = (Inr (), s')"
  defines "f \<equiv> \<lambda>x. x\<lparr>r_status := st, r_updated_at := e_clock env (s_clock s)\<rparr>"
  defines "s1 \<equiv> set_run r i f (s\<lparr>s_clock := Suc (s_clock s)\<rparr>)"
  shows "s' = set_thread i (joint_update env (e_clock env (s_clock s)) g cp exc
      (if has_active_runs i (s_runs s1) then TBusy
       else base_status (case exc of None \<Rightarrow> False | Some e \<Rightarrow> \<not> ex_user e) cp)) s1"
    and "\<exists>x. find (is_run r i) (s_runs s1) = Some x \<and> r_status x = st"
proof -
  obtain y where y: "find (is_run r i) (s_runs s) = Some y"
    using joint_found [OF assms(1)] by blast
  have x: "find (is_run r i) (s_runs s1) = Some (f y)"
    using find_update_first [of "is_run r i" f "s_runs s"] y by (simp add: set_run_def is_run_def s1_def f_def)
  then show "\<exists>x. find (is_run r i) (s_runs s1) = Some x \<and> r_status x = st"
    by (simp add: f_def)
  have "has_active_runs i (s_runs s1)" if "active_status st"
    using find_Some_iff_first [OF x] that
    by (auto simp: has_active_runs_def is_run_def f_def intro!: bexI [of _ "f y"])
  then show "s' = set_thread i (joint_update env (e_clock env (s_clock s)) g cp exc
      (if has_active_runs i (s_runs s1) then TBusy
       else base_status (case exc of None \<Rightarrow> False | Some e \<Rightarrow> \<not> ex_user e) cp)) s1"
    using assms(1) joint_found [OF assms(1)]
    by (auto simp: joint_defs joint_update_def [abs_def] s1_def f_def set_run_def)
qed

lemma joint_rollback:
  assumes "threads_set_joint_status env i r JRollback g cp exc s = (Inr (), s')"
  defines "s1 \<equiv> snd (runs_delete env r i (s\<lparr>s_clock := Suc (s_clock s)\<rparr>))"
  shows "s' = set_thread i (joint_update env (e_clock env (s_clock s)) g cp exc
      (if has_active_runs i (s_runs s1) then TBusy
       else base_status (case exc of None \<Rightarrow> False | Some e \<Rightarrow> \<not> ex_user e) cp)) s1"
  using assms(1) joint_found [OF assms(1)]
  by (cases "runs_delete env r i (s\<lparr>s_clock := Suc (s_clock s)\<rparr>)")
     (auto simp: joint_defs joint_update_def [abs_def] s1_def split: sum.splits)


end
