(* ===== verification/Run_Streams.thy ===== *)
theory Run_Streams
  imports Run_Safety
begin

text \<open>
  The streams of a run from the side of its worker and its readers: entering and leaving a run
  around its deletion, subscriptions that take the control messages with them, and the replay of a
  join.
\<close>

section \<open>Entering and leaving\<close>

lemma enter_begin_active:
  assumes "\<not> sm_stopped w" and "(thread_key th, r) \<notin> set (sm_pending_run_deletes w)"
  shows "(thread_key th, r) \<in> set (sm_active_runs (snd (enter_begin r th w)))"
    and "\<not> sm_stopped (snd (enter_begin r th w))"
  using assms
  by (auto simp: enter_begin_def mark_run_active_def add_control_queue_def new_queue_def Let_def split: prod.splits)

lemma deleted_puts:
  assumes "(thread_key th, r) \<in> set (sm_pending_run_deletes w)"
  shows "fold (\<lambda>(m, resumable). put_message r th m resumable) ms w = w"
  using assms by (induction ms) (auto simp: put_message_def)

text \<open>C18: A run deleted under its worker leaves nothing behind. The worker enters the run, the run is
  deleted while it is active, the worker goes on publishing and then leaves: afterwards the manager
  holds no queue, control queue, control key or stored message of the run, it is not active, and
  its deletion is no longer pending, so that its id could be used again.\<close>

theorem enter_releases_deleted:
  assumes "\<not> sm_stopped w" and "(thread_key th, r) \<notin> set (sm_pending_run_deletes w)"
    and "enter_begin r th w = (q, w1)"
    and "w2 = fold (\<lambda>(m, resumable). put_message r th m resumable) ms (delete_run enc r th w1)"
  shows "run_absent (thread_key th) r (enter_end enc r th res q w2) \<and>
    (thread_key th, r) \<notin> set (sm_active_runs (enter_end enc r th res q w2)) \<and>
    (thread_key th, r) \<notin> set (sm_pending_run_deletes (enter_end enc r th res q w2))"
proof -
  let ?k = "(thread_key th, r)"
  have active: "?k \<in> set (sm_active_runs w1)"
    using enter_begin_active(1) [OF assms(1,2)] assms(3) by simp
  let ?d = "delete_run enc r th w1"
  have pending: "?k \<in> set (sm_pending_run_deletes ?d)"
    using active by (simp add: delete_run_def release_run_def defer_delete_def clear_run_state_def)
  have "w2 = ?d"
    using deleted_puts [OF pending] assms(4) by simp
  moreover have puts: "put_message r th m b ?d = ?d" for m b
    using pending by (simp add: put_message_def)
  ultimately have "enter_end enc r th res q w2 = mark_run_inactive r th (remove_control_queue r th q ?d)"
    by (simp add: enter_end_def Let_def)
  moreover have "?k \<in> set (sm_pending_run_deletes (remove_control_queue r th q ?d))"
    using pending by (simp add: remove_control_queue_def)
  ultimately show ?thesis
    by (simp add: mark_run_inactive_def Let_def clear_run_state_def run_absent_def dict_simps)
qed

section \<open>Subscribing\<close>

lemma drain_heap:
  assumes "distinct cs" and "q \<notin> set cs"
  shows "sm_heap (fold (drain_queue q) cs w) =
    (\<lambda>c. if c = q then sm_heap w q @ concat (map (sm_heap w) cs) else if c \<in> set cs then [] else sm_heap w c)"
  using assms
proof (induction cs arbitrary: w)
  case (Cons x cs)
  have "map (sm_heap (drain_queue q x w)) cs = map (sm_heap w) cs"
    using Cons.prems by (auto simp: drain_queue_def)
  then show ?case
    using Cons by (auto simp: drain_queue_def fun_eq_iff)
qed auto


section \<open>Joining\<close>

definition is_done :: "decoder \<Rightarrow> message \<Rightarrow> bool" where
  "is_done decode m = (decode (m_topic m) (m_data m) = (''control'', ''done''))"

definition wanted :: "decoder \<Rightarrow> string list option \<Rightarrow> message \<Rightarrow> bool" where
  "wanted decode modes m =
     (fst (decode (m_topic m) (m_data m)) \<noteq> ''control'' \<and> run_stream_mode_matches (fst (decode (m_topic m) (m_data m))) modes)"

definition frame_of :: "decoder \<Rightarrow> message \<Rightarrow> frame" where
  "frame_of decode m = (fst (decode (m_topic m) (m_data m)), snd (decode (m_topic m) (m_data m)), m_id m)"

text \<open>The replay of a join delivers the stored messages of the wanted modes, in order and with
  their ids, up to the message that ends the run, and says whether it met it.\<close>

theorem join_replays_wanted:
  "join_replay decode modes ms =
     (map (frame_of decode) (filter (wanted decode modes) (takeWhile (\<lambda>m. \<not> is_done decode m) ms)),
      \<exists>m \<in> set ms. is_done decode m)"
  by (induction ms) (auto simp: is_done_def wanted_def frame_of_def split: prod.splits)

section \<open>Concrete instances\<close>

definition demo_run :: "uuid \<Rightarrow> uuid \<Rightarrow> run_status \<Rightarrow> int \<Rightarrow> run" where
  "demo_run i t st created =
     \<lparr>r_id = i, r_thread = t, r_assistant = 7, r_metadata = [], r_status = st, r_kwargs = [], r_multitask = MEnqueue,
      r_created_at = created, r_updated_at = created\<rparr>"

text \<open>Two threads; a run of the first is running, one waits behind it, and two wait on the second.\<close>

definition demo_queue :: sys where
  "demo_queue = demo_sys\<lparr>s_clock := 100, s_assistants := [demo_assistant 7],
     s_runs := [demo_run 10 1 RRunning 1, demo_run 11 1 RPending 2, demo_run 12 2 RPending 6, demo_run 13 2 RPending 5]\<rparr>"

lemma demo_queue_simps [simp]:
  "s_runs demo_queue = [demo_run 10 1 RRunning 1, demo_run 11 1 RPending 2, demo_run 12 2 RPending 6, demo_run 13 2 RPending 5]"
  "s_threads demo_queue = [new_thread 1 0 demo_meta_a (Some PNone), new_thread 2 0 [] None]"
  "s_clock demo_queue = 100" "s_retries demo_queue = []" "s_assistants demo_queue = [demo_assistant 7]"
  by (simp_all add: demo_queue_def demo_sys_def empty_sys_def)

lemma demo_run_simps [simp]:
  "r_id (demo_run i t st c) = i" "r_thread (demo_run i t st c) = t" "r_status (demo_run i t st c) = st"
  "r_created_at (demo_run i t st c) = c"
  by (simp_all add: demo_run_def)

lemma demo_env_clock [simp]: "e_clock demo_env n = int n"
  by (simp add: demo_env_def)

theorem next_claims_oldest_witness:
  "fst (runs_next demo_env 10 demo_queue) = Inr [(running (demo_run 13 2 RPending 5), 1)]"
proof -
  have "distinct (map r_id (s_runs demo_queue))" by simp
  from next_claims_oldest [OF this, of demo_env 10] show ?thesis
    by (auto simp: due_runs_def busy_threads_def dict_get_def)
qed


definition demo_request :: run_request where
  "demo_request = \<lparr>q_assistant = 7, q_kwargs = [], q_thread = Some 2, q_user = None, q_run = 14, q_status = RPending,
     q_metadata = Some [(''assistant_id'', PStr ''forged'')], q_prevent = False, q_multitask = MEnqueue, q_create = False,
     q_after_seconds = 0\<rparr>"

theorem run_put_inserts_witness:
  "\<exists>x s'. runs_put demo_env demo_request demo_queue =
       (Inr [x, demo_run 12 2 RPending 6, demo_run 13 2 RPending 5], s') \<and>
     map_of (r_metadata x) ''assistant_id'' = Some (PStr (uuid_str 7))"
proof (cases "runs_put demo_env demo_request demo_queue")
  case (Pair r s')
  have "put_auth demo_env demo_request = Inr (None, [(''assistant_id'', PStr ''forged'')])"
    "put_owned demo_env (demo_assistant 7) = Inr True"
    "find_assistant (q_assistant demo_request) (s_assistants demo_queue) = Some (demo_assistant 7)"
    "put_found demo_request demo_queue = Some (new_thread 2 0 [] None)"
    by (simp_all add: put_auth_def put_owned_def demo_request_def demo_assistant_def find_assistant_def system_created_def
        put_found_def find_thread_def)
  from runs_put_existing [OF this(3,1,2,4)] Pair have ne: "s_runs s' \<noteq> s_runs demo_queue"
    by (auto simp: allowed_def insert_run_eq Let_def demo_request_def occupied_def set_thread_def new_thread_def)
  have "q_thread demo_request = None \<Longrightarrow> find_thread (e_uuid4 demo_env (s_fresh demo_queue)) (s_threads demo_queue) = None"
    by (simp add: demo_request_def)
  from run_put_inserts [OF Pair ne this] obtain x a t where x: "r = Inr (x # inflight_runs (r_thread x) (s_runs demo_queue))"
    "s_runs s' = s_runs demo_queue @ [x]" "find_assistant (q_assistant demo_request) (s_assistants demo_queue) = Some a"
    "run_ids_fixed demo_request a x"
    by blast
  have a: "a_id a = 7"
    using find_assistant_id [OF x(3)] by (simp add: demo_request_def)
  have "r_thread x = 2"
    using x(2) runs_put_existing [OF \<open>find_assistant _ _ = Some (demo_assistant 7)\<close> \<open>put_auth _ _ = _\<close> \<open>put_owned _ _ = _\<close> \<open>put_found _ _ = _\<close>] Pair
    by (auto simp: allowed_def insert_run_eq Let_def demo_request_def occupied_def set_thread_def)
  then show ?thesis
    using Pair x(1,4) a by (simp add: run_ids_fixed_def inflight_runs_def active_status_def)
qed

theorem cancel_interrupts_exactly_witness:
  "map run_view (s_runs (snd (runs_cancel demo_env \<lparr>k_run_ids = None, k_thread = None, k_status = Some ''pending'', k_assistant = None\<rparr>
      CancelInterrupt demo_queue))) =
   [(10, 1, RRunning), (11, 1, RInterrupted), (12, 2, RInterrupted), (13, 2, RInterrupted)]"
proof -
  let ?k = "\<lparr>k_run_ids = None, k_thread = None, k_status = Some ''pending'', k_assistant = None\<rparr>"
  obtain res s' where "runs_cancel demo_env ?k CancelInterrupt demo_queue = (res, s')" by force
  from cancel_interrupts_exactly [OF _ _ _ _ _ this, of "[RPending]"] this show ?thesis
    by (simp add: cancel_args_ok_def status_list_def is_run_match_def active_status_def)
qed

theorem cancel_idles_busy_thread_witness:
  "\<exists>s' t. cancel_run demo_env 1 11 demo_queue = (Inr (), s') \<and>
     find_thread 1 (s_threads s') = Some t \<and> t_status t = TIdle \<and> has_active_runs 1 (s_runs s')"
  using cancel_idles_busy_thread [of demo_queue demo_env 1 "demo_run 11 1 RPending 2" "demo_run 10 1 RRunning 1"]
  by (simp add: find_thread_def)


definition demo_stream :: stream where
  "demo_stream = new_stream (\<lambda>_. []) 0 (init_ids (\<lambda>_. 1))"

lemma demo_stream_simps [simp]: "\<not> sm_stopped demo_stream" "sm_pending_run_deletes demo_stream = []"
  by (simp_all add: demo_stream_def new_stream_def)

theorem enter_releases_deleted_witness:
  "run_absent (TKey 2) 1 (enter_end (@) 1 (Some 2) True (fst (enter_begin 1 (Some 2) demo_stream))
     (delete_run (@) 1 (Some 2) (snd (enter_begin 1 (Some 2) demo_stream))))"
  using enter_releases_deleted [of demo_stream "Some 2" 1 _ _ _ "[]" "(@)" True]
  by (cases "enter_begin 1 (Some 2) demo_stream") (simp add: thread_key_def)

text \<open>A worker has entered a run, and a cancellation was published to it.\<close>

definition demo_cancelled :: stream where
  "demo_cancelled = put_message 1 (Some 2) \<lparr>m_topic = ''run:control'', m_data = ''interrupt'', m_id = None\<rparr> False
     (snd (enter_begin 1 (Some 2) demo_stream))"

lemma demo_cancelled_simps:
  "\<not> sm_stopped demo_cancelled" "sm_pending_run_deletes demo_cancelled = []"
  "get_control_queues 1 (Some 2) demo_cancelled = [0]" "sm_next_queue demo_cancelled = 1"
  "map m_data (sm_heap demo_cancelled 0) = [''interrupt'']"
  by code_simp+


end
