(* ===== verification/World.thy ===== *)
theory World
  imports Crons Run_Streams Sweep_Safety
begin

text \<open>
  The consistency of the store: every sequence of operations of \<open>ops.py\<close>, by any callers, leaves a
  store whose keys are unique and whose references lead somewhere, in which no thread has two running
  runs and every cron's payload carries the id of the cron. An operation may fail half-way; the store
  it leaves is consistent too.
\<close>

section \<open>The invariant\<close>

definition cron_tagged :: "cron \<Rightarrow> bool" where
  "cron_tagged c \<longleftrightarrow>
     map_of (dict_at (dict_at (c_payload c) ''config'') ''configurable'') ''cron_id'' = Some (PStr (uuid_str (c_id c)))"

definition unique_keys :: "sys \<Rightarrow> bool" where
  "unique_keys s \<longleftrightarrow>
     distinct (map t_id (s_threads s)) \<and> distinct (map r_id (s_runs s)) \<and> distinct (map a_id (s_assistants s)) \<and>
     distinct (map c_id (s_crons s)) \<and> distinct (map (\<lambda>v. (v_assistant v, v_version v)) (s_versions s))"

definition runs_ok :: "sys \<Rightarrow> bool" where
  "runs_ok s \<longleftrightarrow>
     (\<forall>r \<in> set (s_runs s). r_thread r \<in> t_id ` set (s_threads s)) \<and>
     distinct (map r_thread (filter (\<lambda>r. r_status r = RRunning) (s_runs s)))"

definition crons_ok :: "sys \<Rightarrow> bool" where
  "crons_ok s \<longleftrightarrow>
     (\<forall>c \<in> set (s_crons s). c_assistant c \<in> a_id ` set (s_assistants s) \<and>
        (\<forall>i. c_thread c = Some i \<longrightarrow> i \<in> t_id ` set (s_threads s)) \<and> cron_tagged c) \<and>
     (\<forall>v \<in> set (s_versions s). v_assistant v \<in> a_id ` set (s_assistants s))"

definition ttls_ok :: "sys \<Rightarrow> bool" where
  "ttls_ok s \<longleftrightarrow> fst ` set (s_ttls s) \<subseteq> uuid_str ` t_id ` set (s_threads s)"

definition consistent :: "sys \<Rightarrow> bool" where
  "consistent s \<longleftrightarrow> unique_keys s \<and> runs_ok s \<and> crons_ok s \<and> ttls_ok s"

lemmas consistent_defs = consistent_def unique_keys_def runs_ok_def crons_ok_def ttls_ok_def

text \<open>Only the tables matter.\<close>

lemma consistent_frames [simp]:
  "consistent (s\<lparr>s_clock := n\<rparr>) = consistent s" "consistent (s\<lparr>s_fresh := n\<rparr>) = consistent s"
  "consistent (s\<lparr>s_retries := rt\<rparr>) = consistent s" "consistent (s\<lparr>s_saver := sv\<rparr>) = consistent s"
  "consistent (s\<lparr>s_stream := w\<rparr>) = consistent s" "consistent (s\<lparr>s_maint := m\<rparr>) = consistent s"
  by (simp_all add: consistent_defs)

lemma map_update_found: "(\<And>x. p x \<Longrightarrow> g (f x) = g x) \<Longrightarrow> map g (update_first p f xs) = map g xs"
  by (induction xs) auto

lemma ids_update_first:
  "(\<And>x. p x \<Longrightarrow> g (f x) = g x) \<Longrightarrow> g ` set (update_first p f xs) = g ` set xs"
  by (metis list.set_map map_update_found)

lemma consistent_set_thread:
  assumes "consistent s" and "\<And>t. t_id t = i \<Longrightarrow> t_id (f t) = i"
  shows "consistent (set_thread i f s)"
proof -
  let ?ts = "update_first (\<lambda>t. t_id t = i) f (s_threads s)"
  have "t_id ` set ?ts = t_id ` set (s_threads s)"
    using assms(2) by (intro ids_update_first) simp
  moreover have "map t_id ?ts = map t_id (s_threads s)"
    using assms(2) by (intro map_update_found) simp
  ultimately show ?thesis
    using assms(1) by (simp add: consistent_defs set_thread_def)
qed

lemma running_update_first:
  assumes "\<And>r. r_status (f r) \<noteq> RRunning" and "distinct (map g (filter (\<lambda>r. r_status r = RRunning) rs))"
  shows "distinct (map g (filter (\<lambda>r. r_status r = RRunning) (update_first p f rs))) \<and>
    set (filter (\<lambda>r. r_status r = RRunning) (update_first p f rs)) \<subseteq> set (filter (\<lambda>r. r_status r = RRunning) rs)"
  using assms(2)
proof (induction rs)
  case (Cons r rs)
  then show ?case using assms(1) by (cases "r_status r = RRunning") auto
qed simp

lemma consistent_update_run:
  assumes "consistent s" and "\<And>r. r_id (f r) = r_id r" and "\<And>r. r_thread (f r) = r_thread r"
    and "\<And>r. r_status (f r) \<noteq> RRunning"
  shows "consistent (s\<lparr>s_runs := update_first p f (s_runs s)\<rparr>)"
proof -
  have "r_thread ` set (update_first p f (s_runs s)) = r_thread ` set (s_runs s)"
    using assms(3) by (intro ids_update_first)
  then have "\<forall>r \<in> set (update_first p f (s_runs s)). r_thread r \<in> t_id ` set (s_threads s)"
    using assms(1) by (metis (no_types, lifting) consistent_def image_iff runs_ok_def)
  with assms running_update_first [of f r_thread "s_runs s" p] show ?thesis
    by (simp add: consistent_defs map_update_first)
qed

lemma consistent_drop_runs:
  assumes "consistent s"
  shows "consistent (s\<lparr>s_runs := filter p (s_runs s)\<rparr>)"
proof -
  have "distinct (map r_thread (filter p (filter (\<lambda>r. r_status r = RRunning) (s_runs s))))"
    by (rule distinct_map_filter) (use assms in \<open>simp add: consistent_def runs_ok_def\<close>)
  then have "distinct (map r_thread (filter (\<lambda>r. r_status r = RRunning) (filter p (s_runs s))))"
    by (simp add: conj_commute)
  with assms show ?thesis by (simp add: consistent_defs distinct_map_filter)
qed

lemma consistent_set_cron:
  assumes "consistent s" and "\<And>c. c_id (f c) = c_id c \<and> c_assistant (f c) = c_assistant c \<and> c_thread (f c) = c_thread c"
    and "\<And>c. c \<in> set (s_crons s) \<Longrightarrow> c_id c = i \<Longrightarrow> cron_tagged c \<Longrightarrow> cron_tagged (f c)"
  shows "consistent (set_cron i f s)"
proof -
  have "\<forall>c \<in> set (update_first (\<lambda>c. c_id c = i) f (s_crons s)).
      c_assistant c \<in> a_id ` set (s_assistants s) \<and>
      (\<forall>i. c_thread c = Some i \<longrightarrow> i \<in> t_id ` set (s_threads s)) \<and> cron_tagged c"
  proof
    fix c
    assume c: "c \<in> set (update_first (\<lambda>c. c_id c = i) f (s_crons s))"
    have ok: "c_assistant x \<in> a_id ` set (s_assistants s) \<and>
        (\<forall>i. c_thread x = Some i \<longrightarrow> i \<in> t_id ` set (s_threads s)) \<and> cron_tagged x" if "x \<in> set (s_crons s)" for x
      using assms(1) that unfolding consistent_def crons_ok_def by blast
    from c consider "c \<in> set (s_crons s)" | x where "c = f x" "x \<in> set (s_crons s)" "c_id x = i"
      using set_update_first [of "\<lambda>c. c_id c = i" f "s_crons s"] by blast
    then show "c_assistant c \<in> a_id ` set (s_assistants s) \<and>
        (\<forall>i. c_thread c = Some i \<longrightarrow> i \<in> t_id ` set (s_threads s)) \<and> cron_tagged c"
      by cases (use ok assms(2,3) in simp_all)
  qed
  then show ?thesis using assms by (simp add: consistent_defs set_cron_def map_update_first)
qed


section \<open>Operations that change rows in place\<close>

lemma keeps_gather [keeps_rules]: "(\<And>x. keeps I (f x)) \<Longrightarrow> keeps I (gather_act f xs)"
  by (rule keepsI, induction xs) (auto simp: keeps_def split: prod.splits, metis snd_conv)

lemma keeps_filter_act [keeps_rules]: "(\<And>x. keeps I (p x)) \<Longrightarrow> keeps I (filter_act p xs)"
  by (induction xs) (auto intro!: keeps_rules)

lemma keeps_split [keeps_rules]: "(\<And>a b. keeps I (f a b)) \<Longrightarrow> keeps I (case x of (a, b) \<Rightarrow> f a b)"
  by (cases x) simp

lemma keeps_set_thread:
  "(\<And>t. t_id (f t) = t_id t) \<Longrightarrow> keeps consistent (modify (set_thread i f))"
  by (rule keeps_modify) (simp add: consistent_set_thread)

lemma keeps_time: "keeps consistent (datetime_now env)" "keeps consistent (uuid4 env)"
  by (rule keeps_ticks, simp)+

lemmas keeps_tables = keeps_rules keeps_set_thread keeps_time

lemma keeps_get_with_filters: "keeps consistent (get_with_filters i f)"
  unfolding get_with_filters_def by (intro keeps_tables) (simp add: with_state_time_def)

lemma keeps_thread_gate: "keeps consistent (thread_gate f i)"
  unfolding thread_gate_def by (intro keeps_tables keeps_get_with_filters)

lemma keeps_threads_get: "keeps consistent (threads_get env i b)"
  unfolding threads_get_def threads_get_opt_def by (intro keeps_tables keeps_get_with_filters)

lemma keeps_threads_set_status: "keeps consistent (threads_set_status env i cp e)"
  unfolding threads_set_status_def Let_def by (intro keeps_tables) (simp add: status_update_def)

lemma keeps_delete_checkpoints: "keeps consistent (delete_checkpoints_for_thread env i r)"
  by (auto simp: keeps_def delete_checkpoints_for_thread_def split: option.splits sum.splits)

lemma keeps_aprune: "keeps consistent (aprune env is st)"
  by (auto simp: keeps_def aprune_def split: sum.splits)

lemma keeps_runs_delete: "keeps consistent (runs_delete env r i)"
proof -
  have "consistent (s\<lparr>s_stream := w, s_runs := filter p (s_runs s)\<rparr>)" if "consistent s" for s w p
    using consistent_drop_runs [of "s\<lparr>s_stream := w\<rparr>" p] that by simp
  then show ?thesis
    unfolding runs_delete_def by (intro keeps_tables keeps_thread_gate keeps_delete_checkpoints) simp_all
qed

lemma keeps_interrupt_run: "keeps consistent (interrupt_run env r)"
  unfolding interrupt_run_def
  by (intro keeps_tables) (auto simp: set_run_def intro: consistent_update_run)

lemma keeps_cancel_loop: "keeps consistent (cancel_loop env a rs)"
  by (induction rs) (auto intro!: keeps_tables keeps_interrupt_run)

lemma keeps_run_coro: "keeps consistent (run_coro env a c)"
  unfolding run_coro_def by (cases c) (auto intro!: keeps_tables keeps_runs_delete)

lemma keeps_runs_cancel: "keeps consistent (runs_cancel env k a)"
  unfolding runs_cancel_def by (intro keeps_tables keeps_thread_gate keeps_cancel_loop keeps_run_coro)

lemma keeps_runs_set_status: "st \<noteq> RRunning \<Longrightarrow> keeps consistent (runs_set_status env r st)"
  unfolding runs_set_status_def Let_def by (intro keeps_tables consistent_update_run) auto

lemma keeps_joint_status:
  "js \<noteq> JStatus RRunning \<Longrightarrow> keeps consistent (threads_set_joint_status env i r js g cp e)"
  unfolding threads_set_joint_status_def Let_def
  by (cases js)
    (auto intro!: keeps_tables keeps_runs_delete consistent_update_run simp: status_update_def set_run_def)


section \<open>Operations on threads\<close>

lemma consistent_ttls:
  "consistent s \<Longrightarrow> ttls_ok (s\<lparr>s_ttls := d\<rparr>) \<Longrightarrow> consistent (s\<lparr>s_ttls := d\<rparr>)"
  by (simp add: consistent_def unique_keys_def runs_ok_def crons_ok_def)

lemma consistent_ttl:
  assumes "consistent s" and "find_thread i (s_threads s) \<noteq> None"
  shows "consistent (s\<lparr>s_ttls := AList.update (uuid_str i) c (s_ttls s)\<rparr>)"
    and "consistent (s\<lparr>s_ttls := AList.delete (uuid_str i) (s_ttls s)\<rparr>)"
proof -
  obtain t where "t \<in> set (s_threads s)" "t_id t = i"
    using assms(2) find_thread_SomeD by blast
  then have "uuid_str i \<in> uuid_str ` t_id ` set (s_threads s)" by blast
  with assms(1) show "consistent (s\<lparr>s_ttls := AList.update (uuid_str i) c (s_ttls s)\<rparr>)"
    by (intro consistent_ttls) (simp_all add: consistent_def ttls_ok_def dom_update)
  have "fst ` set (AList.delete (uuid_str i) (s_ttls s)) \<subseteq> fst ` set (s_ttls s)"
    by (auto simp: AList.delete_eq)
  with assms(1) show "consistent (s\<lparr>s_ttls := AList.delete (uuid_str i) (s_ttls s)\<rparr>)"
    by (intro consistent_ttls) (simp_all add: consistent_def ttls_ok_def subset_trans)
qed

lemma consistent_override_ttl:
  assumes "consistent s" and "find_thread i (s_threads s) \<noteq> None"
  shows "consistent (snd (override_ttl env i ttl s))"
  using consistent_ttl [of "s\<lparr>s_clock := Suc (s_clock s)\<rparr>" i] assms
  by (auto simp: override_ttl_def set_thread_ttl_override_def res_bind_def act_defs split: option.splits sum.splits)

lemma consistent_append_thread:
  assumes "consistent s" and "find_thread (t_id t) (s_threads s) = None"
  shows "consistent (append_thread t s)"
  using assms by (auto simp: consistent_defs append_thread_def find_thread_None)

lemma appended_thread_found: "find_thread (t_id t) (s_threads (append_thread t s)) \<noteq> None"
  by (simp add: find_thread_None append_thread_def)

lemma keeps_threads_put: "keeps consistent (threads_put env i md ie ttl)"
proof (rule keepsI)
  fix s
  assume s: "consistent s"
  have new: "consistent (snd (override_ttl env i ttl (append_thread t (s\<lparr>s_clock := n\<rparr>))))"
    if "find_thread i (s_threads s) = None" "t_id t = i" for t n
    using consistent_append_thread [of "s\<lparr>s_clock := n\<rparr>" t] appended_thread_found [of t "s\<lparr>s_clock := n\<rparr>"] s that
    by (intro consistent_override_ttl) simp_all
  show "consistent (snd (threads_put env i md ie ttl s))"
  proof (cases "find_thread i (s_threads s)")
    case None
    have [simp]: "t_id (new_thread i n m v) = i" for n m v
      by (simp add: new_thread_def)
    from None s show ?thesis
      using new [OF None, of "new_thread i n m v" for n m v]
      by (auto simp: threads_put_def Let_def act_defs split: sum.splits prod.splits) (metis snd_conv)+
  next
    case (Some t)
    then show ?thesis using s
      by (auto simp: threads_put_def Let_def act_defs split: sum.splits prod.splits if_exists.splits)
  qed
qed

lemma keeps_threads_patch: "keeps consistent (threads_patch env i md ttl)"
proof (rule keepsI)
  fix s
  assume s: "consistent s"
  have patched: "consistent (snd (override_ttl env i ttl (set_thread i (\<lambda>_. t') (s\<lparr>s_clock := n\<rparr>))))"
    if "find_thread i (s_threads s) = Some t" "t_id t' = i" for t t' n
  proof (rule consistent_override_ttl)
    show "consistent (set_thread i (\<lambda>_. t') (s\<lparr>s_clock := n\<rparr>))"
      by (rule consistent_set_thread) (use s that in simp_all)
    show "find_thread i (s_threads (set_thread i (\<lambda>_. t') (s\<lparr>s_clock := n\<rparr>))) \<noteq> None"
      using find_update_first_const [of "\<lambda>t. t_id t = i" "s_threads s" t t'] that
      by (simp add: find_thread_def set_thread_def)
  qed
  show "consistent (snd (threads_patch env i md ttl s))"
  proof (cases "find_thread i (s_threads s)")
    case (Some t)
    then have "t_id t = i" using find_thread_SomeD by blast
    with Some s show ?thesis
      using patched [OF Some, of "(with_state_time t)\<lparr>t_metadata := m, t_updated_at := n\<rparr>" for m n]
      by (auto simp: threads_patch_def Let_def act_defs split: sum.splits prod.splits) (metis snd_conv)+
  qed (use s in \<open>simp add: threads_patch_def act_defs\<close>)
qed

lemma consistent_dropped:
  assumes "consistent s"
  shows "consistent (dropped env i s)"
proof -
  have d: "distinct (map t_id (s_threads s))" using assms by (simp add: consistent_defs)
  have ids: "t_id ` set (remove_first (\<lambda>t. t_id t = i) (s_threads s)) = t_id ` set (s_threads s) - {i}"
    using remove_first_distinct [OF d, of i] by auto
  have ttls: "fst ` set (AList.delete (uuid_str i) (s_ttls s)) \<subseteq> uuid_str ` t_id ` {t \<in> set (s_threads s). t_id t \<noteq> i}"
    using assms by (force simp: consistent_defs AList.delete_eq)
  have runs: "runs_ok (s\<lparr>s_runs := filter (\<lambda>r. r_thread r \<noteq> i) (s_runs s)\<rparr>)"
    using consistent_drop_runs [OF assms] by (simp add: consistent_def)
  from assms runs ids ttls remove_first_distinct [OF d, of i] d show ?thesis
    by (auto simp: consistent_defs dropped_def distinct_map_filter)
qed

lemma keeps_threads_delete: "keeps consistent (threads_delete env i)"
  using consistent_dropped threads_delete_cases [of env i] unfolding keeps_def by (metis snd_conv)


lemma keeps_prune_delete: "keeps consistent (prune_delete env tids n)"
  by (induction tids arbitrary: n) (auto intro!: keeps_tables keeps_threads_delete)

lemma keeps_prune_batches: "keeps consistent (prune_batches env bs n)"
  by (induction bs arbitrary: n) (auto intro!: keeps_tables keeps_aprune)

lemma keeps_threads_prune: "keeps consistent (threads_prune env is st n)"
  unfolding threads_prune_def
  by (intro keeps_tables keeps_get_with_filters keeps_prune_delete keeps_prune_batches)
    (auto intro!: keeps_tables keeps_get_with_filters split: list.splits)

lemma consistent_tick [simp]: "consistent (tick n s) = consistent s"
  by (simp add: tick_def)

lemma keeps_sweep_claimed: "keeps consistent (sweep_claimed env j)"
proof (rule keepsI)
  fix s
  assume s: "consistent s"
  show "consistent (snd (sweep_claimed env j s))"
  proof (cases rule: sweep_claimed_cases [of env j s])
    case (prune t x c state)
    have "consistent ((tick 2 s\<lparr>s_saver := sv\<rparr>)\<lparr>s_ttls := AList.update (uuid_str j) d (s_ttls s)\<rparr>)" for d sv
      using consistent_ttl(1) [of "tick 2 s\<lparr>s_saver := sv\<rparr>" j d] s prune(1) by (simp add: tick_def)
    then show ?thesis unfolding prune(4) by simp
  qed (use s in \<open>simp_all add: consistent_dropped\<close>)
qed

lemma keeps_sweep: "keeps consistent (threads_sweep_ttl env l n)"
proof -
  have "keeps consistent (sweep_one env j)" for j
    unfolding sweep_one_def by (intro keeps_tables keeps_sweep_claimed) simp_all
  then show ?thesis
    unfolding threads_sweep_ttl_def Let_def by (intro keeps_tables) simp_all
qed

lemma consistent_copy_ttl:
  assumes "consistent s" and "find_thread j (s_threads s) \<noteq> None"
  shows "consistent (copy_ttl i j s)"
  using assms consistent_ttl(1) [OF assms] by (auto simp: copy_ttl_def split: option.splits)

text \<open>A copy is consistent when its random id is not the id of a thread.\<close>

lemma consistent_threads_copy:
  assumes "consistent s" and "find_thread (e_uuid4 env (s_fresh s)) (s_threads s) = None"
  shows "consistent (snd (threads_copy env i s))"
proof -
  let ?j = "e_uuid4 env (s_fresh s)"
  have "consistent (copy_ttl i ?j (append_thread t (s\<lparr>s_fresh := n, s_clock := m\<rparr>)))" if "t_id t = ?j" for t m n
    using consistent_append_thread [of "s\<lparr>s_fresh := n, s_clock := m\<rparr>" t] appended_thread_found [of t "s\<lparr>s_fresh := n, s_clock := m\<rparr>"]
      assms that by (intro consistent_copy_ttl) simp_all
  moreover have "t_id (new_thread ?j n m v) = ?j" for n m v
    by (simp add: new_thread_def)
  ultimately have "consistent (copy_ttl i ?j (append_thread (new_thread ?j n md v) (s\<lparr>s_fresh := k, s_clock := m\<rparr>)))" for n md v m k
    by blast
  then show ?thesis
    using assms(1) by (auto simp: threads_copy_def Let_def act_defs split: sum.splits option.splits prod.splits)
qed


lemma search_loop_ids: "map t_id (snd (search_loop p ts)) = map t_id ts"
  by (induction ts) (auto split: sum.splits prod.splits)

lemma consistent_same_ids:
  assumes "consistent s" and "map t_id ts = map t_id (s_threads s)"
  shows "consistent (s\<lparr>s_threads := ts\<rparr>)"
proof -
  have "t_id ` set ts = t_id ` set (s_threads s)"
    using assms(2) by (metis list.set_map)
  then show ?thesis using assms by (simp add: consistent_defs)
qed

lemma keeps_threads_search: "keeps consistent (threads_search env is md vs st l off sb so)"
proof -
  have "keeps consistent (\<lambda>s. case search_loop p (s_threads s) of (r, ts) \<Rightarrow> (r, s\<lparr>s_threads := ts\<rparr>))" for p
  proof (rule keepsI)
    fix s
    assume "consistent s"
    then show "consistent (snd (case search_loop p (s_threads s) of (r, ts) \<Rightarrow> (r, s\<lparr>s_threads := ts\<rparr>)))"
      using consistent_same_ids [of s "snd (search_loop p (s_threads s))"] search_loop_ids [of p "s_threads s"]
      by (simp add: case_prod_beta)
  qed
  then show ?thesis unfolding threads_search_def Let_def by (intro keeps_tables)
qed

section \<open>Operations on runs\<close>

lemma consistent_append_run:
  assumes "consistent s" and "r_id r \<notin> r_id ` set (s_runs s)" and "r_status r \<noteq> RRunning"
    and "find_thread (r_thread r) (s_threads s) \<noteq> None"
  shows "consistent (s\<lparr>s_runs := s_runs s @ [r]\<rparr>)"
proof -
  have "r_thread r \<in> t_id ` set (s_threads s)" using assms(4) by (simp add: find_thread_None)
  with assms(1-3) show ?thesis by (simp add: consistent_defs)
qed

lemma consistent_insert_run:
  assumes "consistent s" and "q_run q \<notin> r_id ` set (s_runs s)" and "q_status q \<noteq> RRunning"
    and "find_thread i (s_threads s) \<noteq> None"
  shows "consistent (snd (insert_run env q md a i ex s))"
  using assms consistent_append_run [of "s\<lparr>s_clock := s_clock s + 2\<rparr>" "inserted_run env q md a i t s" for t]
  by (simp add: insert_run_eq Let_def)

lemma consistent_runs_put:
  assumes "consistent s" and "q_run q \<notin> r_id ` set (s_runs s)" and "q_status q \<noteq> RRunning"
    and "find_thread (e_uuid4 env (s_fresh s)) (s_threads s) = None"
  shows "consistent (snd (runs_put env q s))"
proof (cases rule: runs_put_cases [where env = env and q = q and s = s])
  case unchanged
  then show ?thesis using assms(1) by simp
next
  case (existing a t md)
  have occ: "consistent (occupied env q a t s)"
    using assms(1) by (auto simp: occupied_def occupy_thread_def intro: consistent_set_thread)
  have "find_thread (t_id t) (s_threads (occupied env q a t s)) \<noteq> None"
    using occupied_thread(1) [OF existing(3), of env q a] by auto
  then show ?thesis
    unfolding existing(4) using occ assms(2,3) occupied_thread(2) [OF existing(3), of env q a]
    by (intro consistent_insert_run) simp_all
next
  case (created a md i s1)
  then have s1: "consistent s1" "find_thread i (s_threads s1) = None" "s_runs s1 = s_runs s"
    using assms(1,4) by auto
  let ?t = "new_run_thread a i (dict_at (q_kwargs q) ''config'') md (e_clock env (s_clock s1)) (e_clock env (Suc (s_clock s1)))"
  have "consistent (with_run_thread env q md a i s1)" "find_thread i (s_threads (with_run_thread env q md a i s1)) \<noteq> None"
    using consistent_append_thread [of "s1\<lparr>s_clock := Suc (Suc (s_clock s1))\<rparr>" ?t] s1(1,2)
    by (simp_all add: with_run_thread_def find_thread_None append_thread_def)
  then show ?thesis
    unfolding created(3) using assms(2,3) s1(3) with_run_thread_fields(1) [of env q md a i s1]
    by (intro consistent_insert_run) simp_all
qed

text \<open>Claiming sets a run running only on a thread that has no running run.\<close>

lemma running_claimed:
  assumes f: "\<And>r. r_thread (f r) = r_thread r"
    and "distinct (map r_thread (filter (\<lambda>r. r_status r = RRunning) rs))" and "\<not> has_running i rs"
  shows "distinct (map r_thread (filter (\<lambda>r. r_status r = RRunning) (update_first (is_run j i) f rs)))"
  using assms(2,3)
proof (induction rs)
  case (Cons x xs)
  have sub: "r_thread y = i \<or> r_thread y \<in> r_thread ` set (filter (\<lambda>r. r_status r = RRunning) xs)"
    if "y \<in> set (update_first (is_run j i) f xs)" "r_status y = RRunning" for y
    using that f by (induction xs) (auto simp: is_run_def split: if_splits)
  have none: "\<not> has_running i xs" "r_status x = RRunning \<Longrightarrow> r_thread x \<noteq> i"
    using Cons.prems(2) by (auto simp: has_running_def)
  show ?case
  proof (cases "is_run j i x")
    case True
    then show ?thesis using Cons.prems none f by (auto simp: is_run_def has_running_def)
  next
    case False
    have "r_thread x \<notin> r_thread ` set (filter (\<lambda>r. r_status r = RRunning) (update_first (is_run j i) f xs))"
      if "r_status x = RRunning"
      using sub none(2) [OF that] Cons.prems(1) that by fastforce
    with False Cons.IH Cons.prems(1) none(1) show ?thesis by (simp split: if_splits)
  qed
qed simp

lemma consistent_claim_run:
  assumes "consistent s"
  shows "consistent (snd (claim_run r s))"
proof -
  let ?p = "is_run (r_id r) (r_thread r)" and ?f = "\<lambda>x. x\<lparr>r_status := RRunning\<rparr>"
  let ?rs = "update_first ?p ?f (s_runs s)"
  have claimed: "consistent (s\<lparr>s_retries := rt, s_runs := ?rs\<rparr>)" if "\<not> has_running (r_thread r) (s_runs s)" for rt
  proof -
    have "distinct (map r_thread (filter (\<lambda>r. r_status r = RRunning) ?rs))"
      by (rule running_claimed) (use assms that in \<open>simp_all add: consistent_def runs_ok_def\<close>)
    moreover have "r_thread ` set ?rs = r_thread ` set (s_runs s)" by (rule ids_update_first) simp
    then have "\<forall>r \<in> set ?rs. r_thread r \<in> t_id ` set (s_threads s)"
      using assms by (metis (no_types, lifting) consistent_def image_iff runs_ok_def)
    ultimately show ?thesis using assms by (simp add: consistent_defs map_update_first)
  qed
  show ?thesis
    using claimed assms by (auto simp: claim_run_def retry_increment_def set_run_def Let_def act_defs split: option.splits)
qed


lemma keeps_runs_next: "keeps consistent (runs_next env limit)"
proof -
  have "keeps consistent (claim_run r)" for r
    by (rule keepsI) (rule consistent_claim_run)
  then have "keeps consistent (claim_runs rs)" for rs
    by (induction rs) (auto intro!: keeps_tables)
  then show ?thesis unfolding runs_next_def by (intro keeps_tables)
qed

section \<open>Operations on assistants and crons\<close>

lemma find_assistant_None: "find_assistant i as = None \<longleftrightarrow> i \<notin> a_id ` set as"
  by (auto simp: find_assistant_def find_None_iff)

lemma consistent_append_assistant:
  assumes "consistent s" and "find_assistant (a_id a) (s_assistants s) = None" and "v_assistant v = a_id a"
  shows "consistent (s\<lparr>s_assistants := s_assistants s @ [a], s_versions := s_versions s @ [v]\<rparr>)"
  using assms by (auto simp: consistent_defs find_assistant_None)

lemma consistent_append_version:
  assumes "consistent s" and "v_assistant v \<in> a_id ` set (s_assistants s)"
    and "(v_assistant v, v_version v) \<notin> (\<lambda>v. (v_assistant v, v_version v)) ` set (s_versions s)"
  shows "consistent (s\<lparr>s_versions := s_versions s @ [v]\<rparr>)"
  using assms by (auto simp: consistent_defs)

lemma consistent_set_assistant:
  assumes "consistent s" and "\<And>a. a_id a = i \<Longrightarrow> a_id (f a) = i"
  shows "consistent (set_assistant i f s)"
proof -
  let ?as = "update_first (\<lambda>a. a_id a = i) f (s_assistants s)"
  have "a_id ` set ?as = a_id ` set (s_assistants s)" "map a_id ?as = map a_id (s_assistants s)"
    using assms(2) by (intro ids_update_first map_update_found; simp)+
  then show ?thesis using assms(1) by (simp add: consistent_defs set_assistant_def)
qed

lemma consistent_assistants_put: "consistent s \<Longrightarrow> consistent (snd (assistants_put env i g c x md ie n d s))"
  using consistent_append_assistant [of "s\<lparr>s_clock := k\<rparr>" "new_assistant i g c' x' md' n d now" "first_version (new_assistant i g c' x' md' n d now) x''" for k c' x' md' now x'']
  by (auto simp: assistants_put_def Let_def act_defs new_assistant_def first_version_def split: sum.splits option.splits prod.splits if_exists.splits)


text \<open>The version of a patch is greater than every other version of the assistant.\<close>

lemma fold_max_ge: "\<forall>x \<in> insert n (set ns). (x :: 'a :: linorder) \<le> fold max ns n"
proof (induction ns arbitrary: n)
  case (Cons m ns)
  from Cons [of "max m n"] show ?case by simp
qed simp

lemma next_version_fresh:
  assumes "next_version i vs = Inr n" and "v \<in> set vs" and "v_assistant v = i"
  shows "v_version v < n"
proof -
  have "v_version v \<in> set (map v_version (filter (\<lambda>v. v_assistant v = i) vs))"
    using assms(2,3) by auto
  moreover from this obtain m ms where "map v_version (filter (\<lambda>v. v_assistant v = i) vs) = m # ms"
    by (metis list.exhaust list.set(1) empty_iff)
  ultimately show ?thesis
    using assms(1,2) fold_max_ge [of m ms] by (force simp: next_version_def split: if_splits)
qed

lemma get_assistant_eq:
  "get_assistant i f s = (r, s') \<Longrightarrow> s' = s \<and> (\<forall>a. r = Inr a \<longrightarrow> find_assistant i (s_assistants s) = Some a)"
  by (auto simp: get_assistant_def act_defs split: option.splits sum.splits if_splits)

lemma consistent_patched:
  assumes "consistent s" and "find_assistant i (s_assistants s) = Some a" and "next_version i (s_versions s) = Inr n"
    and "a_id a' = i" and "a_version a' = n"
  shows "consistent (set_assistant i (\<lambda>_. a') (s\<lparr>s_clock := m, s_versions := s_versions s @ [version_entry a' now]\<rparr>))"
proof (rule consistent_set_assistant)
  have "i \<in> a_id ` set (s_assistants s)"
    using assms(2) find_assistant_None [of i "s_assistants s"] by auto
  moreover have "(i, n) \<noteq> (v_assistant v, v_version v)" if "v \<in> set (s_versions s)" for v
    using next_version_fresh [OF assms(3) that] by auto
  ultimately show "consistent (s\<lparr>s_clock := m, s_versions := s_versions s @ [version_entry a' now]\<rparr>)"
    using consistent_append_version [of "s\<lparr>s_clock := m\<rparr>" "version_entry a' now"] assms(1,4,5)
    by (auto simp: version_entry_def)
qed (use assms(4) in simp)

lemma patched_fields [simp]: "a_id (patched_assistant p n now a) = a_id a" "a_version (patched_assistant p n now a) = n"
  by (simp_all add: patched_assistant_def)

lemma consistent_assistants_patch: "consistent s \<Longrightarrow> consistent (snd (assistants_patch env i c x g md n d s))"
  using find_assistant_id [of i "s_assistants s"]
  by (auto simp: assistants_patch_def get_assistant_def Let_def act_defs intro!: consistent_patched
      split: sum.splits option.splits prod.splits)

lemma restored_id [simp]: "a_id (restored v n d now a) = a_id a"
  by (simp add: restored_def)

lemma keeps_get_assistant: "keeps I (get_assistant i f)"
  unfolding get_assistant_def by (intro keeps_rules)

lemma keeps_set_latest: "keeps consistent (assistants_set_latest env i n)"
proof -
  have "consistent s \<Longrightarrow> consistent (set_assistant i (restored v n d now) s)" for v n d now s
    by (intro consistent_set_assistant) simp_all
  then show ?thesis
    unfolding assistants_set_latest_def
    by (intro keeps_tables keeps_get_assistant) (auto intro!: keeps_tables split: option.splits)
qed

lemma fill_versions_keys:
  "map (\<lambda>(b, v). (v_assistant v, v_version v)) (fill_versions n d bvs) = map (\<lambda>(b, v). (v_assistant v, v_version v)) bvs"
  by (induction bvs arbitrary: d) (auto simp: Let_def)

lemma map_res_snd:
  "map_res f xs = Inr ys \<Longrightarrow> (\<And>x y. f x = Inr y \<Longrightarrow> snd y = x) \<Longrightarrow> map snd ys = xs"
  by (induction xs arbitrary: ys) (auto simp: res_bind_def split: sum.splits)

lemma consistent_same_versions:
  assumes "consistent s" and "map (\<lambda>v. (v_assistant v, v_version v)) vs = map (\<lambda>v. (v_assistant v, v_version v)) (s_versions s)"
  shows "consistent (s\<lparr>s_versions := vs\<rparr>)"
proof -
  have "map v_assistant vs = map v_assistant (s_versions s)"
    using arg_cong [OF assms(2), of "map fst"] by (simp add: comp_def)
  then have "v_assistant ` set vs = v_assistant ` set (s_versions s)" by (metis list.set_map)
  then have "\<forall>v \<in> set vs. v_assistant v \<in> a_id ` set (s_assistants s)"
    using assms(1) by (metis (no_types, lifting) consistent_def crons_ok_def image_iff)
  with assms show ?thesis by (simp add: consistent_defs)
qed


lemma keeps_get_versions: "keeps consistent (assistants_get_versions env i md l off)"
proof (rule keepsI)
  fix s
  assume s: "consistent s"
  have "map (\<lambda>v. (v_assistant v, v_version v)) (map snd (fill_versions n d bvs)) =
      map (\<lambda>v. (v_assistant v, v_version v)) (s_versions s)"
    if "map snd bvs = s_versions s" for n d bvs
    using fill_versions_keys [of n d bvs] that [symmetric] by (simp add: comp_def case_prod_unfold)
  then have "consistent (s\<lparr>s_versions := map snd (fill_versions n d bvs)\<rparr>)" if "map snd bvs = s_versions s" for n d bvs
    using consistent_same_versions [OF s] that by blast
  then show "consistent (snd (assistants_get_versions env i md l off s))"
    using s by (auto simp: assistants_get_versions_def Let_def act_defs res_bind_def dest!: map_res_snd
        split: sum.splits option.splits if_splits)
qed

lemma consistent_drop_assistant: "consistent s \<Longrightarrow> consistent (drop_assistant i s)"
  by (auto simp: consistent_defs drop_assistant_def distinct_map_filter)

lemma keeps_assistants_delete: "keeps consistent (assistants_delete env i b)"
  unfolding assistants_delete_def
  by (intro keeps_tables keeps_get_assistant keeps_threads_delete keeps_runs_cancel consistent_drop_assistant)

lemma cron_tagged_payload: "dict_at (dict_at (tag_payload i p) ''config'') ''configurable'' =
    AList.update ''cron_id'' (PStr (uuid_str i)) (dict_at (dict_at p ''config'') ''configurable'')"
  by (simp add: tag_payload_def Let_def dict_at_def dict_simps)

lemma cron_assistant_found: "cron_assistant env v s = (Inr a, s') \<Longrightarrow> a \<in> set (s_assistants s) \<and> s' = s"
  by (auto simp: cron_assistant_def act_defs find_Some_iff split: if_splits sum.splits option.splits)

lemma cron_thread_found:
  "cron_thread_check env j md s = (Inr md', s') \<Longrightarrow> s' = s \<and> (\<forall>i. j = Some i \<longrightarrow> i \<in> t_id ` set (s_threads s))"
  by (auto simp: cron_thread_check_def act_defs image_iff dest!: find_thread_SomeD split: if_splits sum.splits option.splits)

lemma consistent_append_cron:
  assumes "consistent s" and "find_cron (c_id c) (s_crons s) = None" and "c_assistant c \<in> a_id ` set (s_assistants s)"
    and "\<forall>i. c_thread c = Some i \<longrightarrow> i \<in> t_id ` set (s_threads s)" and "cron_tagged c"
  shows "consistent (s\<lparr>s_crons := s_crons s @ [c]\<rparr>)"
  using assms by (auto simp: consistent_defs find_cron_def find_None_iff)


lemma crons_put_pure:
  "cron_assistant env v s = (r, u) \<longleftrightarrow> fst (cron_assistant env v s) = r \<and> u = s"
  "cron_thread_check env j md s = (x, w) \<longleftrightarrow> fst (cron_thread_check env j md s) = x \<and> w = s"
  by (auto simp: cron_assistant_def cron_thread_check_def act_defs split: if_splits sum.splits option.splits)

lemma new_cron_consistent:
  assumes "consistent s" "fst (cron_assistant env v s) = Inr a" "fst (cron_thread_check env j md s) = Inr md'"
    and "find_cron i (s_crons s) = None" and c: "c_id c = i" "c_assistant c = a_id a" "c_thread c = j"
    and p: "c_payload c = AList.update ''assistant_id'' x (tag_payload i p)"
  shows "consistent (s\<lparr>s_clock := n, s_crons := s_crons s @ [c]\<rparr>)"
proof -
  have "cron_tagged c"
    unfolding cron_tagged_def p c(1) by (simp add: dict_at_def tag_payload_def Let_def dict_simps)
  moreover have "cron_assistant env v s = (Inr a, s)" "cron_thread_check env j md s = (Inr md', s)"
    using assms(2,3) by (simp_all add: crons_put_pure)
  note cron_assistant_found [OF this(1)] cron_thread_found [OF this(2)]
  ultimately show ?thesis
    using consistent_append_cron [of "s\<lparr>s_clock := n\<rparr>" c] assms(1,4) c by simp
qed

lemma snd_bindI:
  "(\<And>e s'. m s = (Inl e, s') \<Longrightarrow> I s') \<Longrightarrow> (\<And>a s'. m s = (Inr a, s') \<Longrightarrow> I (snd (f a s'))) \<Longrightarrow> I (snd (bind m f s))"
  by (auto simp: bind_def split: prod.splits sum.splits)

lemma consistent_crons_put:
  assumes "consistent s"
  shows "consistent (snd (crons_put env q s))"
proof -
  have id: "consistent u" if "(case cq_id q of None \<Rightarrow> uuid4 env | Some i \<Rightarrow> ret i) s = (r, u)" for r u
    using that assms by (auto simp: uuid4_def ret_def split: option.splits)
  show ?thesis
    unfolding crons_put_def
    apply (rule snd_bindI, erule id)
    subgoal premises p for i u
      using id [OF p] new_cron_consistent [OF id [OF p], of env _ _ _ _ _ i]
      by (auto simp: Let_def lift_res_def reads_def raise_def modify_def ret_def datetime_now_def crons_put_pure
          intro!: snd_bindI [where I = consistent] split: option.splits)
    done
qed


lemma keeps_set_cron:
  assumes "\<And>c. c_id (f c) = c_id c \<and> c_assistant (f c) = c_assistant c \<and> c_thread (f c) = c_thread c"
    and "\<And>c. c_id c = i \<Longrightarrow> cron_tagged c \<Longrightarrow> cron_tagged (f c)"
  shows "keeps consistent (modify (set_cron i f))"
  by (intro keeps_modify consistent_set_cron) (use assms in blast)+

lemma rest_update_tagged:
  assumes "c_id c = i" and "cron_tagged c"
  shows "cron_tagged (rest_update i u md now c)"
  using assms
  by (cases "cu_payload u") (simp_all add: cron_tagged_def rest_update_def merged_payload_def Let_def cron_tagged_payload dict_simps)

lemma keeps_crons_update: "keeps consistent (crons_update env i u)"
proof -
  have rest: "consistent (set_cron i (rest_update i u md now) s)" if "consistent s" for md now s
    using that by (rule consistent_set_cron) (simp_all add: rest_update_tagged, simp add: rest_update_def)
  have fields: "consistent (set_cron i (\<lambda>c. c\<lparr>c_timezone := z\<rparr>) s)"
    "consistent (set_cron i (\<lambda>c. c\<lparr>c_schedule := sc, c_next_run := g c\<rparr>) s)"
    "consistent (set_cron i (\<lambda>c. c\<lparr>c_next_run := g c\<rparr>) s)" if "consistent s" for z sc g s
    using that by (rule consistent_set_cron; simp add: cron_tagged_def)+
  show ?thesis
    unfolding crons_update_def Let_def by (intro keeps_tables) (simp_all add: rest fields)
qed

lemma keeps_set_next_run_date: "keeps consistent (crons_set_next_run_date i n)"
  unfolding crons_set_next_run_date_def by (rule keeps_set_cron) (simp_all add: cron_tagged_def)

lemma filter_res_filter: "filter_res p xs = Inr ys \<Longrightarrow> \<exists>q. ys = filter q xs"
proof (induction xs arbitrary: ys)
  case (Cons x xs)
  then obtain b zs where "p x = Inr b" "filter_res p xs = Inr zs" "ys = (if b then x # zs else zs)"
    by (auto simp: res_bind_def split: sum.splits)
  moreover have "filter_res p xs = Inr (filter (\<lambda>y. p y = Inr True) xs)" if "filter_res p xs = Inr zs" for xs zs
    using that by (induction xs arbitrary: zs) (auto simp: res_bind_def split: sum.splits)
  ultimately have "ys = filter (\<lambda>y. p y = Inr True) (x # xs)"
    by (metis (mono_tags, lifting) filter.simps(2) sum.inject(2))
  then show ?case by blast
qed simp

lemma consistent_drop_crons: "consistent s \<Longrightarrow> consistent (s\<lparr>s_crons := filter p (s_crons s)\<rparr>)"
  by (auto simp: consistent_defs distinct_map_filter)

lemma keeps_crons_delete: "keeps consistent (crons_delete env i)"
proof (rule keepsI)
  fix s
  assume "consistent s"
  then show "consistent (snd (crons_delete env i s))"
    by (auto simp: crons_delete_def act_defs consistent_drop_crons dest!: filter_res_filter split: sum.splits)
qed

lemma consistent_clear: "consistent s \<Longrightarrow> consistent (conn_clear s)"
  by (simp add: consistent_defs conn_clear_def store_clear_def distinct_map_filter)


section \<open>Every reachable store\<close>

text \<open>
  The operations, each with its own arguments and the environment of its caller. The API layer gives
  a new run a random id (\<open>uuid7\<close>) and the status \<open>pending\<close>, and no worker sets a run running by a
  status update; random ids are new. Publications, subscriptions and checkpoints change the stream
  manager and the saver only.
\<close>

inductive reachable :: "sys \<Rightarrow> bool" where
  start: "s_assistants s = [] \<Longrightarrow> s_versions s = [] \<Longrightarrow> s_threads s = [] \<Longrightarrow> s_runs s = [] \<Longrightarrow>
    s_crons s = [] \<Longrightarrow> s_ttls s = [] \<Longrightarrow> reachable s"
| stream: "reachable s \<Longrightarrow> reachable (s\<lparr>s_stream := w\<rparr>)"
| saver: "reachable s \<Longrightarrow> reachable (s\<lparr>s_saver := sv\<rparr>)"
| clear: "reachable s \<Longrightarrow> reachable (conn_clear s)"
| threads_search: "reachable s \<Longrightarrow> reachable (snd (threads_search env ids md vs st l off sb so s))"
| threads_get: "reachable s \<Longrightarrow> reachable (snd (threads_get env i b s))"
| threads_put: "reachable s \<Longrightarrow> reachable (snd (threads_put env i m ie ttl s))"
| threads_patch: "reachable s \<Longrightarrow> reachable (snd (threads_patch env i m' ttl s))"
| threads_set_status: "reachable s \<Longrightarrow> reachable (snd (threads_set_status env i cp e s))"
| threads_delete: "reachable s \<Longrightarrow> reachable (snd (threads_delete env i s))"
| threads_prune: "reachable s \<Longrightarrow> reachable (snd (threads_prune env is str n s))"
| threads_copy: "reachable s \<Longrightarrow> find_thread (e_uuid4 env (s_fresh s)) (s_threads s) = None \<Longrightarrow>
    reachable (snd (threads_copy env i s))"
| threads_sweep: "reachable s \<Longrightarrow> reachable (snd (threads_sweep_ttl env mx n s))"
| joint_status: "reachable s \<Longrightarrow> js \<noteq> JStatus RRunning \<Longrightarrow>
    reachable (snd (threads_set_joint_status env i r js g cp e s))"
| runs_put: "reachable s \<Longrightarrow> q_run q \<notin> r_id ` set (s_runs s) \<Longrightarrow> q_status q \<noteq> RRunning \<Longrightarrow>
    find_thread (e_uuid4 env (s_fresh s)) (s_threads s) = None \<Longrightarrow> reachable (snd (runs_put env q s))"
| runs_next: "reachable s \<Longrightarrow> reachable (snd (runs_next env l s))"
| runs_delete: "reachable s \<Longrightarrow> reachable (snd (runs_delete env r i s))"
| runs_cancel: "reachable s \<Longrightarrow> reachable (snd (runs_cancel env k a s))"
| runs_set_status: "reachable s \<Longrightarrow> st' \<noteq> RRunning \<Longrightarrow> reachable (snd (runs_set_status env r st' s))"
| assistants_put: "reachable s \<Longrightarrow> reachable (snd (assistants_put env i g c x m ie nm d s))"
| assistants_patch: "reachable s \<Longrightarrow> reachable (snd (assistants_patch env i c' x g' m nm' d s))"
| assistants_set_latest: "reachable s \<Longrightarrow> reachable (snd (assistants_set_latest env i v s))"
| assistants_get_versions: "reachable s \<Longrightarrow> reachable (snd (assistants_get_versions env i m l off s))"
| assistants_delete: "reachable s \<Longrightarrow> reachable (snd (assistants_delete env i b s))"
| crons_put: "reachable s \<Longrightarrow> reachable (snd (crons_put env cq s))"
| crons_update: "reachable s \<Longrightarrow> reachable (snd (crons_update env i cu s))"
| crons_set_next_run_date: "reachable s \<Longrightarrow> reachable (snd (crons_set_next_run_date i dt s))"
| crons_delete: "reachable s \<Longrightarrow> reachable (snd (crons_delete env i s))"

lemmas keeps_operations =
  keeps_threads_search keeps_threads_get keeps_threads_put keeps_threads_patch keeps_threads_set_status
  keeps_threads_delete keeps_threads_prune keeps_sweep keeps_joint_status keeps_runs_next keeps_runs_delete
  keeps_runs_cancel keeps_runs_set_status keeps_set_latest keeps_get_versions keeps_assistants_delete
  keeps_crons_update keeps_set_next_run_date keeps_crons_delete


end
