(* ===== verification/Assistant_Safety.thy ===== *)
theory Assistant_Safety
  imports World
begin

text \<open>
  Properties of assistants and crons: what the deletion of an assistant removes and stops, how far a
  patch can be undone, and what an update of a cron that is refused leaves behind.
\<close>

section \<open>Deleting an assistant\<close>

text \<open>What deleting threads and cancelling runs leave alone.\<close>

lemma keeps_deleteI:
  assumes "\<And>s. I s \<Longrightarrow> I (dropped env i s)"
  shows "keeps I (threads_delete env i)"
proof (rule keepsI)
  fix s
  assume "I s"
  then show "I (snd (threads_delete env i s))"
    using threads_delete_cases [of env i s] assms [of s] by auto
qed

lemma delete_threads_frame:
  "keeps (\<lambda>s. s_assistants s = as \<and> s_versions s = vs \<and> set (s_crons s) \<subseteq> cs \<and> distinct (map r_id (s_runs s)))
     (threads_delete env i)"
  by (rule keeps_deleteI) (auto simp: dropped_def distinct_map_filter)

text \<open>Tables and columns an interrupt does not write.\<close>

definition untouched :: "sys \<Rightarrow> sys \<Rightarrow> bool" where
  "untouched s s' \<longleftrightarrow>
     s_assistants s' = s_assistants s \<and> s_versions s' = s_versions s \<and> s_crons s' = s_crons s \<and>
     map t_id (s_threads s') = map t_id (s_threads s) \<and>
     map (\<lambda>r. (r_id r, r_assistant r)) (s_runs s') = map (\<lambda>r. (r_id r, r_assistant r)) (s_runs s)"

lemma untouched_fields [simp]:
  "untouched s (u\<lparr>s_clock := n\<rparr>) = untouched s u" "untouched s (u\<lparr>s_stream := w\<rparr>) = untouched s u"
  by (simp_all add: untouched_def)

lemma untouched_set_thread:
  "(\<And>t. t_id (f t) = t_id t) \<Longrightarrow> untouched s u \<Longrightarrow> untouched s (set_thread i f u)"
  by (simp add: untouched_def set_thread_def map_update_first)

lemma untouched_set_run:
  "(\<And>r. r_id (f r) = r_id r \<and> r_assistant (f r) = r_assistant r) \<Longrightarrow> untouched s u \<Longrightarrow> untouched s (set_run i t f u)"
  by (simp add: untouched_def set_run_def map_update_first)

lemma untouched_gate: "keeps (untouched s) (thread_gate f i)"
  unfolding thread_gate_def get_with_filters_def
  by (intro keeps_rules untouched_set_thread) simp_all

lemma untouched_interrupt: "keeps (untouched s) (interrupt_run env r)"
  unfolding interrupt_run_def by (intro keeps_rules untouched_set_thread untouched_set_run) simp_all

lemma untouched_loop: "keeps (untouched s) (cancel_loop env CancelInterrupt rs)"
  by (induction rs) (auto intro!: keeps_rules untouched_interrupt)

lemma untouched_puts: "keeps (untouched s) (gather_act (run_coro env a) (map PutControl rs))"
proof -
  have "keeps (untouched s) (gather_act (\<lambda>r. run_coro env a (PutControl r)) rs)"
    unfolding run_coro_def by (intro keeps_rules) (simp, intro keeps_rules, simp)
  moreover have "gather_act f (map g xs) = gather_act (\<lambda>x. f (g x)) xs" for f :: "coro \<Rightarrow> unit act" and g and xs :: "run list"
    by (induction xs) (auto simp: fun_eq_iff)
  ultimately show ?thesis by simp
qed

text \<open>The state after an interrupt of the runs of an assistant.\<close>

lemma cancel_assistant:
  assumes "distinct (map r_id (s_runs s))" and "auth_filters env AThreads AUpdate None = Inr None"
    and "runs_cancel env \<lparr>k_run_ids = None, k_thread = None, k_status = None, k_assistant = Some i\<rparr> CancelInterrupt s = (res, s')"
  shows "res = Inr () \<and> untouched s s' \<and>
    map run_view (s_runs s') = map (\<lambda>r. (r_id r, r_thread r,
      if r_assistant r = i \<and> active_status (r_status r) then RInterrupted else r_status r)) (s_runs s)"
proof -
  let ?cs = "filter (\<lambda>r. r_assistant r = i \<and> active_status (r_status r)) (s_runs s)"
  have as: "filter (\<lambda>r. active_status (r_status r)) ?cs = ?cs" by (simp add: conj_commute conj_left_commute)
  obtain s1 where loop: "cancel_loop env CancelInterrupt ?cs s = (Inr (map PutControl ?cs, ?cs), s1)"
    and s1: "map run_view (s_runs s1) = map (interrupt_view ?cs) (map run_view (s_runs s))"
    using cancel_loop_interrupt [OF assms(1), of env ?cs] unfolding as by blast
  obtain s2 where gather: "gather_act (run_coro env CancelInterrupt) (map PutControl ?cs) s1 = (Inr (map (\<lambda>_. ()) ?cs), s2)"
    and s2: "s_runs s2 = s_runs s1"
    using gather_put_control by blast
  have u: "untouched s s2"
    using keepsD [OF untouched_loop, of s s env ?cs] keepsD [OF untouched_puts, of s s1 env CancelInterrupt ?cs] loop gather
    by (simp add: untouched_def)
  have gate: "filter_act (\<lambda>r. ret True) xs s = (Inr xs, s)" for xs :: "run list"
    by (induction xs) (simp_all add: bind_def ret_def)
  have match: "is_run_match \<lparr>k_run_ids = None, k_thread = None, k_status = None, k_assistant = Some i\<rparr> [] =
      (\<lambda>r. r_assistant r = i \<and> active_status (r_status r))"
    by (rule ext) (simp add: is_run_match_def)
  have eq: "res = Inr () \<and> s' = (if ?cs = [] then s else s2)"
    using assms(2,3) loop gather
    by (auto simp: runs_cancel_def cancel_args_ok_def status_list_def match bind_def lift_res_def reads_def ret_def gate
        thread_gate_def split: if_splits)
  have "interrupt_view ?cs (run_view r) = (r_id r, r_thread r,
      if r_assistant r = i \<and> active_status (r_status r) then RInterrupted else r_status r)" if "r \<in> set (s_runs s)" for r
    using that assms(1) by (auto simp: interrupt_view_def run_view_def distinct_map inj_on_def)
  then have "map run_view (s_runs s') = map (\<lambda>r. (r_id r, r_thread r,
      if r_assistant r = i \<and> active_status (r_status r) then RInterrupted else r_status r)) (s_runs s)"
    using eq s1 s2 by (auto simp: run_view_def filter_empty_conv)
  then show ?thesis using eq u by (simp add: untouched_def)
qed


lemma interrupted_inactive:
  assumes "map run_view rs' = map (\<lambda>r. (r_id r, r_thread r, if r_assistant r = i \<and> active_status (r_status r) then RInterrupted else r_status r)) rs"
    and "map (\<lambda>r. (r_id r, r_assistant r)) rs' = map (\<lambda>r. (r_id r, r_assistant r)) rs"
    and "r \<in> set rs'" and "r_assistant r = i"
  shows "\<not> active_status (r_status r)"
proof -
  obtain k where k: "k < length rs'" "r = rs' ! k" using assms(3) by (auto simp: in_set_conv_nth)
  have "length rs' = length rs" using assms(1) map_eq_imp_length_eq by fastforce
  with k assms(4) show ?thesis
    using arg_cong [OF assms(1), of "\<lambda>xs. xs ! k"] arg_cong [OF assms(2), of "\<lambda>xs. xs ! k"]
    by (auto simp: run_view_def active_status_def split: if_splits)
qed



section \<open>Undoing a patch\<close>

lemma allowed_None [simp]: "allowed md None = Inr True"
  by (simp add: allowed_def)

lemma find_append_fresh: "find p xs = Some x \<Longrightarrow> find p (xs @ ys) = Some x"
  by (induction xs) auto

lemma patch_exec:
  assumes "assistants_patch env i config context graph_id metadata name description s = (Inr a1, s1)"
    and "find_assistant i (s_assistants s) = Some a"
  obtains p n now where "next_version i (s_versions s) = Inr n" "a1 = patched_assistant p n now a" "p_graph_id p = graph_id"
    "s_assistants s1 = update_first (\<lambda>a. a_id a = i) (\<lambda>_. a1) (s_assistants s)"
    "s_versions s1 = s_versions s @ [version_entry a1 now]"
  using assms
  by (auto simp: assistants_patch_def get_assistant_def Let_def set_assistant_def act_defs
      split: sum.splits option.splits prod.splits if_splits)

text \<open>C28: A patch creates the next version, and going back to the version before it restores the
  configuration, metadata, name, description and version number, but neither the graph nor the
  context: these stay those of the patch, although the row of the old version holds them.\<close>

theorem patch_undone_in_part:
  assumes "assistants_patch env i config context graph_id metadata name description s = (Inr a1, s1)"
    and "find_assistant i (s_assistants s) = Some a"
    and "find (\<lambda>v. v_assistant v = i \<and> v_version v = a_version a) (s_versions s) = Some v"
    and "v_config v = a_config a" and "v_metadata v = a_metadata a" and "v_name v = Some (a_name a)"
    and "v_description v = Some (a_description a)" and "auth_filters env' AAssistants AUpdate (Some i) = Inr None"
  shows "a_version a < a_version a1 \<and> find_assistant i (s_assistants s1) = Some a1 \<and>
    (\<exists>a2 s2. assistants_set_latest env' i (a_version a) s1 = (Inr a2, s2) \<and>
       find_assistant i (s_assistants s2) = Some a2 \<and>
       a_config a2 = a_config a \<and> a_metadata a2 = a_metadata a \<and> a_name a2 = a_name a \<and>
       a_description a2 = a_description a \<and> a_version a2 = a_version a \<and>
       a_graph_id a2 = a_graph_id a1 \<and> a_context a2 = a_context a1 \<and>
       (\<forall>g. graph_id = Some g \<longrightarrow> a_graph_id a1 = g))"
proof -
  obtain p n now where n: "next_version i (s_versions s) = Inr n" and a1: "a1 = patched_assistant p n now a" "p_graph_id p = graph_id"
    and s1: "s_assistants s1 = update_first (\<lambda>a. a_id a = i) (\<lambda>_. a1) (s_assistants s)"
    "s_versions s1 = s_versions s @ [version_entry a1 now]"
    using patch_exec [OF assms(1,2)] by blast
  have i: "a_id a = i" using find_assistant_id [OF assms(2)] .
  then have found: "find_assistant i (s_assistants s1) = Some a1"
    using find_update_first_const [of "\<lambda>a. a_id a = i" "s_assistants s" a a1] assms(2)
    by (simp add: s1 find_assistant_def a1)
  have v: "v \<in> set (s_versions s)" "v_assistant v = i" "v_version v = a_version a"
    using find_Some_iff_first [OF assms(3)] by simp_all
  then have "a_version a < a_version a1"
    using next_version_fresh [OF n v(1,2)] by (simp add: a1)
  moreover have "find (\<lambda>v. v_assistant v = i \<and> v_version v = a_version a) (s_versions s1) = Some v"
    using find_append_fresh [OF assms(3)] by (simp add: s1)
  then obtain now' s2 where "assistants_set_latest env' i (a_version a) s1 =
      (Inr (restored v (a_name a) (a_description a) now' a1), s2)"
    "s2 = set_assistant i (restored v (a_name a) (a_description a) now') (s1\<lparr>s_clock := Suc (s_clock s1)\<rparr>)"
    using assms(6-8) found by (auto simp: assistants_set_latest_def get_assistant_def act_defs)
  moreover have "find_assistant i (s_assistants (set_assistant i (restored w x d t) u)) =
      map_option (restored w x d t) (find_assistant i (s_assistants u))" for w x d t u
    unfolding find_assistant_def set_assistant_def by (simp add: find_update_first)
  moreover have "graph_id = Some g \<Longrightarrow> a_graph_id a1 = g" for g
    using a1 by (simp add: patched_assistant_def)
  ultimately show ?thesis
    using found assms(4,5) v(3) by (auto simp: restored_def)
qed

section \<open>Updating a cron\<close>

lemma find_cron_set:
  "(\<And>c. c_id (f c) = c_id c) \<Longrightarrow> find_cron i (s_crons (set_cron i f s)) = map_option f (find_cron i (s_crons s))"
  by (simp add: find_cron_def set_cron_def find_update_first)

text \<open>An update of a cron that gives a timezone and an invalid schedule is refused with 422 after
  it has taken part of its effect: the cron has the new timezone, while its schedule, its next date
  (computed for the old timezone) and all its other fields, and every other cron, are as before.\<close>

theorem cron_update_partial:
  assumes "handle_event env ACrons AUpdate (Some i) (case cu_metadata u of None \<Rightarrow> [] | Some m \<Rightarrow> m) = Inr (f, md)"
    and "find_cron i (s_crons s) = Some c" and "allowed (c_metadata c) f = Inr True"
    and "cu_timezone u = Some z" and "cu_schedule u = Some sched" and "\<not> e_cron_valid env sched"
  shows "\<exists>s'. crons_update env i u s = (Inl (HTTPException 422), s') \<and>
    find_cron i (s_crons s') = Some (c\<lparr>c_timezone := Some z\<rparr>) \<and>
    (\<forall>j. j \<noteq> i \<longrightarrow> find_cron j (s_crons s') = find_cron j (s_crons s))"
proof -
  let ?s = "set_cron i (\<lambda>c. c\<lparr>c_timezone := Some z\<rparr>) s"
  have "crons_update env i u s = (Inl (HTTPException 422), ?s)"
    using assms by (simp add: crons_update_def has_updates_def validate_cron_schedule_def Let_def act_defs)
  moreover have "find_cron j (s_crons ?s) = find_cron j (s_crons s)" if "j \<noteq> i" for j
    using that unfolding find_cron_def set_cron_def by (simp add: find_update_first_other)
  ultimately show ?thesis using assms(2) find_cron_set [of "\<lambda>c. c\<lparr>c_timezone := Some z\<rparr>"] by simp
qed


section \<open>Witnesses\<close>

definition demo_cron :: cron where
  "demo_cron = \<lparr>c_id = 20, c_assistant = 7, c_thread = None, c_user = None, c_end_time = None, c_schedule = ''daily'',
     c_timezone = None, c_payload = tag_payload 20 [], c_next_run = 60, c_metadata = [], c_on_run_completed = Some ''delete'',
     c_enabled = True, c_created_at = 0, c_updated_at = 0\<rparr>"

definition demo_crons :: sys where
  "demo_crons = demo_queue\<lparr>s_crons := [demo_cron], s_versions := [first_version (demo_assistant 7) []]\<rparr>"

definition demo_cron_update :: cron_update where
  "demo_cron_update = \<lparr>cu_schedule = Some [], cu_end_time = None, cu_clear_end_time = False, cu_enabled = None,
     cu_on_run_completed = None, cu_payload = None, cu_metadata = None, cu_timezone = Some ''CET''\<rparr>"

theorem cron_update_partial_witness:
  "\<exists>s'. crons_update demo_env 20 demo_cron_update demo_crons = (Inl (HTTPException 422), s') \<and>
    find_cron 20 (s_crons s') = Some (demo_cron\<lparr>c_timezone := Some ''CET''\<rparr>)"
  using cron_update_partial [of demo_env 20 demo_cron_update None "[]" demo_crons demo_cron "''CET''" "[]"]
  by (auto simp: demo_env_def demo_cron_update_def demo_crons_def demo_cron_def handle_event_def find_cron_def)


theorem patch_undone_in_part_witness:
  "\<exists>a1 s1 a2 s2. assistants_patch demo_env 7 None None (Some ''h'') None (Some ''m'') None demo_crons = (Inr a1, s1) \<and>
    assistants_set_latest demo_env 7 1 s1 = (Inr a2, s2) \<and> a_name a2 = ''n'' \<and> a_graph_id a2 = ''h''"
proof -
  obtain r s1 where r: "assistants_patch demo_env 7 None None (Some ''h'') None (Some ''m'') None demo_crons = (r, s1)" by force
  obtain a1 where a1: "r = Inr a1"
    using r by (auto simp: assistants_patch_def get_assistant_def handle_event_def Let_def act_defs demo_env_def sync_context_def
        demo_crons_def demo_assistant_def find_assistant_def next_version_def first_version_def dict_at_def)
  have "find_assistant 7 (s_assistants demo_crons) = Some (demo_assistant 7)"
    "find (\<lambda>v. v_assistant v = 7 \<and> v_version v = a_version (demo_assistant 7)) (s_versions demo_crons) =
       Some (first_version (demo_assistant 7) [])"
    by (simp_all add: demo_crons_def find_assistant_def demo_assistant_def first_version_def)
  from patch_undone_in_part [OF r [unfolded a1] this, of demo_env]
  show ?thesis
    using r a1 by (auto simp: first_version_def demo_env_def auth_filters_def handle_event_def res_bind_def demo_assistant_def)
qed

text \<open>A thread and a run on it, created in the empty store.\<close>

definition demo_run_request :: run_request where
  "demo_run_request = \<lparr>q_assistant = 7, q_kwargs = [], q_thread = Some 1, q_user = None, q_run = 30, q_status = RPending,
     q_metadata = None, q_prevent = False, q_multitask = MEnqueue, q_create = False, q_after_seconds = 0\<rparr>"


end
