(* ===== verification/Item_Store.thy ===== *)
theory Item_Store
  imports Thread_TTL Size_Tracking
begin

text \<open>
  The key-value store with expiring items (\<open>store.py\<close>, \<open>DiskBackedInMemStore\<close>): items and vectors by
  namespace and key, the expiry records beside them and the byte estimates. The base class
  \<open>InMemoryStore\<close> belongs to \<open>langgraph\<close>: how it applies puts is a parameter with a law, what it
  reads is an argument. The files are not modelled; loading is an argument of the constructor. The
  operation lock makes each of the operations one step.
\<close>

section \<open>State\<close>

type_synonym namespace = "string list"
type_synonym item_key = "namespace \<times> string"

record ttl_record =
  tr_expires_at :: int
  tr_minutes :: rat

record store_stats =
  ss_deleted_items :: nat
  ss_deleted_size_bytes :: int
  ss_total_before_bytes :: int

record ('i, 'v) item_store =
  is_data :: "(namespace, string, 'i) nested"
  is_vectors :: "(namespace, string, 'v) nested"
  is_ttl :: "(item_key \<times> ttl_record) list"
  is_sizes :: "item_key size_tracker"
  is_stats :: store_stats

text \<open>\<open>estimate_pickle_size((namespace, key, item, vectors))\<close>.\<close>

type_synonym ('i, 'v) estimate = "item_key \<Rightarrow> 'i option \<Rightarrow> 'v option \<Rightarrow> int"

definition estimate_item_size :: "('i, 'v) estimate \<Rightarrow> ('i, 'v) item_store \<Rightarrow> item_key \<Rightarrow> int" where
  "estimate_item_size est s k =
     est k (nested_get (is_data s) (fst k) (snd k)) (nested_get (is_vectors s) (fst k) (snd k))"

definition track_item_size :: "('i, 'v) estimate \<Rightarrow> item_key \<Rightarrow> ('i, 'v) item_store \<Rightarrow> ('i, 'v) item_store" where
  "track_item_size est k s =
     (if nested_get (is_data s) (fst k) (snd k) = None
      then s\<lparr>is_sizes := snd (tracker_remove k (is_sizes s))\<rparr>
      else s\<lparr>is_sizes := set_size k (estimate_item_size est s k) (is_sizes s)\<rparr>)"

definition item_keys :: "(namespace, string, 'i) nested \<Rightarrow> item_key list" where
  "item_keys data = concat (map (\<lambda>(ns, items). map (\<lambda>(key, _). (ns, key)) items) data)"

definition rebuild_store_sizes :: "('i, 'v) estimate \<Rightarrow> ('i, 'v) item_store \<Rightarrow> ('i, 'v) item_store" where
  "rebuild_store_sizes est s =
     fold (track_item_size est) (item_keys (is_data s)) (s\<lparr>is_sizes := tracker_clear (is_sizes s)\<rparr>)"

definition drop_orphaned_ttl_records :: "('i, 'v) item_store \<Rightarrow> ('i, 'v) item_store" where
  "drop_orphaned_ttl_records s =
     s\<lparr>is_ttl := filter (\<lambda>(k, _). nested_get (is_data s) (fst k) (snd k) \<noteq> None) (is_ttl s)\<rparr>"

text \<open>The constructor on what the files held.\<close>

definition store_init ::
  "('i, 'v) estimate \<Rightarrow> (namespace, string, 'i) nested \<Rightarrow> (namespace, string, 'v) nested
     \<Rightarrow> (item_key \<times> ttl_record) list \<Rightarrow> ('i, 'v) item_store" where
  "store_init est data vectors ttl =
     (let s = rebuild_store_sizes est (drop_orphaned_ttl_records
                \<lparr>is_data = data, is_vectors = vectors, is_ttl = ttl, is_sizes = new_size_tracker,
                 is_stats = \<lparr>ss_deleted_items = 0, ss_deleted_size_bytes = 0, ss_total_before_bytes = 0\<rparr>\<rparr>)
      in s\<lparr>is_stats := \<lparr>ss_deleted_items = 0, ss_deleted_size_bytes = 0,
                        ss_total_before_bytes = st_total_bytes (is_sizes s)\<rparr>\<rparr>)"

section \<open>Expiry records\<close>

text \<open>\<open>float(v)\<close> and \<open>now + timedelta(minutes=...)\<close>.\<close>

definition ttl_record_of :: "int \<Rightarrow> pyval \<Rightarrow> ttl_record res" where
  "ttl_record_of now v =
     res_bind (py_float v) (\<lambda>m.
       case m of
         Finite q \<Rightarrow> res_bind (add_minutes now q) (\<lambda>t. Inr \<lparr>tr_expires_at = t, tr_minutes = q\<rparr>)
       | Infinite \<Rightarrow> Inl OverflowError
       | NotANumber \<Rightarrow> Inl ValueError)"

definition refresh_ttl :: "int \<Rightarrow> item_key \<Rightarrow> ('i, 'v) item_store \<Rightarrow> unit res \<times> ('i, 'v) item_store" where
  "refresh_ttl now k s =
     (case map_of (is_ttl s) k of
        None \<Rightarrow> (Inr (), s)
      | Some r \<Rightarrow>
          (case ttl_record_of now (PFloat (tr_minutes r)) of
             Inl e \<Rightarrow> (Inl e, s)
           | Inr r' \<Rightarrow> (Inr (), s\<lparr>is_ttl := AList.update k r' (is_ttl s)\<rparr>)))"

fun refresh_all :: "int \<Rightarrow> item_key list \<Rightarrow> ('i, 'v) item_store \<Rightarrow> unit res \<times> ('i, 'v) item_store" where
  "refresh_all now [] s = (Inr (), s)"
| "refresh_all now (k # ks) s =
     (case refresh_ttl now k s of (Inl e, s') \<Rightarrow> (Inl e, s') | (Inr _, s') \<Rightarrow> refresh_all now ks s')"

text \<open>\<open>_prepare_ops\<close>: the reads the base class answered with an item and that ask for it refresh the
  item. \<open>_batch_search\<close>: so do the items of each search that asks for it.\<close>

datatype store_op = GetOp item_key bool | OtherOp

definition store_prepare_ops ::
  "int \<Rightarrow> (store_op \<times> bool) list \<Rightarrow> ('i, 'v) item_store \<Rightarrow> unit res \<times> ('i, 'v) item_store" where
  "store_prepare_ops now ops s =
     refresh_all now
       (concat (map (\<lambda>(op, is_item). case op of GetOp k refresh \<Rightarrow> if refresh \<and> is_item then [k] else [] | OtherOp \<Rightarrow> []) ops)) s"

definition store_batch_search ::
  "int \<Rightarrow> (bool \<times> item_key list) list \<Rightarrow> ('i, 'v) item_store \<Rightarrow> unit res \<times> ('i, 'v) item_store" where
  "store_batch_search now ops s = refresh_all now (concat (map (\<lambda>(refresh, ks). if refresh then ks else []) ops)) s"

section \<open>Writing\<close>

record 'x put_op =
  po_value :: "'x option"
  po_ttl :: "pyval option"

type_synonym ('i, 'v, 'x) base_apply =
  "(item_key \<times> 'x put_op) list \<Rightarrow> (namespace, string, 'i) nested \<times> (namespace, string, 'v) nested
     \<Rightarrow> (namespace, string, 'i) nested \<times> (namespace, string, 'v) nested"

fun ttl_updates :: "int \<Rightarrow> (item_key \<times> 'x put_op) list \<Rightarrow> (item_key \<times> ttl_record option) list res" where
  "ttl_updates now [] = Inr []"
| "ttl_updates now ((k, p) # ops) =
     res_bind (case (po_value p, po_ttl p) of
                 (Some _, Some v) \<Rightarrow> res_bind (ttl_record_of now v) (\<lambda>r. Inr (Some r))
               | _ \<Rightarrow> Inr None) (\<lambda>r.
     res_bind (ttl_updates now ops) (\<lambda>us. Inr ((k, r) # us)))"

definition set_ttl :: "item_key \<times> ttl_record option \<Rightarrow> (item_key \<times> ttl_record) list \<Rightarrow> (item_key \<times> ttl_record) list" where
  "set_ttl u d = (case u of (k, None) \<Rightarrow> AList.delete k d | (k, Some r) \<Rightarrow> AList.update k r d)"

text \<open>\<open>if not d.get(ns): d.pop(ns, None)\<close>.\<close>

definition drop_empty :: "'n \<Rightarrow> ('n \<times> 'e list) list \<Rightarrow> ('n \<times> 'e list) list" where
  "drop_empty ns d = (if dict_get d ns [] = [] then AList.delete ns d else d)"

definition drop_empty_buckets :: "namespace \<Rightarrow> ('i, 'v) item_store \<Rightarrow> ('i, 'v) item_store" where
  "drop_empty_buckets ns s = s\<lparr>is_data := drop_empty ns (is_data s), is_vectors := drop_empty ns (is_vectors s)\<rparr>"

definition apply_put_ops ::
  "('i, 'v) estimate \<Rightarrow> ('i, 'v, 'x) base_apply \<Rightarrow> int \<Rightarrow> (item_key \<times> 'x put_op) list \<Rightarrow> ('i, 'v) item_store
     \<Rightarrow> unit res \<times> ('i, 'v) item_store" where
  "apply_put_ops est base now ops s =
     (case ttl_updates now ops of
        Inl e \<Rightarrow> (Inl e, s)
      | Inr us \<Rightarrow>
          (case base ops (is_data s, is_vectors s) of (data, vectors) \<Rightarrow>
             (Inr (),
              fold (\<lambda>(k, _). drop_empty_buckets (fst k)) ops
                (fold (\<lambda>(k, _). track_item_size est k) ops
                  (s\<lparr>is_data := data, is_vectors := vectors, is_ttl := fold set_ttl us (is_ttl s)\<rparr>)))))"

section \<open>Sweeping\<close>

text \<open>\<open>d.get(ns)\<close>, then \<open>pop(key, None)\<close> on it.\<close>

definition pop_inner :: "'n \<Rightarrow> 'k \<Rightarrow> ('n, 'k, 'e) nested \<Rightarrow> ('n, 'k, 'e) nested" where
  "pop_inner ns key d = (case map_of d ns of None \<Rightarrow> d | Some i \<Rightarrow> AList.update ns (AList.delete key i) d)"

definition sweep_item :: "item_key \<Rightarrow> (nat \<times> int) \<times> ('i, 'v) item_store \<Rightarrow> (nat \<times> int) \<times> ('i, 'v) item_store" where
  "sweep_item k x =
     (case x of ((deleted, deleted_size), s) \<Rightarrow>
        let ns = fst k; key = snd k; (size, sizes) = tracker_remove k (is_sizes s);
            s' = s\<lparr>is_sizes := sizes, is_vectors := pop_inner ns key (is_vectors s), is_ttl := AList.delete k (is_ttl s)\<rparr>
        in if nested_get (is_data s) ns key \<noteq> None
           then ((Suc deleted, deleted_size + size), s'\<lparr>is_data := pop_inner ns key (is_data s)\<rparr>)
           else ((deleted, deleted_size), s'))"

definition store_sweep_ttl :: "int \<Rightarrow> ('i, 'v) item_store \<Rightarrow> nat \<times> ('i, 'v) item_store" where
  "store_sweep_ttl now s =
     (let total_before = st_total_bytes (is_sizes s);
          expired = map fst (filter (\<lambda>(_, r). tr_expires_at r \<le> now) (is_ttl s));
          ((deleted, deleted_size), s1) = fold sweep_item expired ((0, 0), s);
          s2 = fold drop_empty_buckets (remdups (map fst expired)) s1
      in (deleted, s2\<lparr>is_stats := \<lparr>ss_deleted_items = deleted, ss_deleted_size_bytes = deleted_size,
                                   ss_total_before_bytes = total_before\<rparr>\<rparr>))"

end
