(* ===== verification/Item_Store_Safety.thy ===== *)
theory Item_Store_Safety
  imports Item_Store
begin

text \<open>
  What holds of the item store along every sequence of its operations: expiry records belong to
  items, and the byte estimates are those of the items held; and what a sweep does.
\<close>

section \<open>The invariant\<close>

definition item_size :: "('i, 'v) estimate \<Rightarrow> ('i, 'v) item_store \<Rightarrow> item_key \<Rightarrow> int" where
  "item_size est s k = (if nested_get (is_data s) (fst k) (snd k) = None then 0 else max 0 (estimate_item_size est s k))"

definition sizes_ok :: "('i, 'v) estimate \<Rightarrow> ('i, 'v) item_store \<Rightarrow> bool" where
  "sizes_ok est s \<longleftrightarrow> tracker_ok (is_sizes s) \<and> (\<forall>k. tracked (is_sizes s) k = item_size est s k)"

definition ttl_ok :: "('i, 'v) item_store \<Rightarrow> bool" where
  "ttl_ok s \<longleftrightarrow> distinct (map fst (is_ttl s)) \<and>
     fst ` set (is_ttl s) \<subseteq> {k. nested_get (is_data s) (fst k) (snd k) \<noteq> None}"

definition item_store_ok :: "('i, 'v) estimate \<Rightarrow> ('i, 'v) item_store \<Rightarrow> bool" where
  "item_store_ok est s \<longleftrightarrow> sizes_ok est s \<and> ttl_ok s"

text \<open>What the base class promises of a batch of puts: it writes the named items, removes those put
  as \<open>None\<close>, and leaves the others.\<close>

definition base_apply_law :: "('i, 'v, 'x) base_apply \<Rightarrow> bool" where
  "base_apply_law base \<longleftrightarrow>
     (\<forall>ops d v ns k.
        (case map_of ops (ns, k) of
           None \<Rightarrow> nested_get (fst (base ops (d, v))) ns k = nested_get d ns k \<and>
                   nested_get (snd (base ops (d, v))) ns k = nested_get v ns k
         | Some p \<Rightarrow> (nested_get (fst (base ops (d, v))) ns k = None \<longleftrightarrow> po_value p = None)))"

inductive store_reachable :: "('i, 'v) estimate \<Rightarrow> ('i, 'v, 'x) base_apply \<Rightarrow> ('i, 'v) item_store \<Rightarrow> bool"
  for est :: "('i, 'v) estimate" and base :: "('i, 'v, 'x) base_apply" where
  init: "distinct (map fst ttl) \<Longrightarrow> store_reachable est base (store_init est data vectors ttl)"
| prepare: "store_reachable est base s \<Longrightarrow> store_reachable est base (snd (store_prepare_ops now ops s))"
| search: "store_reachable est base s \<Longrightarrow> store_reachable est base (snd (store_batch_search now res s))"
| put: "store_reachable est base s \<Longrightarrow> distinct (map fst puts) \<Longrightarrow>
    store_reachable est base (snd (apply_put_ops est base now puts s))"
| sweep: "store_reachable est base s \<Longrightarrow> store_reachable est base (snd (store_sweep_ttl now s))"

section \<open>Sizes\<close>

lemma tracker_remove_tracked: "fst (tracker_remove k t) = tracked t k"
  by (simp add: tracker_remove_def tracked_def Let_def)

lemma track_fields [simp]:
  "is_data (track_item_size est k s) = is_data s" "is_vectors (track_item_size est k s) = is_vectors s"
  "is_ttl (track_item_size est k s) = is_ttl s"
  by (simp_all add: track_item_size_def)

lemma track_sizes:
  assumes "tracker_ok (is_sizes s)"
  shows "tracker_ok (is_sizes (track_item_size est k s))"
    and "tracked (is_sizes (track_item_size est k s)) j = (if j = k then item_size est s k else tracked (is_sizes s) j)"
  using assms
  by (auto simp: track_item_size_def tracker_ok_set tracker_ok_remove tracked_set tracked_remove item_size_def)

lemma item_size_cong:
  "is_data s = is_data s' \<Longrightarrow> is_vectors s = is_vectors s' \<Longrightarrow> item_size est s = item_size est s'"
  by (rule ext) (simp add: item_size_def estimate_item_size_def)

lemma fold_track_fields [simp]:
  "is_data (fold (track_item_size est) ks s) = is_data s" "is_vectors (fold (track_item_size est) ks s) = is_vectors s"
  "is_ttl (fold (track_item_size est) ks s) = is_ttl s"
  by (induction ks arbitrary: s) simp_all

lemma fold_track:
  assumes "tracker_ok (is_sizes s)"
  shows "tracker_ok (is_sizes (fold (track_item_size est) ks s)) \<and>
    (\<forall>k. tracked (is_sizes (fold (track_item_size est) ks s)) k =
       (if k \<in> set ks then item_size est s k else tracked (is_sizes s) k))"
  using assms
proof (induction ks arbitrary: s)
  case (Cons k ks)
  have "item_size est (track_item_size est k s) = item_size est s"
    by (rule item_size_cong) simp_all
  with Cons.IH [OF track_sizes(1) [OF Cons.prems], of est k] show ?case
    by (auto simp: track_sizes(2) [OF Cons.prems])
qed simp

lemma item_keys_complete: "nested_get d ns k \<noteq> None \<Longrightarrow> (ns, k) \<in> set (item_keys d)"
  using nested_get_keys [of d ns k] by (fastforce simp: item_keys_def)

lemma rebuild_sizes_ok:
  "sizes_ok est (rebuild_store_sizes est s) \<and> is_data (rebuild_store_sizes est s) = is_data s \<and>
   is_vectors (rebuild_store_sizes est s) = is_vectors s \<and> is_ttl (rebuild_store_sizes est s) = is_ttl s"
proof -
  let ?s = "s\<lparr>is_sizes := tracker_clear (is_sizes s)\<rparr>"
  have r: "rebuild_store_sizes est s = fold (track_item_size est) (item_keys (is_data s)) ?s"
    by (simp add: rebuild_store_sizes_def)
  have zero: "tracked (tracker_clear t) k = 0" for t :: "item_key size_tracker" and k
    by (simp add: tracked_def tracker_clear_def dict_get_def)
  have "item_size est ?s k = 0" if "k \<notin> set (item_keys (is_data s))" for k
    using item_keys_complete [of "is_data s" "fst k" "snd k"] that by (auto simp: item_size_def)
  moreover have "item_size est (rebuild_store_sizes est s) = item_size est ?s"
    by (rule item_size_cong) (simp_all add: r)
  ultimately show ?thesis
    using fold_track [of ?s est "item_keys (is_data s)"] by (auto simp: sizes_ok_def tracker_ok_clear zero r)
qed

lemma store_init_ok:
  assumes "distinct (map fst ttl)"
  shows "item_store_ok est (store_init est data vectors ttl)"
proof -
  let ?s = "drop_orphaned_ttl_records \<lparr>is_data = data, is_vectors = vectors, is_ttl = ttl, is_sizes = new_size_tracker,
      is_stats = \<lparr>ss_deleted_items = 0, ss_deleted_size_bytes = 0, ss_total_before_bytes = 0\<rparr>\<rparr>"
  have "ttl_ok ?s"
    using assms by (auto simp: ttl_ok_def drop_orphaned_ttl_records_def distinct_map_filter)
  then show ?thesis
    using rebuild_sizes_ok [of est ?s]
    by (simp add: store_init_def Let_def item_store_ok_def ttl_ok_def sizes_ok_def item_size_def estimate_item_size_def)
qed

section \<open>Refreshing\<close>

lemma refresh_ok:
  assumes "item_store_ok est s"
  shows "item_store_ok est (snd (refresh_ttl now k s))"
proof (cases "map_of (is_ttl s) k")
  case (Some r)
  then have "k \<in> fst ` set (is_ttl s)" by (metis map_of_eq_None_iff option.distinct(1))
  then have "item_store_ok est (s\<lparr>is_ttl := AList.update k r' (is_ttl s)\<rparr>)" for r'
    using assms by (auto simp: item_store_ok_def ttl_ok_def sizes_ok_def item_size_def estimate_item_size_def distinct_update dom_update
        simp del: split_paired_All)
  with Some assms show ?thesis
    by (simp add: refresh_ttl_def split: sum.splits)
qed (use assms in \<open>simp add: refresh_ttl_def\<close>)

lemma refresh_all_ok: "item_store_ok est s \<Longrightarrow> item_store_ok est (snd (refresh_all now ks s))"
proof (induction ks arbitrary: s)
  case (Cons k ks)
  then show ?case
    using refresh_ok [OF Cons.prems, of now k] by (auto split: prod.splits sum.splits)
qed simp


section \<open>Writing\<close>

lemma nested_get_drop_empty [simp]: "nested_get (drop_empty ns d) n k = nested_get d n k"
  by (auto simp: drop_empty_def nested_get_def inner_def dict_simps dict_get_def split: option.splits)

lemma drop_buckets_ok: "item_store_ok est (drop_empty_buckets ns s) = item_store_ok est s"
  by (simp add: drop_empty_buckets_def item_store_ok_def ttl_ok_def sizes_ok_def item_size_def estimate_item_size_def)

lemma fold_drop_buckets_ok: "item_store_ok est (fold drop_empty_buckets nss s) = item_store_ok est s"
  by (induction nss arbitrary: s) (simp_all add: drop_buckets_ok)

lemma drop_puts_ok: "item_store_ok est (fold (\<lambda>(k, _). drop_empty_buckets (fst k)) puts s) = item_store_ok est s"
  by (induction puts arbitrary: s) (simp_all add: drop_buckets_ok case_prod_unfold)

lemma set_ttl_keys:
  "fst ` set (set_ttl (k, r) d) = (case r of None \<Rightarrow> fst ` set d - {k} | Some _ \<Rightarrow> insert k (fst ` set d))"
  by (auto simp: set_ttl_def dom_update AList.delete_eq split: option.splits)

lemma fold_set_ttl:
  assumes "distinct (map fst d)" and "distinct (map fst us)"
  shows "distinct (map fst (fold set_ttl us d)) \<and>
    fst ` set (fold set_ttl us d) =
      {k. case map_of us k of None \<Rightarrow> k \<in> fst ` set d | Some r \<Rightarrow> r \<noteq> None}"
  using assms
proof (induction us arbitrary: d)
  case (Cons u us)
  obtain k r where u: "u = (k, r)" by (cases u)
  have "distinct (map fst (set_ttl (k, r) d))"
    using Cons.prems(1) by (auto simp: set_ttl_def distinct_update distinct_delete split: option.splits)
  moreover have "map_of us k = None" using Cons.prems(2) by (simp add: u map_of_eq_None_iff)
  ultimately show ?case
    using Cons.IH [of "set_ttl (k, r) d"] Cons.prems(2) by (auto simp: u set_ttl_keys split: option.splits if_splits)
qed simp

lemma ttl_updates_map:
  "ttl_updates now ops = Inr us \<Longrightarrow> map fst us = map fst ops \<and>
   (\<forall>k. (\<exists>r. map_of us k = Some (Some r)) \<longrightarrow> (\<exists>p. map_of ops k = Some p \<and> po_value p \<noteq> None))"
proof (induction ops arbitrary: us)
  case (Cons x ops)
  obtain k p where x: "x = (k, p)" by (cases x)
  from Cons.prems obtain r vs where "ttl_updates now ops = Inr vs" "us = (k, r) # vs" "r \<noteq> None \<longrightarrow> po_value p \<noteq> None"
    by (auto simp: x res_bind_def split: sum.splits option.splits)
  with Cons.IH show ?case by (auto simp: x)
qed simp

lemma store_put_ok:
  fixes base :: "('i, 'v, 'x) base_apply"
  assumes law: "base_apply_law base" and ok: "item_store_ok est s" and d: "distinct (map fst puts)"
  shows "item_store_ok est (snd (apply_put_ops est base now puts s))"
proof (cases "ttl_updates now puts")
  case (Inr us)
  obtain data vectors where b: "base puts (is_data s, is_vectors s) = (data, vectors)" by force
  let ?s = "s\<lparr>is_data := data, is_vectors := vectors, is_ttl := fold set_ttl us (is_ttl s)\<rparr>"
  let ?t = "fold (track_item_size est) (map fst puts) ?s"
  have law': "case map_of puts k of
      None \<Rightarrow> nested_get data (fst k) (snd k) = nested_get (is_data s) (fst k) (snd k) \<and>
              nested_get vectors (fst k) (snd k) = nested_get (is_vectors s) (fst k) (snd k)
    | Some p \<Rightarrow> (nested_get data (fst k) (snd k) = None \<longleftrightarrow> po_value p = None)" for k
    using law b unfolding base_apply_law_def by (metis fst_conv snd_conv prod.collapse)
  have us: "distinct (map fst us)" "set (map fst us) = set (map fst puts)"
    using ttl_updates_map [OF Inr] d by simp_all
  then have none: "map_of us k = None \<longleftrightarrow> map_of puts k = None" for k
    by (simp add: map_of_eq_None_iff)
  have old: "distinct (map fst (is_ttl s))" "fst ` set (is_ttl s) \<subseteq> {k. nested_get (is_data s) (fst k) (snd k) \<noteq> None}"
    using ok by (simp_all add: item_store_ok_def ttl_ok_def)
  note new = fold_set_ttl [OF old(1) us(1)]
  have "nested_get data (fst k) (snd k) \<noteq> None" if "k \<in> fst ` set (fold set_ttl us (is_ttl s))" for k
  proof (cases "map_of us k")
    case None
    then have "map_of puts k = None" by (simp only: none)
    moreover have "k \<in> fst ` set (is_ttl s)" using that None conjunct2 [OF new] by simp
    ultimately show ?thesis using law' [of k] old(2) by (auto simp del: split_paired_All)
  next
    case (Some r)
    then have "\<exists>x. map_of us k = Some (Some x)" using that new by auto
    then obtain p where "map_of puts k = Some p" "po_value p \<noteq> None" using ttl_updates_map [OF Inr] by blast
    then show ?thesis using law' [of k] by simp
  qed
  then have ttl: "ttl_ok ?s" using new by (auto simp: ttl_ok_def simp del: split_paired_All)
  have "item_size est ?s k = tracked (is_sizes s) k" if "k \<notin> set (map fst puts)" for k
  proof -
    have "map_of puts k = None" using that by (simp add: map_of_eq_None_iff)
    then have "item_size est ?s k = item_size est s k"
      using law' [of k] by (simp add: item_size_def estimate_item_size_def)
    then show ?thesis using ok by (simp add: item_store_ok_def sizes_ok_def del: split_paired_All)
  qed
  moreover have "item_size est ?t = item_size est ?s" by (rule item_size_cong) simp_all
  ultimately have "sizes_ok est ?t"
    using fold_track [of ?s est "map fst puts"] ok by (simp add: sizes_ok_def item_store_ok_def)
  with ttl have t: "item_store_ok est ?t" by (simp add: item_store_ok_def ttl_ok_def)
  have "snd (apply_put_ops est base now puts s) = fold (\<lambda>(k, _). drop_empty_buckets (fst k)) puts
      (fold (\<lambda>(k, _). track_item_size est k) puts ?s)"
    using Inr b by (simp add: apply_put_ops_def)
  also have "fold (\<lambda>(k, _). track_item_size est k) puts ?s = ?t"
    by (simp add: fold_map comp_def case_prod_unfold)
  finally show ?thesis using t by (simp only: drop_puts_ok)
qed (use ok in \<open>simp add: apply_put_ops_def\<close>)


section \<open>Sweeping\<close>

lemma nested_get_pop_inner: "nested_get (pop_inner ns k d) n j = (if n = ns \<and> j = k then None else nested_get d n j)"
  by (auto simp: pop_inner_def nested_get_def inner_def dict_simps dict_get_def split: option.splits)

definition without :: "item_key set \<Rightarrow> ('i, 'v) item_store \<Rightarrow> ('i, 'v) item_store \<Rightarrow> bool" where
  "without ks s s' \<longleftrightarrow>
     (\<forall>k. nested_get (is_data s') (fst k) (snd k) = (if k \<in> ks then None else nested_get (is_data s) (fst k) (snd k))) \<and>
     (\<forall>k. nested_get (is_vectors s') (fst k) (snd k) = (if k \<in> ks then None else nested_get (is_vectors s) (fst k) (snd k))) \<and>
     (\<forall>k. map_of (is_ttl s') k = (if k \<in> ks then None else map_of (is_ttl s) k))"

lemma sweep_item_effect:
  assumes "item_store_ok est s" and "k \<in> fst ` set (is_ttl s)"
  shows "\<exists>s'. sweep_item k ((n, b), s) = ((Suc n, b + tracked (is_sizes s) k), s') \<and>
    item_store_ok est s' \<and> without {k} s s' \<and> fst ` set (is_ttl s') = fst ` set (is_ttl s) - {k} \<and>
    st_total_bytes (is_sizes s') = st_total_bytes (is_sizes s) - tracked (is_sizes s) k"
proof -
  have "nested_get (is_data s) (fst k) (snd k) \<noteq> None"
    using assms(1,2) by (auto simp: item_store_ok_def ttl_ok_def simp del: split_paired_All)
  then have step: "sweep_item k ((n, b), s) = ((Suc n, b + tracked (is_sizes s) k),
      s\<lparr>is_sizes := snd (tracker_remove k (is_sizes s)), is_vectors := pop_inner (fst k) (snd k) (is_vectors s),
        is_ttl := AList.delete k (is_ttl s), is_data := pop_inner (fst k) (snd k) (is_data s)\<rparr>)" (is "_ = (_, ?s)")
    by (simp add: sweep_item_def Let_def case_prod_unfold tracker_remove_tracked)
  define s' where s': "s' = ?s"
  have eq: "k' = k \<longleftrightarrow> fst k' = fst k \<and> snd k' = snd k" for k' :: item_key by (simp add: prod_eq_iff)
  have w: "without {k} s s'" by (auto simp: without_def s' nested_get_pop_inner dict_simps eq simp del: split_paired_All)
  have keys: "fst ` set (is_ttl s') = fst ` set (is_ttl s) - {k}"
    by (auto simp: s' AList.delete_eq)
  have "item_size est s' j = (if j = k then 0 else item_size est s j)" for j
    by (auto simp: item_size_def estimate_item_size_def s' nested_get_pop_inner eq)
  then have "sizes_ok est s'"
    using assms(1) by (simp add: sizes_ok_def item_store_ok_def s' tracker_ok_remove tracked_remove del: split_paired_All)
  moreover have "ttl_ok s'"
    using assms(1) w keys by (auto simp: ttl_ok_def item_store_ok_def without_def s' distinct_delete simp del: split_paired_All)
  moreover have "st_total_bytes (is_sizes s') = st_total_bytes (is_sizes s) - tracked (is_sizes s) k"
    by (simp add: s' tracker_remove_def tracked_def Let_def)
  ultimately show ?thesis using w keys step by (auto simp: item_store_ok_def s' [symmetric])
qed


lemma fold_sweep:
  assumes "item_store_ok est s" and "set ks \<subseteq> fst ` set (is_ttl s)" and "distinct ks"
  shows "\<exists>s' m. fold sweep_item ks ((n, b), s) = ((n + length ks, b + m), s') \<and> item_store_ok est s' \<and> without (set ks) s s' \<and>
    st_total_bytes (is_sizes s') = st_total_bytes (is_sizes s) - m"
  using assms
proof (induction ks arbitrary: s n b)
  case Nil
  then show ?case by (auto simp: without_def)
next
  case (Cons k ks)
  then obtain s1 where s1: "sweep_item k ((n, b), s) = ((Suc n, b + tracked (is_sizes s) k), s1)" "item_store_ok est s1"
    "without {k} s s1" "fst ` set (is_ttl s1) = fst ` set (is_ttl s) - {k}"
    "st_total_bytes (is_sizes s1) = st_total_bytes (is_sizes s) - tracked (is_sizes s) k"
    using sweep_item_effect [OF Cons.prems(1), of k n b] by auto
  have "set ks \<subseteq> fst ` set (is_ttl s1)" using Cons.prems(2,3) s1(4) by auto
  then obtain s2 m where s2: "fold sweep_item ks ((Suc n, b + tracked (is_sizes s) k), s1) =
      ((Suc n + length ks, b + tracked (is_sizes s) k + m), s2)" "item_store_ok est s2" "without (set ks) s1 s2"
    "st_total_bytes (is_sizes s2) = st_total_bytes (is_sizes s1) - m"
    using Cons.IH [OF s1(2), of "Suc n" "b + tracked (is_sizes s) k"] Cons.prems(3) by auto
  have "without (set (k # ks)) s s2"
    using s1(3) s2(3) by (simp add: without_def del: split_paired_All)
  with s1 s2 show ?case
    by (intro exI [of _ s2] exI [of _ "tracked (is_sizes s) k + m"]) simp
qed

lemma without_drop_buckets: "without ks s (fold drop_empty_buckets nss s') = without ks s s'"
  by (induction nss arbitrary: s') (simp_all add: without_def drop_empty_buckets_def del: split_paired_All)

lemma drop_buckets_sizes: "is_sizes (fold drop_empty_buckets nss s) = is_sizes s"
  by (induction nss arbitrary: s) (simp_all add: drop_empty_buckets_def)

lemma sweep_effect:
  assumes "item_store_ok est s" and "store_sweep_ttl now s = (n, s')"
  defines "expired \<equiv> {k. \<exists>r. map_of (is_ttl s) k = Some r \<and> tr_expires_at r \<le> now}"
  shows "item_store_ok est s'" and "without expired s s'" and "n = card expired" and "ss_deleted_items (is_stats s') = n"
    and "ss_deleted_size_bytes (is_stats s') = st_total_bytes (is_sizes s) - st_total_bytes (is_sizes s')"
proof -
  let ?ks = "map fst (filter (\<lambda>(_, r). tr_expires_at r \<le> now) (is_ttl s))"
  have d: "distinct (map fst (is_ttl s))" using assms(1) by (simp add: item_store_ok_def ttl_ok_def)
  then have ks: "set ?ks = expired" "distinct ?ks" "set ?ks \<subseteq> fst ` set (is_ttl s)"
    by (force simp: expired_def distinct_map_filter simp del: split_paired_Ex split_paired_All)+
  obtain s1 m where f: "fold sweep_item ?ks ((0, 0), s) = ((length ?ks, m), s1)" "item_store_ok est s1" "without (set ?ks) s s1"
    "st_total_bytes (is_sizes s1) = st_total_bytes (is_sizes s) - m"
    using fold_sweep [OF assms(1) ks(3,2), of 0 0] by auto
  let ?s2 = "fold drop_empty_buckets (remdups (map fst ?ks)) s1"
  have s': "n = length ?ks" "s' = ?s2\<lparr>is_stats := \<lparr>ss_deleted_items = n, ss_deleted_size_bytes = m,
      ss_total_before_bytes = st_total_bytes (is_sizes s)\<rparr>\<rparr>"
    using assms(2) f(1) by (auto simp: store_sweep_ttl_def Let_def)
  have "item_store_ok est ?s2" "without (set ?ks) s ?s2" using f(2,3) by (simp_all add: fold_drop_buckets_ok without_drop_buckets)
  then show "item_store_ok est s'" "without expired s s'"
    unfolding s'(2) ks(1) [symmetric]
    by (simp_all add: item_store_ok_def ttl_ok_def sizes_ok_def item_size_def estimate_item_size_def without_def del: split_paired_All)
  show "n = card expired" using s'(1) ks(1,2) distinct_card by metis
  show "ss_deleted_items (is_stats s') = n" "ss_deleted_size_bytes (is_stats s') = st_total_bytes (is_sizes s) - st_total_bytes (is_sizes s')"
    using f(4) by (simp_all add: s'(2) drop_buckets_sizes)
qed


lemma store_reachable_ok:
  assumes "base_apply_law base" and "store_reachable est base s"
  shows "item_store_ok est s"
  using assms(2)
proof induction
  case (init ttl data vectors)
  then show ?case by (rule store_init_ok)
next
  case (prepare s now ops)
  from prepare.IH show ?case unfolding store_prepare_ops_def by (rule refresh_all_ok)
next
  case (search s now res)
  from search.IH show ?case unfolding store_batch_search_def by (rule refresh_all_ok)
next
  case (put s puts now)
  from assms(1) put.IH put.hyps(2) show ?case by (rule store_put_ok)
next
  case (sweep s now)
  obtain n s' where "store_sweep_ttl now s = (n, s')" by (cases "store_sweep_ttl now s")
  then show ?case using sweep_effect(1) [OF sweep.IH, of now n s'] by simp
qed

text \<open>C29: After any sequence of reads, searches, writes and sweeps, a sweep of the store removes
  exactly the items whose time has come, with their vectors and expiry records, and reports their
  number and the bytes they took; and the byte total it leaves is the sum of the estimates of the
  items that remain.\<close>

theorem store_sweep_exact:
  assumes "base_apply_law base" and "store_reachable est base s" and "store_sweep_ttl now s = (n, s')"
  defines "expired \<equiv> {k. \<exists>r. map_of (is_ttl s) k = Some r \<and> tr_expires_at r \<le> now}"
  shows "(\<forall>k. nested_get (is_data s') (fst k) (snd k) = (if k \<in> expired then None else nested_get (is_data s) (fst k) (snd k)))
    \<and> (\<forall>k. nested_get (is_vectors s') (fst k) (snd k) = (if k \<in> expired then None else nested_get (is_vectors s) (fst k) (snd k)))
    \<and> (\<forall>k. map_of (is_ttl s') k = (if k \<in> expired then None else map_of (is_ttl s) k))
    \<and> n = card expired \<and> ss_deleted_items (is_stats s') = n
    \<and> ss_deleted_size_bytes (is_stats s') = st_total_bytes (is_sizes s) - st_total_bytes (is_sizes s')
    \<and> st_total_bytes (is_sizes s') = (\<Sum>k \<in> set (item_keys (is_data s')). item_size est s' k)"
proof -
  note e = sweep_effect [OF store_reachable_ok [OF assms(1,2)] assms(3), folded expired_def]
  have ok: "tracker_ok (is_sizes s')" "tracked (is_sizes s') k = item_size est s' k" for k
    using e(1) unfolding item_store_ok_def sizes_ok_def by blast+
  have "st_total_bytes (is_sizes s') = (\<Sum>k \<in> set (item_keys (is_data s')). tracked (is_sizes s') k)"
  proof (rule tracker.total_over [OF ok(1)])
    fix k
    assume "tracked (is_sizes s') k \<noteq> 0"
    then have "nested_get (is_data s') (fst k) (snd k) \<noteq> None" by (simp add: ok(2) item_size_def split: if_splits)
    then show "k \<in> set (item_keys (is_data s'))" using item_keys_complete by fastforce
  qed simp
  then have total: "st_total_bytes (is_sizes s') = (\<Sum>k \<in> set (item_keys (is_data s')). item_size est s' k)"
    by (simp only: ok(2))
  from e(2) show ?thesis unfolding without_def using e(3-5) total by blast
qed

definition demo_est :: "(string, string) estimate" where
  "demo_est k i v = int (length (snd k)) + (case i of None \<Rightarrow> 0 | Some x \<Rightarrow> int (length x))"

definition demo_base :: "(string, string, string) base_apply" where
  "demo_base ops x =
     (fold (\<lambda>(k, p) d. case po_value p of None \<Rightarrow> pop_inner (fst k) (snd k) d | Some v \<Rightarrow> nested_put d (fst k) (snd k) v) (rev ops) (fst x),
      snd x)"

lemma demo_base_law: "base_apply_law demo_base"
proof -
  have data: "case map_of ops (ns, k) of
      None \<Rightarrow> nested_get (fst (demo_base ops (d, v))) ns k = nested_get d ns k
    | Some p \<Rightarrow> (nested_get (fst (demo_base ops (d, v))) ns k = None \<longleftrightarrow> po_value p = None)" for ops d v ns k
    unfolding demo_base_def fst_conv
  proof (induction ops)
    case (Cons x ops)
    then show ?case
      by (cases x; cases "fst x = (ns, k)")
        (auto simp: nested_get_pop_inner nested_get_put split: option.splits)
  qed simp
  have "snd (demo_base ops (d, v)) = v" for ops d v by (simp add: demo_base_def)
  then show ?thesis
    unfolding base_apply_law_def using data by (intro allI) (simp add: option.case_eq_if)
qed

definition demo_item_store :: "(string, string) item_store" where
  "demo_item_store = snd (apply_put_ops demo_est demo_base 0
     [(([''a''], ''x''), \<lparr>po_value = Some ''hello'', po_ttl = Some (PInt 1)\<rparr>),
      (([''a''], ''y''), \<lparr>po_value = Some ''bye'', po_ttl = None\<rparr>)] (store_init demo_est [] [] []))"

theorem store_sweep_exact_witness:
  "\<exists>s'. store_sweep_ttl 60000000 demo_item_store = (1, s') \<and> nested_get (is_data s') [''a''] ''x'' = None \<and>
     nested_get (is_data s') [''a''] ''y'' = Some ''bye'' \<and> st_total_bytes (is_sizes s') = 4"
proof -
  have "store_reachable demo_est demo_base demo_item_store"
    unfolding demo_item_store_def by (intro store_reachable.put store_reachable.init) simp_all
  note e = store_sweep_exact [OF demo_base_law this, of 60000000 "fst (store_sweep_ttl 60000000 demo_item_store)" "snd (store_sweep_ttl 60000000 demo_item_store)"]
  have "fst (store_sweep_ttl 60000000 demo_item_store) = 1" "st_total_bytes (is_sizes (snd (store_sweep_ttl 60000000 demo_item_store))) = 4"
    "map_of (is_ttl demo_item_store) ([''a''], ''x'') = Some \<lparr>tr_expires_at = 60000000, tr_minutes = 1\<rparr>"
    "map_of (is_ttl demo_item_store) ([''a''], ''y'') = None" "nested_get (is_data demo_item_store) [''a''] ''y'' = Some ''bye''"
    by code_simp+
  with e show ?thesis
    by (intro exI [of _ "snd (store_sweep_ttl 60000000 demo_item_store)"]) (auto simp: prod_eq_iff)
qed

end
