(* ===== verification/Deploy.thy ===== *)
theory Deploy
  imports Ops_State
begin

text \<open>
  The internal routes (\<open>routes.py\<close>): the deploy operation with its ring buffer of events, the reader
  of its subprocess, the watchdog, the event stream that resumes after a disconnect, the check of the
  origin, and the routes for tests. The subprocess, its output (as decoded lines) and the JSON parser
  are parameters; a poll of the stream sees the operation at two moments, its snapshot and its check
  of the status.
\<close>

section \<open>Origins\<close>

definition allowed_deploy_origins :: "string list" where
  "allowed_deploy_origins =
     [''https://smith.langchain.com'', ''https://eu.smith.langchain.com'', ''https://dev.smith.langchain.com'',
      ''https://staging.smith.langchain.com'']"

text \<open>The end of the pattern \<open>(:\d+)?$\<close>: \<open>$\<close> matches at the end and before a final newline.\<close>

definition at_end :: "string \<Rightarrow> bool" where
  "at_end s \<longleftrightarrow> s = [] \<or> s = [CHR 0x0A]"

definition port_end :: "string \<Rightarrow> bool" where
  "port_end s \<longleftrightarrow>
     at_end s
     \<or> (case s of
           c # cs \<Rightarrow> c = CHR '':'' \<and> takeWhile is_digit cs \<noteq> [] \<and> at_end (dropWhile is_digit cs)
         | [] \<Rightarrow> False)"

definition is_allowed_deploy_origin :: "string \<Rightarrow> bool" where
  "is_allowed_deploy_origin origin \<longleftrightarrow>
     origin = []
     \<or> (\<exists>h \<in> {''http://localhost'', ''http://127.0.0.1''}. starts_with origin h \<and> port_end (drop (length h) origin))
     \<or> origin \<in> set allowed_deploy_origins"

section \<open>The operation\<close>

datatype deploy_status = DRunning | DSucceeded | DFailed

text \<open>An event of the stream: its name and payload.\<close>

type_synonym deploy_event = "string \<times> dict"

record deploy_op =
  d_id :: string
  d_status :: deploy_status
  d_exit_code :: "int option"
  d_started_at :: int
  d_finished_at :: "int option"
  d_events :: "deploy_event list"
  d_last_status_url :: "pyval option"
  d_last_result :: "pyval option"
  d_stderr_tail :: "string list"
  d_total_appended :: nat

definition new_deploy_op :: "string \<Rightarrow> int \<Rightarrow> deploy_op" where
  "new_deploy_op operation_id started_at =
     \<lparr>d_id = operation_id, d_status = DRunning, d_exit_code = None, d_started_at = started_at, d_finished_at = None,
      d_events = [], d_last_status_url = None, d_last_result = None, d_stderr_tail = [], d_total_appended = 0\<rparr>"

text \<open>\<open>deque(maxlen=n).append(x)\<close>.\<close>

definition deque_append :: "nat \<Rightarrow> 'a \<Rightarrow> 'a list \<Rightarrow> 'a list" where
  "deque_append n x xs = drop (length xs + 1 - n) (xs @ [x])"

definition append_event :: "deploy_event \<Rightarrow> deploy_op \<Rightarrow> deploy_op" where
  "append_event e op = op\<lparr>d_events := deque_append 2000 e (d_events op), d_total_appended := d_total_appended op + 1\<rparr>"

definition log_event :: "pyval \<Rightarrow> pyval \<Rightarrow> deploy_event" where
  "log_event message level = (''log'', [(''message'', message), (''level'', level)])"

section \<open>Reading the subprocess\<close>

definition py_rstrip :: "string \<Rightarrow> string" where
  "py_rstrip s = rev (dropWhile is_space (rev s))"

definition drain_stderr_line :: "string \<Rightarrow> deploy_op \<Rightarrow> deploy_op" where
  "drain_stderr_line raw op =
     (let line = py_rstrip raw in if line = [] then op else op\<lparr>d_stderr_tail := deque_append 50 line (d_stderr_tail op)\<rparr>)"

definition named_event_types :: "string list" where
  "named_event_types = [''step'', ''result'', ''upload_progress'', ''heartbeat'']"

text \<open>Whether \<open>v in frozenset(...)\<close> can be asked.\<close>

definition hashable :: "pyval \<Rightarrow> bool" where
  "hashable v = (case v of PList _ \<Rightarrow> False | PDict _ \<Rightarrow> False | _ \<Rightarrow> True)"

text \<open>One line of standard output. An event that is no object has no \<open>get\<close>.\<close>

definition read_line :: "(string \<Rightarrow> pyval res) \<Rightarrow> string \<Rightarrow> deploy_op \<Rightarrow> unit res \<times> deploy_op" where
  "read_line json_loads raw op =
     (let line = py_rstrip raw in
      case json_loads line of
        Inl ValueError \<Rightarrow> (Inr (), append_event (log_event (PStr line) (PStr ''log'')) op)
      | Inl e \<Rightarrow> (Inl e, op)
      | Inr (PDict event) \<Rightarrow>
          let evt_type = dict_get event ''event'' PNone;
              op = (if evt_type = PStr ''status_url'' then op\<lparr>d_last_status_url := Some (PDict event)\<rparr>
                    else if evt_type = PStr ''result'' then op\<lparr>d_last_result := Some (PDict event)\<rparr> else op)
          in if \<not> hashable evt_type then (Inl TypeError, op)
             else (case evt_type of
                PStr t \<Rightarrow>
                  if t \<in> set named_event_types then (Inr (), append_event (t, event) op)
                  else let msg = dict_get event ''message'' (PStr [])
                       in (Inr (), if truthy msg then append_event (log_event msg (if t = [] then PStr ''log'' else PStr t)) op else op)
              | _ \<Rightarrow>
                  let msg = dict_get event ''message'' (PStr [])
                  in (Inr (), if truthy msg then append_event (log_event msg (if truthy evt_type then evt_type else PStr ''log'')) op else op))
      | Inr _ \<Rightarrow> (Inl AttributeError, op))"

fun read_lines :: "(string \<Rightarrow> pyval res) \<Rightarrow> string list \<Rightarrow> deploy_op \<Rightarrow> unit res \<times> deploy_op" where
  "read_lines json_loads [] op = (Inr (), op)"
| "read_lines json_loads (l # ls) op =
     (case read_line json_loads l op of (Inl e, op') \<Rightarrow> (Inl e, op') | (Inr _, op') \<Rightarrow> read_lines json_loads ls op')"

definition finish_deploy :: "deploy_status \<Rightarrow> int \<Rightarrow> deploy_op \<Rightarrow> deploy_op" where
  "finish_deploy final_status finished_at op =
     (let op = (if final_status = DFailed then fold (\<lambda>l. append_event (log_event (PStr l) (PStr ''error''))) (d_stderr_tail op) op else op)
      in op\<lparr>d_finished_at := Some finished_at, d_status := final_status\<rparr>)"

definition read_subprocess :: "(string \<Rightarrow> pyval res) \<Rightarrow> string list \<Rightarrow> int \<Rightarrow> int \<Rightarrow> deploy_op \<Rightarrow> deploy_op" where
  "read_subprocess json_loads ls exit_code finished_at op =
     (case read_lines json_loads ls op of
        (Inr _, op') \<Rightarrow> finish_deploy (if exit_code = 0 then DSucceeded else DFailed) finished_at (op'\<lparr>d_exit_code := Some exit_code\<rparr>)
      | (Inl _, op') \<Rightarrow> finish_deploy DFailed finished_at op')"

text \<open>The watchdog: what it does when the time is up, given whether the process exited, and when it
  has to kill. The result says which signal is sent.\<close>

datatype signal = SigTerm | SigKill

definition watchdog_timeout :: "bool \<Rightarrow> pyval \<Rightarrow> deploy_op \<Rightarrow> signal option \<times> deploy_op" where
  "watchdog_timeout exited msg op =
     (if d_status op \<noteq> DRunning \<or> exited then (None, op) else (Some SigTerm, append_event (log_event msg (PStr ''error'')) op))"

definition watchdog_grace :: "bool \<Rightarrow> pyval \<Rightarrow> deploy_op \<Rightarrow> signal option \<times> deploy_op" where
  "watchdog_grace exited msg op =
     (if exited then (None, op) else (Some SigKill, append_event (log_event msg (PStr ''error'')) op))"

section \<open>The event stream\<close>

definition initial_cursor :: "string option \<Rightarrow> string option \<Rightarrow> nat" where
  "initial_cursor header query =
     (let raw = (case header of Some (c # cs) \<Rightarrow> Some (c # cs) | _ \<Rightarrow> query)
      in case raw of
           None \<Rightarrow> 0
         | Some s \<Rightarrow> if s = [] then 0 else (case py_int_of_string s of Inl _ \<Rightarrow> 0 | Inr i \<Rightarrow> nat (max 0 i)))"

text \<open>The events of one snapshot after the cursor, each with its id. An id counts every event
  appended, from 1; \<open>deque_start\<close> of them have left the buffer.\<close>

definition deploy_chunk :: "nat \<Rightarrow> deploy_op \<Rightarrow> (deploy_event \<times> nat) list" where
  "deploy_chunk cursor op =
     (let deque_start = d_total_appended op - length (d_events op);
          skip = cursor - deque_start
      in map (\<lambda>(offset, e). (e, deque_start + skip + offset + 1)) (enumerate 0 (drop skip (d_events op))))"

definition terminal_event :: "deploy_op \<Rightarrow> deploy_event \<times> nat" where
  "terminal_event op =
     ((if d_status op = DSucceeded then ''done'' else ''error'',
       [(''exit_code'', case d_exit_code op of None \<Rightarrow> PNone | Some i \<Rightarrow> PInt i)]),
      d_total_appended op + 1)"

fun deploy_stream :: "nat \<Rightarrow> (deploy_op \<times> deploy_op) list \<Rightarrow> (deploy_event \<times> nat) list" where
  "deploy_stream cursor [] = []"
| "deploy_stream cursor ((a, b) # polls) =
     deploy_chunk cursor a
     @ (if d_status b \<noteq> DRunning then deploy_chunk (d_total_appended a) b @ [terminal_event b]
        else deploy_stream (d_total_appended a) polls)"

section \<open>The routes\<close>

text \<open>A response: an error status, or what was asked for.\<close>

text \<open>\<open>start_deploy\<close> is suspended three times between its check and the assignment of the new
  operation, for the body of the request, the working directory and the subprocess: the two parts
  are separate steps, and the handler run alone is their composition.\<close>

definition start_deploy_check :: "string \<Rightarrow> deploy_op option \<Rightarrow> unit res" where
  "start_deploy_check origin current_op =
     (if \<not> is_allowed_deploy_origin origin then Inl (HTTPException 403)
      else if (case current_op of None \<Rightarrow> False | Some op \<Rightarrow> d_status op = DRunning) then Inl (HTTPException 409)
      else Inr ())"

definition start_deploy_spawn :: "string \<Rightarrow> int \<Rightarrow> (string \<times> deploy_status) \<times> deploy_op option" where
  "start_deploy_spawn operation_id now = (let op = new_deploy_op operation_id now in ((d_id op, d_status op), Some op))"

definition start_deploy :: "string \<Rightarrow> string \<Rightarrow> int \<Rightarrow> deploy_op option \<Rightarrow> (string \<times> deploy_status) res \<times> deploy_op option" where
  "start_deploy origin operation_id now current_op =
     (case start_deploy_check origin current_op of
        Inl e \<Rightarrow> (Inl e, current_op)
      | Inr _ \<Rightarrow> (case start_deploy_spawn operation_id now of (r, op) \<Rightarrow> (Inr r, op)))"

text \<open>The command line of the subprocess. The body is what \<open>request.json()\<close> gave, \<open>{}\<close> if it raised.\<close>

definition deploy_command :: "(pyval \<Rightarrow> string) \<Rightarrow> string \<Rightarrow> pyval res \<Rightarrow> string list" where
  "deploy_command py_str executable body =
     (let name = (case body of Inr (PDict d) \<Rightarrow> dict_get d ''name'' PNone | _ \<Rightarrow> PNone)
      in [executable, ''-m'', ''langgraph_cli'', ''deploy'', ''--json'', ''--no-input'']
         @ (if truthy name then [''--name'', py_str name] else []))"

text \<open>\<open>_collect_deploy_info\<close>: the base name of the working directory, the environment and whether the
  configuration file exists are what the operating system answers.\<close>

record deploy_info =
  di_protocol_version :: int
  di_default_name :: string
  di_has_api_key :: bool
  di_has_config :: bool

definition default_name :: "string \<Rightarrow> string" where
  "default_name base =
     map (\<lambda>c. if is_digit c \<or> c = CHR ''-'' \<or> (97 \<le> (of_char c :: nat) \<and> (of_char c :: nat) \<le> 122) then c else CHR ''-'')
       (py_lower base)"

definition collect_deploy_info :: "string \<Rightarrow> (string \<Rightarrow> string option) \<Rightarrow> bool \<Rightarrow> deploy_info" where
  "collect_deploy_info base environ has_config =
     \<lparr>di_protocol_version = 1, di_default_name = default_name base,
      di_has_api_key = (\<exists>k \<in> {''LANGSMITH_API_KEY'', ''LANGCHAIN_API_KEY'', ''LANGGRAPH_HOST_API_KEY''}.
        environ k \<noteq> None \<and> environ k \<noteq> Some []),
      di_has_config = has_config\<rparr>"

text \<open>\<open>_serialize_operation\<close> is what a client sees of an operation.\<close>

record deploy_view =
  dv_id :: string
  dv_status :: deploy_status
  dv_exit_code :: "int option"
  dv_started_at :: int
  dv_finished_at :: "int option"
  dv_status_url :: "pyval option"
  dv_result :: "pyval option"

definition serialize_operation :: "deploy_op \<Rightarrow> deploy_view" where
  "serialize_operation op =
     \<lparr>dv_id = d_id op, dv_status = d_status op, dv_exit_code = d_exit_code op, dv_started_at = d_started_at op,
      dv_finished_at = d_finished_at op, dv_status_url = d_last_status_url op, dv_result = d_last_result op\<rparr>"

definition get_deploy :: "string \<Rightarrow> deploy_info \<Rightarrow> deploy_op option \<Rightarrow> (deploy_info \<times> deploy_view option) res" where
  "get_deploy origin info current_op =
     (if \<not> is_allowed_deploy_origin origin then Inl (HTTPException 403)
      else Inr (info, map_option serialize_operation current_op))"

definition stream_deploy_logs :: "string \<Rightarrow> string \<Rightarrow> string option \<Rightarrow> string option \<Rightarrow> deploy_op option \<Rightarrow> (string \<times> nat) res" where
  "stream_deploy_logs origin op_id header query current_op =
     (if \<not> is_allowed_deploy_origin origin then Inl (HTTPException 403)
      else case current_op of
             None \<Rightarrow> Inl (HTTPException 404)
           | Some op \<Rightarrow> if d_id op \<noteq> op_id then Inl (HTTPException 404) else Inr (op_id, initial_cursor header query))"

definition truncate_store :: "sys \<Rightarrow> sys" where
  "truncate_store s = conn_clear (s\<lparr>s_saver := saver_clear (s_saver s)\<rparr>)"

definition debug_get_raw_thread :: "string \<Rightarrow> sys \<Rightarrow> thread res" where
  "debug_get_raw_thread thread_id s =
     (case find (\<lambda>t. uuid_str (t_id t) = thread_id) (s_threads s) of
        None \<Rightarrow> Inl (HTTPException 404)
      | Some t \<Rightarrow> Inr t)"

section \<open>The routes\<close>

text \<open>\<open>get_internal_routes\<close>: none unless the migrations path names the in-memory store; the caller
  inserts each at the front, so that the parameterised path comes last.\<close>

datatype http_method = GET | POST

datatype route_handler = StreamDeployLogs | StartDeploy | GetDeploy | DebugGetRawThread | Truncate

fun contains_text :: "string \<Rightarrow> string \<Rightarrow> bool" where
  "contains_text t [] = (t = [])"
| "contains_text t (c # cs) = (take (length t) (c # cs) = t \<or> contains_text t cs)"

definition get_internal_routes :: "string \<Rightarrow> (string \<times> http_method \<times> route_handler) list" where
  "get_internal_routes migrations_path =
     (if \<not> contains_text ''__inmem'' migrations_path then []
      else [(''/deploy/{operation_id}/stream'', GET, StreamDeployLogs), (''/deploy'', POST, StartDeploy), (''/deploy'', GET, GetDeploy),
            (''/internal/debug/thread/{thread_id}'', GET, DebugGetRawThread), (''/internal/truncate'', POST, Truncate)])"

lemma routes_distinct: "distinct (map (\<lambda>(p, m, h). (p, m)) (get_internal_routes path))"
  by (simp add: get_internal_routes_def)

end
