(* ===== verification/Deploy_Stream.thy ===== *)
theory Deploy_Stream
  imports Deploy "HOL-Library.Sublist"
begin

text \<open>
  The event stream of a deployment: what a client that polls, loses its connection and resumes is
  sent, related to the log of all events the operation ever appended, of which the ring buffer holds
  the end.
\<close>

section \<open>The log of an operation\<close>

text \<open>The handlers that change an operation.\<close>

inductive deploy_handler :: "deploy_op \<Rightarrow> deploy_op \<Rightarrow> bool" where
  line: "deploy_handler op (snd (read_line json l op))"
| stderr: "deploy_handler op (drain_stderr_line l op)"
| exit: "deploy_handler op (op\<lparr>d_exit_code := Some i\<rparr>)"
| timeout: "deploy_handler op (snd (watchdog_timeout b msg op))"
| grace: "deploy_handler op (snd (watchdog_grace b msg op))"
| finish: "deploy_handler op (finish_deploy st t op)"

definition appends :: "deploy_event list \<Rightarrow> deploy_op \<Rightarrow> deploy_op \<Rightarrow> bool" where
  "appends es op op' \<longleftrightarrow>
     d_events op' = d_events (fold append_event es op) \<and> d_total_appended op' = d_total_appended (fold append_event es op)"

lemma append_event_fields:
  "d_stderr_tail (append_event e op) = d_stderr_tail op" "d_status (append_event e op) = d_status op"
  by (simp_all add: append_event_def)

lemma appends_none: "d_events op' = d_events op \<Longrightarrow> d_total_appended op' = d_total_appended op \<Longrightarrow> appends [] op op'"
  by (simp add: appends_def)

lemma appends_one:
  "d_events op1 = d_events op \<Longrightarrow> d_total_appended op1 = d_total_appended op \<Longrightarrow> appends [e] op (append_event e op1)"
  by (simp add: appends_def append_event_def)

lemma appends_ex:
  assumes "d_events op1 = d_events op" and "d_total_appended op1 = d_total_appended op"
  shows "\<exists>es. appends es op op1" and "\<exists>es. appends es op (append_event e op1)"
    and "\<exists>es. appends es op (if c then append_event e op1 else op1)"
  using appends_none [OF assms] appends_one [OF assms, of e] by auto

lemma read_line_appends: "\<exists>es. appends es op (snd (read_line json l op))"
proof (cases "json (py_rstrip l)")
  case (Inl e)
  then show ?thesis by (cases e) (auto simp: read_line_def intro!: appends_ex)
next
  case (Inr v)
  show ?thesis
  proof (cases "\<exists>event. v = PDict event")
    case True
    then obtain event where v: "v = PDict event" ..
    let ?t = "dict_get event ''event'' PNone" and ?m = "dict_get event ''message'' (PStr [])"
    define op1 where "op1 = (if ?t = PStr ''status_url'' then op\<lparr>d_last_status_url := Some (PDict event)\<rparr>
      else if ?t = PStr ''result'' then op\<lparr>d_last_result := Some (PDict event)\<rparr> else op)"
    then have same: "d_events op1 = d_events op" "d_total_appended op1 = d_total_appended op" by auto
    have "\<exists>c e. snd (read_line json l op) = (if c then append_event e op1 else op1)"
    proof (cases "\<exists>t. ?t = PStr t")
      case True
      then obtain t where t: "?t = PStr t" ..
      show ?thesis
        by (rule exI [of _ "t \<in> set named_event_types \<or> truthy ?m"],
            rule exI [of _ "if t \<in> set named_event_types then (t, event) else log_event ?m (if t = [] then PStr ''log'' else PStr t)"])
          (use t in \<open>simp add: read_line_def Inr v Let_def hashable_def op1_def [unfolded t]\<close>)
    next
      case False
      show ?thesis
        by (rule exI [of _ "hashable ?t \<and> truthy ?m"], rule exI [of _ "log_event ?m (if truthy ?t then ?t else PStr ''log'')"])
          (use False in \<open>simp add: read_line_def Inr v Let_def hashable_def op1_def split: pyval.splits\<close>)
    qed
    then show ?thesis using appends_ex(3) [OF same] by metis
  next
    case False
    then have "snd (read_line json l op) = op" by (cases v) (simp_all add: read_line_def Inr)
    then show ?thesis using appends_ex(1) by simp
  qed
qed

lemma handler_appends: "deploy_handler op op' \<Longrightarrow> \<exists>es. appends es op op'"
proof (induction rule: deploy_handler.induct)
  case (line op json l)
  show ?case by (rule read_line_appends)
next
  case (finish op st t)
  have "appends (if st = DFailed then map (\<lambda>l. log_event (PStr l) (PStr ''error'')) (d_stderr_tail op) else []) op (finish_deploy st t op)"
    by (simp add: finish_deploy_def Let_def appends_def fold_map comp_def)
  then show ?case by blast
qed (auto simp: drain_stderr_line_def Let_def watchdog_timeout_def watchdog_grace_def intro!: appends_ex)

text \<open>An operation with the log of the events appended to it so far.\<close>

inductive deploy_run :: "deploy_op \<Rightarrow> deploy_event list \<Rightarrow> bool" where
  new: "deploy_run (new_deploy_op i t) []"
| step: "deploy_run op lg \<Longrightarrow> deploy_handler op op' \<Longrightarrow> appends es op op' \<Longrightarrow> deploy_run op' (lg @ es)"

text \<open>The buffer holds the last 2000 events of the log, and the counter its length.\<close>

definition buffers :: "deploy_event list \<Rightarrow> deploy_op \<Rightarrow> bool" where
  "buffers lg op \<longleftrightarrow> d_events op = drop (length lg - 2000) lg \<and> d_total_appended op = length lg"

lemma deque_append_drop: "deque_append n x (drop (length xs - n) xs) = drop (length xs + 1 - n) (xs @ [x])"
  by (cases "length xs \<le> n") (auto simp: deque_append_def Suc_diff_le drop_Suc_Cons not_le)

lemma buffers_fold: "buffers lg op \<Longrightarrow> buffers (lg @ es) (fold append_event es op)"
proof (induction es arbitrary: lg op)
  case (Cons e es)
  have "buffers (lg @ [e]) (append_event e op)"
    using Cons.prems deque_append_drop [of 2000 e lg] by (simp add: buffers_def append_event_def)
  from Cons.IH [OF this] show ?case by simp
qed simp

lemma deploy_run_buffers: "deploy_run op lg \<Longrightarrow> buffers lg op"
proof (induction rule: deploy_run.induct)
  case (new i t)
  then show ?case by (simp add: buffers_def new_deploy_op_def)
next
  case (step op lg op' es)
  then show ?case using buffers_fold [of lg op es] by (simp add: appends_def buffers_def)
qed

section \<open>What a client is sent\<close>

definition numbered :: "deploy_event list \<Rightarrow> (deploy_event \<times> nat) list" where
  "numbered lg = map (\<lambda>i. (lg ! i, i + 1)) [0..<length lg]"

lemma numbered_append: "\<exists>zs. numbered (xs @ ys) = numbered xs @ zs"
proof -
  have "numbered (xs @ ys) = numbered xs @ map (\<lambda>i. (ys ! i, length xs + i + 1)) [0..<length ys]"
    by (rule nth_equalityI) (auto simp: numbered_def nth_append)
  then show ?thesis by blast
qed

lemma chunk_numbered:
  assumes "buffers lg op" and "length lg \<le> c + 2000"
  shows "deploy_chunk c op = drop c (numbered lg)"
proof -
  let ?k = "length lg - 2000"
  have len: "length (d_events op) = length lg - ?k" "d_total_appended op = length lg" "?k \<le> c"
    using assms by (auto simp: buffers_def)
  then have start: "d_total_appended op - length (d_events op) = ?k" by auto
  have "deploy_chunk c op = map (\<lambda>(offset, e). (e, c + offset + 1)) (enumerate 0 (drop c lg))"
    using assms(1) len(3) unfolding deploy_chunk_def Let_def start by (simp add: buffers_def)
  also have "\<dots> = drop c (numbered lg)"
    by (rule nth_equalityI) (auto simp: numbered_def nth_enumerate_eq)
  finally show ?thesis .
qed

text \<open>The polls of one connection: each sees the operation at its snapshot and at its check of the
  status, later than the poll before; the connection keeps up, at most 2000 events behind.\<close>

inductive polls :: "nat \<Rightarrow> (deploy_op \<times> deploy_op) list \<Rightarrow> deploy_event list \<Rightarrow> deploy_op \<Rightarrow> bool" where
  last: "deploy_run a la \<Longrightarrow> deploy_run b (la @ es) \<Longrightarrow> d_status b \<noteq> DRunning \<Longrightarrow> c \<le> length la \<Longrightarrow>
    length la \<le> c + 2000 \<Longrightarrow> length es \<le> 2000 \<Longrightarrow> polls c [(a, b)] (la @ es) b"
| more: "deploy_run a la \<Longrightarrow> d_status b = DRunning \<Longrightarrow> c \<le> length la \<Longrightarrow> length la \<le> c + 2000 \<Longrightarrow>
    polls (length la) ps lg op \<Longrightarrow> prefix la lg \<Longrightarrow> polls c ((a, b) # ps) lg op"

lemma drop_numbered_split:
  "c \<le> length xs \<Longrightarrow> drop c (numbered xs) @ drop (length xs) (numbered (xs @ ys)) = drop c (numbered (xs @ ys))"
  using numbered_append [of xs ys] by (auto simp: numbered_def)

text \<open>C33: The event stream of a deployment resumes exactly. A client that connects with the id of the
  last event it saw (0 for none) and keeps up with the ring buffer is sent every later event of the
  log once, in order, under the number of its position in the log, and then the terminal event; so
  ids stay valid across connections, whatever was appended between and during the polls.\<close>

theorem deploy_stream_resumes:
  assumes "polls cursor ps lg op"
  shows "deploy_stream cursor ps = drop cursor (numbered lg) @ [terminal_event op]"
  using assms
proof (induction rule: polls.induct)
  case (last a la b es c)
  have "deploy_chunk c a = drop c (numbered la)"
    using chunk_numbered [OF deploy_run_buffers [OF last(1)] last(5)] .
  moreover have "deploy_chunk (d_total_appended a) b = drop (length la) (numbered (la @ es))"
    using chunk_numbered [OF deploy_run_buffers [OF last(2)], of "length la"] last(6) deploy_run_buffers [OF last(1)]
    by (simp add: buffers_def)
  ultimately show ?case using last(3) drop_numbered_split [OF last(4), of es] by simp
next
  case (more a la b c ps lg op)
  obtain es where lg: "lg = la @ es" using more(6) by (auto elim: prefixE)
  have "deploy_chunk c a = drop c (numbered la)" "d_total_appended a = length la"
    using chunk_numbered [OF deploy_run_buffers [OF more(1)] more(4)] deploy_run_buffers [OF more(1)] by (simp_all add: buffers_def)
  then show ?case using more(2,7) drop_numbered_split [OF more(3), of es] by (simp add: lg)
qed


definition demo_line :: "string \<Rightarrow> deploy_event" where
  "demo_line l = log_event (PStr l) (PStr ''log'')"

definition demo_op :: deploy_op where
  "demo_op = snd (read_line (\<lambda>_. Inl ValueError) ''hi'' (new_deploy_op ''id'' 0))"

definition demo_done :: deploy_op where
  "demo_done = finish_deploy DSucceeded 9 (snd (read_line (\<lambda>_. Inl ValueError) ''bye'' demo_op))"

lemma demo_line_run:
  assumes "deploy_run op lg"
  shows "deploy_run (snd (read_line (\<lambda>_. Inl ValueError) l op)) (lg @ [demo_line (py_rstrip l)])"
  by (rule deploy_run.step [OF assms deploy_handler.line]) (simp add: read_line_def appends_def demo_line_def)

theorem deploy_stream_resumes_witness:
  "deploy_stream 1 [(demo_op, demo_done)] = [(demo_line ''bye'', 2), terminal_event demo_done]"
proof -
  have a: "deploy_run demo_op [demo_line ''hi'']"
    using demo_line_run [OF deploy_run.new, of "''hi''" "''id''" 0] by (simp add: demo_op_def py_rstrip_def is_space_def)
  have "deploy_run (snd (read_line (\<lambda>_. Inl ValueError) ''bye'' demo_op)) ([demo_line ''hi''] @ [demo_line ''bye''])"
    using demo_line_run [OF a, of "''bye''"] by (simp add: py_rstrip_def is_space_def)
  from deploy_run.step [OF this deploy_handler.finish, of "[]" DSucceeded 9]
  have b: "deploy_run demo_done ([demo_line ''hi''] @ [demo_line ''bye''])"
    by (simp add: demo_done_def appends_def finish_deploy_def Let_def)
  have "polls 1 [(demo_op, demo_done)] ([demo_line ''hi''] @ [demo_line ''bye'']) demo_done"
    by (rule polls.last [OF a b]) (simp_all add: demo_done_def finish_deploy_def)
  from deploy_stream_resumes [OF this] show ?thesis by (simp add: numbered_def)
qed

text \<open>Two requests that both pass the check before either assigns its operation start two
  subprocesses; the operation of the first is then unknown to every route.\<close>

lemma deploy_started_twice:
  assumes "is_allowed_deploy_origin origin" and "i \<noteq> j"
  shows "start_deploy_check origin None = Inr ()"
    and "snd (start_deploy_spawn j now) = Some (new_deploy_op j now)"
    and "stream_deploy_logs origin i header query (snd (start_deploy_spawn j now)) = Inl (HTTPException 404)"
  using assms by (simp_all add: start_deploy_check_def start_deploy_spawn_def stream_deploy_logs_def new_deploy_op_def)

lemma start_deploy_busy: "d_status op = DRunning \<Longrightarrow> snd (start_deploy origin i now (Some op)) = Some op"
  by (simp add: start_deploy_def start_deploy_check_def)

end
