(* ===== verification/Persistence.thy ===== *)
theory Persistence
  imports Prelude
begin

text \<open>
  The registry of persistent dictionaries (\<open>_persistence.py\<close>): which object owns a file, and the
  calls each operation makes on the objects. \<open>PersistentDict\<close> belongs to \<open>langgraph\<close>; its
  methods are recorded as calls: \<open>sync\<close> and \<open>close\<close> write the file, \<open>dict.clear\<close> does not.
  Objects are numbers, a weak reference to one that was collected gives \<open>None\<close>, and the lock makes
  each operation one step. File persistence may be disabled.
\<close>

section \<open>State\<close>

type_synonym obj = nat

datatype dict_call = Sync obj | Close obj | Clear obj

record registry =
  rg_stores :: "(string \<times> obj) list"
  rg_owner :: "(obj \<times> bool option) list"
  rg_dead :: "obj list"
  rg_flushing :: bool

definition empty_registry :: registry where
  "empty_registry = \<lparr>rg_stores = [], rg_owner = [], rg_dead = [], rg_flushing = False\<rparr>"

text \<open>\<open>getattr(d, _PERSISTENCE_OWNER_ATTR, None)\<close> and the object a file is registered for.\<close>

definition ownership :: "registry \<Rightarrow> obj \<Rightarrow> bool option" where
  "ownership s d = dict_get (rg_owner s) d None"

definition live :: "registry \<Rightarrow> obj \<Rightarrow> bool" where
  "live s d \<longleftrightarrow> d \<notin> set (rg_dead s)"

definition current_owner :: "registry \<Rightarrow> string \<Rightarrow> obj option" where
  "current_owner s f = (case map_of (rg_stores s) f of None \<Rightarrow> None | Some d \<Rightarrow> if live s d then Some d else None)"

definition set_owner :: "obj \<Rightarrow> bool option \<Rightarrow> registry \<Rightarrow> registry" where
  "set_owner d b s = s\<lparr>rg_owner := AList.update d b (rg_owner s)\<rparr>"

section \<open>Operations\<close>

definition register_persistent_dict :: "bool \<Rightarrow> (obj \<Rightarrow> string) \<Rightarrow> obj \<Rightarrow> registry \<Rightarrow> registry" where
  "register_persistent_dict disabled filename d s =
     (if disabled then s
      else if (case current_owner s (filename d) of None \<Rightarrow> False | Some c \<Rightarrow> c \<noteq> d) then set_owner d (Some False) s
      else (set_owner d (Some True) s)\<lparr>rg_stores := AList.update (filename d) d (rg_stores s), rg_flushing := True\<rparr>)"

definition unregister_persistent_dict :: "(obj \<Rightarrow> string) \<Rightarrow> obj \<Rightarrow> registry \<Rightarrow> registry" where
  "unregister_persistent_dict filename d s =
     (if current_owner s (filename d) = Some d then s\<lparr>rg_stores := AList.delete (filename d) (rg_stores s)\<rparr> else s)"

text \<open>\<open>d.close()\<close> may raise, which leaves the registry as it is.\<close>

definition close_persistent_dict :: "(obj \<Rightarrow> string) \<Rightarrow> bool \<Rightarrow> obj \<Rightarrow> registry \<Rightarrow> dict_call list \<times> registry" where
  "close_persistent_dict filename close_ok d s =
     (if ownership s d = Some False then ([Clear d], s)
      else if (case current_owner s (filename d) of None \<Rightarrow> False | Some c \<Rightarrow> c \<noteq> d)
      then ([Clear d], set_owner d (Some False) s)
      else if \<not> close_ok then ([Close d], s)
      else ([Close d], (set_owner d None s)\<lparr>rg_stores := AList.delete (filename d) (rg_stores s)\<rparr>))"

text \<open>One pass of the flush loop over a snapshot of the registry; a \<open>sync\<close> that raises is logged and
  the entry stays.\<close>

fun flush_entries :: "(string \<times> obj) list \<Rightarrow> registry \<Rightarrow> dict_call list \<times> registry" where
  "flush_entries [] s = ([], s)"
| "flush_entries ((f, d) # es) s =
     (if map_of (rg_stores s) f \<noteq> Some d then flush_entries es s
      else if \<not> live s d then flush_entries es (s\<lparr>rg_stores := AList.delete f (rg_stores s)\<rparr>)
      else case flush_entries es s of (cs, s') \<Rightarrow> (Sync d # cs, s'))"

definition flush_registered_once :: "registry \<Rightarrow> dict_call list \<times> registry" where
  "flush_registered_once s = flush_entries (rg_stores s) s"

definition stop_flush_loop :: "registry \<Rightarrow> registry" where
  "stop_flush_loop s = s\<lparr>rg_flushing := False\<rparr>"

section \<open>One writer per file\<close>

inductive persist_step :: "(obj \<Rightarrow> string) \<Rightarrow> registry \<Rightarrow> dict_call list \<Rightarrow> registry \<Rightarrow> bool" for filename where
  register: "persist_step filename s [] (register_persistent_dict disabled filename d s)"
| unregister: "persist_step filename s [] (unregister_persistent_dict filename d s)"
| close: "close_persistent_dict filename b d s = (cs, s') \<Longrightarrow> persist_step filename s cs s'"
| flush: "flush_registered_once s = (cs, s') \<Longrightarrow> persist_step filename s cs s'"
| stop: "persist_step filename s [] (stop_flush_loop s)"
| collect: "persist_step filename s [] (s\<lparr>rg_dead := d # rg_dead s\<rparr>)"

inductive persist_reachable :: "(obj \<Rightarrow> string) \<Rightarrow> registry \<Rightarrow> bool" for filename where
  init: "persist_reachable filename empty_registry"
| step: "persist_reachable filename s \<Longrightarrow> persist_step filename s cs s' \<Longrightarrow> persist_reachable filename s'"

definition registry_ok :: "(obj \<Rightarrow> string) \<Rightarrow> registry \<Rightarrow> bool" where
  "registry_ok filename s \<longleftrightarrow>
     distinct (map fst (rg_stores s)) \<and>
     (\<forall>(f, d) \<in> set (rg_stores s). filename d = f \<and> ownership s d = Some True)"

lemma update_entries:
  "distinct (map fst d) \<Longrightarrow> x \<in> set (AList.update k v d) \<Longrightarrow> x = (k, v) \<or> (x \<in> set d \<and> fst x \<noteq> k)"
  by (induction d) (auto split: if_splits)

lemma delete_entries: "x \<in> set (AList.delete k d) \<longleftrightarrow> x \<in> set d \<and> fst x \<noteq> k"
  by (auto simp: AList.delete_eq)

lemma ownership_set [simp]:
  "ownership (set_owner d b s) e = (if e = d then b else ownership s e)"
  by (simp add: ownership_def set_owner_def dict_simps)

lemma ownership_fields [simp]:
  "ownership (s\<lparr>rg_stores := x\<rparr>) = ownership s" "ownership (s\<lparr>rg_dead := y\<rparr>) = ownership s"
  "ownership (s\<lparr>rg_flushing := z\<rparr>) = ownership s" "rg_stores (set_owner d b s) = rg_stores s"
  by (simp_all add: ownership_def set_owner_def fun_eq_iff)


lemma registry_entry:
  assumes "registry_ok filename s" and "(f, d) \<in> set (rg_stores s)"
  shows "filename d = f" and "ownership s d = Some True" and "map_of (rg_stores s) f = Some d"
  using assms by (auto simp: registry_ok_def)

text \<open>An object that is not the live owner of its file has no entry.\<close>

lemma denied_no_entry:
  assumes "registry_ok filename s" and "current_owner s (filename d) = Some c" and "c \<noteq> d"
  shows "(f, d) \<notin> set (rg_stores s)"
proof
  assume "(f, d) \<in> set (rg_stores s)"
  from registry_entry [OF assms(1) this] assms(2,3) show False
    by (auto simp: current_owner_def split: if_splits)
qed

lemma registry_ok_deny:
  assumes "registry_ok filename s" and "current_owner s (filename d) = Some c" and "c \<noteq> d"
  shows "registry_ok filename (set_owner d (Some False) s)"
  using assms denied_no_entry [OF assms] by (auto simp: registry_ok_def)

lemma registry_ok_delete:
  "registry_ok filename s \<Longrightarrow> registry_ok filename (s\<lparr>rg_stores := AList.delete f (rg_stores s)\<rparr>)"
  by (auto simp: registry_ok_def distinct_delete delete_entries)

lemma registry_ok_register:
  assumes "registry_ok filename s"
  shows "registry_ok filename (register_persistent_dict disabled filename d s)"
proof (cases "disabled \<or> (\<exists>c. current_owner s (filename d) = Some c \<and> c \<noteq> d)")
  case True
  then show ?thesis
    using assms registry_ok_deny [OF assms, of d] by (auto simp: register_persistent_dict_def split: option.splits)
next
  case False
  then have "register_persistent_dict disabled filename d s =
      (set_owner d (Some True) s)\<lparr>rg_stores := AList.update (filename d) d (rg_stores s), rg_flushing := True\<rparr>"
    by (auto simp: register_persistent_dict_def split: option.splits)
  moreover have d: "distinct (map fst (rg_stores s))" using assms by (simp add: registry_ok_def)
  ultimately show ?thesis
    using registry_entry(1,2) [OF assms]
    by (auto simp: registry_ok_def distinct_update dest!: update_entries [OF d])
qed

lemma registry_ok_close:
  assumes "registry_ok filename s" and "close_persistent_dict filename b d s = (cs, s')"
  shows "registry_ok filename s'"
proof -
  have "registry_ok filename ((set_owner d None s)\<lparr>rg_stores := AList.delete (filename d) (rg_stores s)\<rparr>)"
    using assms(1) registry_entry [OF assms(1)] by (auto simp: registry_ok_def distinct_delete delete_entries)
  then show ?thesis
    using assms registry_ok_deny [OF assms(1), of d]
    by (auto simp: close_persistent_dict_def split: if_splits option.splits)
qed

lemma flush_entries_ok:
  assumes "registry_ok filename s" and "flush_entries es s = (cs, s')"
  shows "registry_ok filename s' \<and>
    (\<forall>c \<in> set cs. \<exists>d. c = Sync d \<and> current_owner s (filename d) = Some d \<and> ownership s d = Some True)"
  using assms
proof (induction es arbitrary: s cs)
  case (Cons e es)
  obtain f d where e: "e = (f, d)" by force
  let ?t = "s\<lparr>rg_stores := AList.delete f (rg_stores s)\<rparr>"
  show ?case
  proof (cases "map_of (rg_stores s) f = Some d")
    case True
    then have entry: "filename d = f" "ownership s d = Some True"
      using registry_entry [OF Cons.prems(1) map_of_SomeD] by blast+
    show ?thesis
    proof (cases "live s d")
      case live: True
      then obtain cs' where "flush_entries es s = (cs', s')" "cs = Sync d # cs'"
        using Cons.prems(2) True by (auto simp: e split: prod.splits)
      with Cons.IH [OF Cons.prems(1)] True live entry show ?thesis by (simp add: current_owner_def)
    next
      case False
      then have "flush_entries es ?t = (cs, s')" using Cons.prems(2) True by (simp add: e)
      moreover have "current_owner ?t g = Some x \<Longrightarrow> current_owner s g = Some x" for g x
        by (auto simp: current_owner_def live_def dict_simps split: option.splits if_splits)
      ultimately show ?thesis using Cons.IH [OF registry_ok_delete [OF Cons.prems(1)]] by fastforce
    qed
  next
    case False
    then show ?thesis using Cons.IH [OF Cons.prems(1)] Cons.prems(2) by (simp add: e)
  qed
qed simp

lemma persist_step_ok: "persist_step filename s cs s' \<Longrightarrow> registry_ok filename s \<Longrightarrow> registry_ok filename s'"
proof (induction rule: persist_step.induct)
  case (unregister s d)
  then show ?case by (simp add: unregister_persistent_dict_def registry_ok_delete)
next
  case (flush s cs s')
  then show ?case using flush_entries_ok [of filename s "rg_stores s"] by (simp add: flush_registered_once_def)
qed (auto simp: registry_ok_register registry_ok_close stop_flush_loop_def, auto simp: registry_ok_def)

lemma persist_reachable_ok: "persist_reachable filename s \<Longrightarrow> registry_ok filename s"
proof (induction rule: persist_reachable.induct)
  case init
  show ?case by (simp add: registry_ok_def empty_registry_def)
next
  case (step s cs s')
  then show ?case by (blast intro: persist_step_ok)
qed

definition writes :: "dict_call \<Rightarrow> obj \<Rightarrow> bool" where
  "writes c d \<longleftrightarrow> c = Sync d \<or> c = Close d"


text \<open>Two objects for one file: the first owns it, the second is denied and its close only clears it.\<close>

definition demo_registry :: registry where
  "demo_registry = register_persistent_dict False (\<lambda>_. ''f'') 2 (register_persistent_dict False (\<lambda>_. ''f'') 1 empty_registry)"


end
