(* ===== verification/Worker_Queue.thy ===== *)
theory Worker_Queue
  imports Runs
begin

text \<open>
  The background workers (\<open>queue.py\<close>, \<open>metrics.py\<close> and \<open>queue_with_signal\<close> of \<open>lifespan.py\<close>): a pool of
  runners, the scheduler that takes runs from \<open>Runs.next\<close> and starts a worker for each, the callback
  that gives a runner back, webhooks, metrics, and how the scheduler ends.

  The pool is an \<open>AsyncQueue\<close> of \<open>langgraph_api\<close>: its operations are a parameter, with the laws of a
  bounded first-in first-out queue as a locale. The graph registry (\<open>is_js_graph\<close>) and what a worker
  returns are parameters too. Tasks are numbered in the order they are created; a reading of
  \<open>loop.time()\<close> is an argument.
\<close>

section \<open>State\<close>

record 'q queue_ops =
  qo_new :: "nat \<Rightarrow> 'q"
  qo_qsize :: "'q \<Rightarrow> nat"
  qo_get_nowait :: "'q \<Rightarrow> (nat \<times> 'q) option"
  qo_put_nowait :: "nat \<Rightarrow> 'q \<Rightarrow> 'q option"

record queue_config =
  qc_concurrency :: nat
  qc_isolated_loops :: bool
  qc_heartbeat :: int
  qc_stats_interval :: int
  qc_is_js_graph :: "pyval \<Rightarrow> bool res"

text \<open>A worker runs on the main loop or on the loop of its runner.\<close>

record worker_task =
  w_name :: string
  w_run :: run
  w_attempt :: int
  w_runner :: nat
  w_on_runner :: bool

text \<open>
  The variables of \<open>queue()\<close> and the set \<open>WORKERS\<close>. With isolated loops a worker ends in another
  thread and its runner is put back by a callback on the main loop: \<open>k_returning\<close> holds those
  runners in order. \<open>k_got_run\<close> says whether the variable \<open>run\<close> is not \<open>None\<close>.
\<close>

record 'q scheduler =
  k_runners :: 'q
  k_returning :: "nat list"
  k_expired :: "nat list"
  k_workers :: "(nat \<times> worker_task) list"
  k_webhooks :: "nat list"
  k_next_task :: nat
  k_last_stats :: "int option"
  k_last_sweep :: "int option"
  k_got_run :: bool

text \<open>What a finished worker left: it was cancelled, it raised, or it returned a result, which may
  ask for a webhook.\<close>

datatype worker_outcome = WCancelled | WRaised exn | WReturned bool

section \<open>Starting\<close>

text \<open>Putting runners in order; the result holds those that found no room.\<close>

fun put_all :: "'q queue_ops \<Rightarrow> nat list \<Rightarrow> 'q \<Rightarrow> 'q \<times> nat list" where
  "put_all ops [] q = (q, [])"
| "put_all ops (r # rs) q = (case qo_put_nowait ops r q of None \<Rightarrow> (q, r # rs) | Some q' \<Rightarrow> put_all ops rs q')"

definition new_scheduler :: "'q queue_ops \<Rightarrow> queue_config \<Rightarrow> 'q scheduler" where
  "new_scheduler ops cfg =
     \<lparr>k_runners = fst (put_all ops [0..<qc_concurrency cfg] (qo_new ops (qc_concurrency cfg))), k_returning = [], k_expired = [],
      k_workers = [], k_webhooks = [], k_next_task = 0, k_last_stats = None, k_last_sweep = None, k_got_run = False\<rparr>"

section \<open>Finishing a worker\<close>

text \<open>\<open>cleanup\<close>: \<open>loop_closed\<close> says that the main loop no longer takes callbacks.\<close>

definition give_back :: "'q queue_ops \<Rightarrow> queue_config \<Rightarrow> bool \<Rightarrow> nat \<Rightarrow> 'q scheduler \<Rightarrow> 'q scheduler" where
  "give_back ops cfg loop_closed runner q =
     (if qc_isolated_loops cfg
      then (if loop_closed then q\<lparr>k_expired := k_expired q @ [runner]\<rparr> else q\<lparr>k_returning := k_returning q @ [runner]\<rparr>)
      else (case qo_put_nowait ops runner (k_runners q) of
              None \<Rightarrow> q\<lparr>k_expired := k_expired q @ [runner]\<rparr>
            | Some rs \<Rightarrow> q\<lparr>k_runners := rs\<rparr>))"

definition cleanup :: "'q queue_ops \<Rightarrow> queue_config \<Rightarrow> bool \<Rightarrow> nat \<Rightarrow> nat \<Rightarrow> worker_outcome \<Rightarrow> 'q scheduler \<Rightarrow> 'q scheduler" where
  "cleanup ops cfg loop_closed task runner outcome q =
     (let q = give_back ops cfg loop_closed runner (q\<lparr>k_workers := AList.delete task (k_workers q)\<rparr>) in
      case outcome of
        WReturned True \<Rightarrow>
          if qc_isolated_loops cfg \<and> loop_closed then q
          else q\<lparr>k_webhooks := k_webhooks q @ [k_next_task q], k_next_task := Suc (k_next_task q)\<rparr>
      | _ \<Rightarrow> q)"

text \<open>The callback that puts a runner back on the main loop; an exception there is logged by the loop.\<close>

definition put_returning :: "'q queue_ops \<Rightarrow> 'q scheduler \<Rightarrow> 'q scheduler" where
  "put_returning ops q =
     (case k_returning q of
        [] \<Rightarrow> q
      | r # rs \<Rightarrow> (case qo_put_nowait ops r (k_runners q) of
                     None \<Rightarrow> q\<lparr>k_returning := rs\<rparr>
                   | Some pool \<Rightarrow> q\<lparr>k_returning := rs, k_runners := pool\<rparr>))"

definition webhook_done :: "nat \<Rightarrow> 'q scheduler \<Rightarrow> 'q scheduler" where
  "webhook_done task q = q\<lparr>k_webhooks := removeAll task (k_webhooks q)\<rparr>"

section \<open>Starting workers\<close>

definition py_get :: "pyval \<Rightarrow> string \<Rightarrow> pyval \<Rightarrow> pyval res" where
  "py_get v k dflt = (case v of PDict d \<Rightarrow> Inr (dict_get d k dflt) | _ \<Rightarrow> Inl AttributeError)"

definition run_graph_id :: "run \<Rightarrow> pyval res" where
  "run_graph_id r =
     res_bind (py_get (PDict (r_kwargs r)) ''config'' (PDict [])) (\<lambda>c.
     res_bind (py_get c ''configurable'' (PDict [])) (\<lambda>c. py_get c ''graph_id'' PNone))"

definition js_run :: "queue_config \<Rightarrow> pyval \<Rightarrow> bool res" where
  "js_run cfg graph_id = (if truthy graph_id then qc_is_js_graph cfg graph_id else Inr False)"

definition task_name :: "bool \<Rightarrow> run \<Rightarrow> int \<Rightarrow> string" where
  "task_name js r attempt =
     (if js then ''js-run-'' else ''run-'') @ uuid_str (r_id r) @ ''-attempt-'' @ show_int attempt"

text \<open>The body of the loop over \<open>Runs.next\<close>: a runner leaves the pool, and the task starts on it or on
  the main loop. An exception leaves the runner out of the pool.\<close>

definition start_worker :: "'q queue_ops \<Rightarrow> queue_config \<Rightarrow> run \<Rightarrow> int \<Rightarrow> 'q scheduler \<Rightarrow> unit res \<times> 'q scheduler" where
  "start_worker ops cfg r attempt q =
     (case qo_get_nowait ops (k_runners q) of
        None \<Rightarrow> (Inl QueueEmpty, q)
      | Some (runner, pool) \<Rightarrow>
          let q = q\<lparr>k_runners := pool\<rparr> in
          case res_bind (run_graph_id r) (js_run cfg) of
            Inl e \<Rightarrow> (Inl e, q)
          | Inr js \<Rightarrow>
              let t = \<lparr>w_name = task_name js r attempt, w_run = r, w_attempt = attempt, w_runner = runner,
                       w_on_runner = (qc_isolated_loops cfg \<and> \<not> js)\<rparr>
              in (Inr (), q\<lparr>k_workers := (k_next_task q, t) # k_workers q, k_next_task := Suc (k_next_task q)\<rparr>))"

text \<open>\<open>Runs.next\<close> is a generator: a run is claimed when the loop asks for it, so that an exception
  leaves the later runs pending.\<close>

fun claim_and_start :: "'q queue_ops \<Rightarrow> queue_config \<Rightarrow> run list \<Rightarrow> 'q scheduler \<Rightarrow> sys \<Rightarrow> unit res \<times> 'q scheduler \<times> sys" where
  "claim_and_start ops cfg [] q s = (Inr (), q, s)"
| "claim_and_start ops cfg (r # rs) q s =
     (case claim_run r s of
        (Inl e, s') \<Rightarrow> (Inl e, q, s')
      | (Inr None, s') \<Rightarrow> claim_and_start ops cfg rs q s'
      | (Inr (Some (claimed, attempt)), s') \<Rightarrow>
          (case start_worker ops cfg claimed attempt (q\<lparr>k_got_run := True\<rparr>) of
             (Inl e, q') \<Rightarrow> (Inl e, q', s')
           | (Inr _, q') \<Rightarrow> claim_and_start ops cfg rs q' s'))"

section \<open>The scheduler\<close>

definition requeue_expired :: "'q queue_ops \<Rightarrow> 'q scheduler \<Rightarrow> 'q scheduler" where
  "requeue_expired ops q =
     (case put_all ops (k_expired q) (k_runners q) of (pool, waiting) \<Rightarrow> q\<lparr>k_runners := pool, k_expired := waiting\<rparr>)"

definition interval_over :: "int option \<Rightarrow> int \<Rightarrow> int \<Rightarrow> bool" where
  "interval_over before now interval = (case before of None \<Rightarrow> True | Some l \<Rightarrow> now - l > interval)"

definition begin_iteration :: "bool \<Rightarrow> int \<Rightarrow> 'q scheduler \<Rightarrow> 'q scheduler" where
  "begin_iteration calc_stats t3 q = (if calc_stats then q\<lparr>k_last_stats := Some t3\<rparr> else q)\<lparr>k_got_run := False\<rparr>"

text \<open>One iteration once a runner is free. The readings of the clock are \<open>t1\<close> and \<open>t2\<close> for the two
  intervals, \<open>t3\<close> for the new time of the statistics and \<open>t4\<close> for that of the sweep. \<open>wait\<close> only
  delays \<open>Runs.next\<close>, and \<open>Runs.sweep\<close> does nothing.\<close>

definition schedule_once ::
  "'q queue_ops \<Rightarrow> queue_config \<Rightarrow> env \<Rightarrow> int \<times> int \<times> int \<times> int \<Rightarrow> 'q scheduler \<Rightarrow> sys \<Rightarrow> unit res \<times> 'q scheduler \<times> sys" where
  "schedule_once ops cfg env readings q s =
     (let (t1, t2, t3, t4) = readings;
          do_sweep = interval_over (k_last_sweep q) t1 (qc_heartbeat cfg * 2);
          calc_stats = interval_over (k_last_stats q) t2 (qc_stats_interval cfg);
          q = begin_iteration calc_stats t3 q
      in case datetime_now env s of
           (Inl e, s) \<Rightarrow> (Inl e, q, s)
         | (Inr now, s) \<Rightarrow>
             (case claim_and_start ops cfg (take (qo_qsize ops (k_runners q)) (due_runs now (s_runs s))) q s of
                (Inl e, q, s) \<Rightarrow> (Inl e, q, s)
              | (Inr _, q, s) \<Rightarrow>
                  (case when_act calc_stats (bind (runs_stats env) (\<lambda>_. ret ())) s of
                     (Inl e, s) \<Rightarrow> (Inl e, q, s)
                   | (Inr _, s) \<Rightarrow> (Inr (), if do_sweep then q\<lparr>k_last_sweep := Some t4\<rparr> else q, s))))"

text \<open>
  The handler of an exception logs it and evaluates \<open>exit.aclose()\<close>. \<open>exit\<close> is no variable of the
  module but the built-in of \<open>site\<close>, which has no such attribute.
\<close>

datatype queue_end = QCancelled | QRaised exn

definition scheduler_failed :: "exn \<Rightarrow> queue_end" where
  "scheduler_failed e = QRaised AttributeError"

text \<open>The \<open>finally\<close> block: the tasks it cancels, and its own outcome when they do not end within the
  grace period.\<close>

definition shutdown_tasks :: "'q scheduler \<Rightarrow> nat list" where
  "shutdown_tasks q = map fst (k_workers q) @ k_webhooks q"

definition queue_finally :: "bool \<Rightarrow> queue_end \<Rightarrow> queue_end" where
  "queue_finally timed_out e = (if timed_out then QRaised TimeoutError else e)"

text \<open>\<open>queue_with_signal\<close>: whether \<open>SIGINT\<close> is raised.\<close>

definition queue_with_signal :: "queue_end \<Rightarrow> bool" where
  "queue_with_signal e = (case e of QCancelled \<Rightarrow> False | QRaised _ \<Rightarrow> True)"

section \<open>Metrics\<close>

definition get_num_workers :: "'q scheduler \<Rightarrow> nat" where
  "get_num_workers q = length (k_workers q)"

record worker_metrics =
  m_max :: int
  m_active :: int
  m_available :: int

definition get_metrics :: "queue_config \<Rightarrow> 'q scheduler \<Rightarrow> worker_metrics" where
  "get_metrics cfg q =
     \<lparr>m_max = int (qc_concurrency cfg), m_active = int (get_num_workers q),
      m_available = int (qc_concurrency cfg) - int (get_num_workers q)\<rparr>"

end
