(* ===== verification/Worker_Safety.thy ===== *)
theory Worker_Safety
  imports Worker_Queue Run_Streams
begin

text \<open>
  The pool of runners is conserved: along every interleaving of scheduler iterations, finished
  workers, callbacks, webhooks and operations of the API, each runner is in exactly one place, so
  that the number of active workers is bounded and a claimed run always finds a runner. And what an
  exception in an iteration does.
\<close>

section \<open>Interleavings\<close>

inductive scheduler_step :: "'q queue_ops \<Rightarrow> queue_config \<Rightarrow> env \<Rightarrow> 'q scheduler \<times> sys \<Rightarrow> 'q scheduler \<times> sys \<Rightarrow> bool"
  for ops cfg env where
  schedule: "qo_qsize ops (k_runners (requeue_expired ops q)) > 0 \<Longrightarrow>
    schedule_once ops cfg env readings (requeue_expired ops q) s = (Inr (), q', s') \<Longrightarrow>
    scheduler_step ops cfg env (q, s) (q', s')"
| finish: "map_of (k_workers q) t = Some w \<Longrightarrow>
    scheduler_step ops cfg env (q, s) (cleanup ops cfg loop_closed t (w_runner w) outcome q, s)"
| returned: "scheduler_step ops cfg env (q, s) (put_returning ops q, s)"
| hook: "scheduler_step ops cfg env (q, s) (webhook_done t q, s)"
| others: "scheduler_step ops cfg env (q, s) (q, s')"

inductive scheduler_reachable :: "'q queue_ops \<Rightarrow> queue_config \<Rightarrow> env \<Rightarrow> 'q scheduler \<Rightarrow> sys \<Rightarrow> bool" for ops cfg env where
  init: "scheduler_reachable ops cfg env (new_scheduler ops cfg) s"
| step: "scheduler_reachable ops cfg env q s \<Longrightarrow> scheduler_step ops cfg env (q, s) (q', s') \<Longrightarrow>
    scheduler_reachable ops cfg env q' s'"

lemma runs_stats_returns: "\<exists>s'. when_act b (bind (runs_stats env) (\<lambda>_. ret ())) s = (Inr (), s')"
  by (auto simp: when_act_def runs_stats_def act_defs Let_def)

section \<open>The contract of the pool\<close>

locale runner_pool =
  fixes ops :: "'q queue_ops"
    and items :: "'q \<Rightarrow> nat list"
    and n :: nat
  assumes new_empty: "items (qo_new ops n) = []"
    and qsize: "qo_qsize ops p = length (items p)"
    and get_empty: "items p = [] \<Longrightarrow> qo_get_nowait ops p = None"
    and get_first: "items p = r # rs \<Longrightarrow> \<exists>p'. qo_get_nowait ops p = Some (r, p') \<and> items p' = rs"
    and put_room: "length (items p) < n \<Longrightarrow> \<exists>p'. qo_put_nowait ops r p = Some p' \<and> items p' = items p @ [r]"
begin

text \<open>Every runner, wherever it is.\<close>

definition held :: "'q scheduler \<Rightarrow> nat multiset" where
  "held q = mset (items (k_runners q)) + mset (k_returning q) + mset (k_expired q) + mset (map (w_runner \<circ> snd) (k_workers q))"

definition pool_ok :: "'q scheduler \<Rightarrow> bool" where
  "pool_ok q \<longleftrightarrow> held q = mset [0..<n] \<and> distinct (map fst (k_workers q)) \<and> (\<forall>t \<in> fst ` set (k_workers q). t < k_next_task q)"

lemma held_size:
  assumes "pool_ok q"
  shows "length (items (k_runners q)) + length (k_returning q) + length (k_expired q) + length (k_workers q) = n"
proof -
  have "size (held q) = size (mset [0..<n])" using assms by (simp only: pool_ok_def)
  then show ?thesis by (simp add: held_def)
qed

lemma put_all_room:
  "length (items p) + length rs \<le> n \<Longrightarrow> \<exists>p'. put_all ops rs p = (p', []) \<and> items p' = items p @ rs"
proof (induction rs arbitrary: p)
  case (Cons r rs)
  obtain p' where "qo_put_nowait ops r p = Some p'" "items p' = items p @ [r]"
    using put_room [of p r] Cons.prems by auto
  then show ?case using Cons.IH [of p'] Cons.prems by auto
qed simp

lemma new_pool_ok: "qc_concurrency cfg = n \<Longrightarrow> pool_ok (new_scheduler ops cfg)"
  using put_all_room [of "qo_new ops n" "[0..<n]"] new_empty
  by (auto simp: pool_ok_def held_def new_scheduler_def)

lemma requeue_ok:
  assumes "pool_ok q"
  shows "pool_ok (requeue_expired ops q)" and "k_workers (requeue_expired ops q) = k_workers q"
    and "k_expired (requeue_expired ops q) = []"
proof -
  obtain p' where p': "put_all ops (k_expired q) (k_runners q) = (p', [])" "items p' = items (k_runners q) @ k_expired q"
    using put_all_room [of "k_runners q" "k_expired q"] held_size [OF assms] by auto
  then show "pool_ok (requeue_expired ops q)" "k_workers (requeue_expired ops q) = k_workers q"
    "k_expired (requeue_expired ops q) = []"
    using assms by (auto simp: requeue_expired_def pool_ok_def held_def ac_simps)
qed

lemma put_one:
  assumes "length (items (k_runners q)) < n"
  obtains p where "qo_put_nowait ops r (k_runners q) = Some p" and "items p = items (k_runners q) @ [r]"
  using put_room [OF assms] by blast

lemma returning_ok:
  assumes "pool_ok q"
  shows "pool_ok (put_returning ops q)"
proof (cases "k_returning q")
  case (Cons r rs)
  then have "length (items (k_runners q)) < n" using held_size [OF assms] by simp
  then obtain p where "qo_put_nowait ops r (k_runners q) = Some p" "items p = items (k_runners q) @ [r]"
    by (rule put_one)
  then show ?thesis using assms Cons by (simp add: put_returning_def pool_ok_def held_def)
qed (use assms in \<open>simp add: put_returning_def\<close>)

lemma removed_worker:
  assumes "distinct (map fst ws)" and "map_of ws t = Some w"
  shows "mset (map (w_runner \<circ> snd) ws) = add_mset (w_runner w) (mset (map (w_runner \<circ> snd) (AList.delete t ws)))"
  using assms
proof (induction ws)
  case (Cons x ws)
  show ?case
  proof (cases "fst x = t")
    case True
    then have "t \<notin> fst ` set ws" using Cons.prems(1) by auto
    then have "AList.delete t ws = ws" by (rule AList.delete_id)
    then show ?thesis using True Cons.prems(2) by (cases x) (simp del: AList.delete_eq)
  next
    case False
    then show ?thesis using Cons.IH Cons.prems by (cases x) (simp add: ac_simps)
  qed
qed simp

lemma give_back_ok:
  assumes "held q + {#r#} = mset [0..<n]"
  shows "held (give_back ops cfg loop_closed r q) = mset [0..<n]"
    and "k_workers (give_back ops cfg loop_closed r q) = k_workers q"
    and "k_next_task (give_back ops cfg loop_closed r q) = k_next_task q"
proof -
  have "size (held q + {#r#}) = n" using assms by simp
  then have "length (items (k_runners q)) < n" by (simp add: held_def)
  then obtain p where "qo_put_nowait ops r (k_runners q) = Some p" "items p = items (k_runners q) @ [r]"
    by (rule put_one)
  then show "held (give_back ops cfg loop_closed r q) = mset [0..<n]"
    "k_workers (give_back ops cfg loop_closed r q) = k_workers q"
    "k_next_task (give_back ops cfg loop_closed r q) = k_next_task q"
    using assms by (auto simp: give_back_def held_def)
qed

lemma cleanup_ok:
  assumes "pool_ok q" and "map_of (k_workers q) t = Some w"
  shows "pool_ok (cleanup ops cfg loop_closed t (w_runner w) outcome q)"
proof -
  let ?q = "q\<lparr>k_workers := AList.delete t (k_workers q)\<rparr>"
  let ?g = "give_back ops cfg loop_closed (w_runner w) ?q"
  have "held ?q + {#w_runner w#} = mset [0..<n]"
    using removed_worker [of "k_workers q" t w] assms by (simp add: pool_ok_def held_def)
  note g = give_back_ok [OF this, of cfg loop_closed]
  have "pool_ok ?g"
    unfolding pool_ok_def g using assms(1) by (auto simp: pool_ok_def AList.delete_eq distinct_map_filter)
  moreover have "pool_ok (?g\<lparr>k_webhooks := x, k_next_task := Suc (k_next_task ?g)\<rparr>)" for x
    using \<open>pool_ok ?g\<close> by (auto simp: pool_ok_def held_def less_SucI)
  ultimately show ?thesis by (auto simp: cleanup_def Let_def split: worker_outcome.splits bool.splits)
qed

text \<open>Starting workers: as long as the pool has a runner for each candidate, the only exceptions are
  those of the run itself.\<close>

lemma start_worker_ok:
  assumes "pool_ok q" and "items (k_runners q) = x # xs"
  shows "\<exists>q'. start_worker ops cfg r attempt q = (map_sum id (\<lambda>_. ()) (res_bind (run_graph_id r) (js_run cfg)), q') \<and>
    set (k_workers q) \<subseteq> set (k_workers q') \<and>
    (\<forall>js. res_bind (run_graph_id r) (js_run cfg) = Inr js \<longrightarrow> pool_ok q' \<and> items (k_runners q') = xs)"
proof -
  obtain p where p: "qo_get_nowait ops (k_runners q) = Some (x, p)" "items p = xs"
    using get_first [OF assms(2)] by blast
  show ?thesis
  proof (cases "res_bind (run_graph_id r) (js_run cfg)")
    case (Inl e)
    then show ?thesis using p by (auto simp: start_worker_def)
  next
    case (Inr js)
    have "pool_ok (q\<lparr>k_runners := p, k_workers := (k_next_task q, t) # k_workers q, k_next_task := Suc (k_next_task q)\<rparr>)"
      if "w_runner t = x" for t
      using assms p(2) that by (auto simp: pool_ok_def held_def less_SucI)
    then show ?thesis using p Inr by (auto simp: start_worker_def Let_def)
  qed
qed

text \<open>An exception in the loop comes from the graph of a run; without one the pool is whole again.\<close>

definition start_result :: "queue_config \<Rightarrow> run list \<Rightarrow> 'q scheduler \<Rightarrow> unit res \<Rightarrow> 'q scheduler \<Rightarrow> bool" where
  "start_result cfg rs q res q' \<longleftrightarrow> set (k_workers q) \<subseteq> set (k_workers q') \<and>
     (case res of Inr _ \<Rightarrow> pool_ok q' | Inl e \<Rightarrow> \<exists>r \<in> set rs. res_bind (run_graph_id r) (js_run cfg) = Inl e)"

lemma start_result_mono:
  "start_result cfg rs q1 res q' \<Longrightarrow> set rs \<subseteq> set rs' \<Longrightarrow> set (k_workers q) \<subseteq> set (k_workers q1) \<Longrightarrow> start_result cfg rs' q res q'"
  by (auto simp: start_result_def split: sum.splits)

lemma claim_run_cases:
  assumes "claim_run r s = (c, s')"
  obtains (none) "c = Inr None" | (some) attempt where "c = Inr (Some (r\<lparr>r_status := RRunning\<rparr>, attempt))"
  using assms by (auto simp: claim_run_def act_defs Let_def split: if_splits prod.splits)

lemma claim_and_start_ok:
  assumes "pool_ok q" and "length rs \<le> length (items (k_runners q))" and "claim_and_start ops cfg rs q s = (res, q', s')"
  shows "start_result cfg rs q res q'"
  using assms
proof (induction rs arbitrary: q s)
  case Nil
  then show ?case by (auto simp: start_result_def)
next
  case (Cons r rs)
  obtain c t where claim: "claim_run r s = (c, t)" by fastforce
  then show ?case
  proof (cases rule: claim_run_cases)
    case none
    then have "start_result cfg rs q res q'" using Cons claim by (simp add: Suc_le_eq less_imp_le)
    then show ?thesis by (rule start_result_mono) auto
  next
    case (some attempt)
    let ?q = "q\<lparr>k_got_run := True\<rparr>" and ?r = "r\<lparr>r_status := RRunning\<rparr>"
    obtain x xs where xs: "items (k_runners ?q) = x # xs"
      using Cons.prems(2) by (cases "items (k_runners q)") auto
    have "pool_ok ?q" using Cons.prems(1) by (simp add: pool_ok_def held_def)
    then obtain q1 where q1: "start_worker ops cfg ?r attempt ?q = (map_sum id (\<lambda>_. ()) (res_bind (run_graph_id r) (js_run cfg)), q1)"
      "set (k_workers q) \<subseteq> set (k_workers q1)"
      "\<forall>js. res_bind (run_graph_id r) (js_run cfg) = Inr js \<longrightarrow> pool_ok q1 \<and> items (k_runners q1) = xs"
      using start_worker_ok [OF _ xs, of cfg ?r attempt] by (auto simp: run_graph_id_def)
    show ?thesis
    proof (cases "res_bind (run_graph_id r) (js_run cfg)")
      case (Inl e)
      then show ?thesis using q1(1,2) some claim Cons.prems(3) by (auto simp: start_result_def)
    next
      case (Inr js)
      then have "claim_and_start ops cfg rs q1 t = (res, q', s')" using q1(1) some claim Cons.prems(3) by simp
      then have "start_result cfg rs q1 res q'" using Cons.IH [of q1 t] q1(3) Inr xs Cons.prems(2) by simp
      then show ?thesis by (rule start_result_mono) (use q1(2) in auto)
    qed
  qed
qed

lemma schedule_once_ok:
  assumes "pool_ok q" and "schedule_once ops cfg env readings q s = (res, q', s')"
  shows "start_result cfg (s_runs s) q res q'"
proof -
  obtain t1 t2 t3 t4 where readings: "readings = (t1, t2, t3, t4)" by (cases readings)
  define calc where "calc = interval_over (k_last_stats q) t2 (qc_stats_interval cfg)"
  define q0 where "q0 = begin_iteration calc t3 q"
  let ?s = "s\<lparr>s_clock := Suc (s_clock s)\<rparr>"
  let ?rs = "take (qo_qsize ops (k_runners q0)) (due_runs (e_clock env (s_clock s)) (s_runs s))"
  have q0: "pool_ok q0" "k_workers q0 = k_workers q"
    using assms(1) by (auto simp: q0_def begin_iteration_def pool_ok_def held_def)
  obtain res1 q1 s1 where run: "claim_and_start ops cfg ?rs q0 ?s = (res1, q1, s1)" by (metis prod_cases3)
  have "start_result cfg ?rs q0 res1 q1"
    by (rule claim_and_start_ok [OF q0(1) _ run]) (simp add: qsize)
  then have ok: "start_result cfg (s_runs s) q res1 q1"
    by (rule start_result_mono) (use set_take_subset [of "qo_qsize ops (k_runners q0)"] q0(2) in \<open>fastforce simp: set_due_runs\<close>)+
  obtain s2 where stats: "when_act calc (bind (runs_stats env) (\<lambda>_. ret ())) s1 = (Inr (), s2)"
    using runs_stats_returns by blast
  have "res = res1 \<and> (q' = q1 \<or> q' = q1\<lparr>k_last_sweep := Some t4\<rparr>)"
    using assms(2) run stats unfolding schedule_once_def readings Let_def prod.case calc_def [symmetric] q0_def [symmetric]
    by (cases res1) (auto simp: datetime_now_def)
  moreover have "pool_ok (q1\<lparr>k_last_sweep := x\<rparr>) = pool_ok q1" for x by (simp add: pool_ok_def held_def)
  ultimately show ?thesis using ok by (auto simp: start_result_def split: sum.splits)
qed

lemma scheduler_pool_ok:
  assumes "scheduler_reachable ops cfg env q s" and "qc_concurrency cfg = n"
  shows "pool_ok q"
  using assms(1)
proof (induction rule: scheduler_reachable.induct)
  case (init s)
  then show ?case by (rule new_pool_ok [OF assms(2)])
next
  case (step q s q' s')
  from step.hyps(2) show ?case
  proof cases
    case (schedule readings)
    then show ?thesis using schedule_once_ok [OF requeue_ok(1) [OF step.IH]] by (fastforce simp: start_result_def)
  next
    case (hook t)
    then show ?thesis using step.IH by (simp add: webhook_done_def pool_ok_def held_def)
  qed (use step.IH in \<open>auto intro: cleanup_ok returning_ok\<close>)
qed

text \<open>An exception for the first candidate.\<close>

lemma first_start_fails:
  assumes "0 < qo_qsize ops (k_runners q)" and "claim_run r s = (Inr (Some (r\<lparr>r_status := RRunning\<rparr>, attempt)), s')"
    and "res_bind (run_graph_id r) (js_run cfg) = Inl e"
  shows "\<exists>q'. claim_and_start ops cfg (r # rs) q s = (Inl e, q', s') \<and> k_workers q' = k_workers q \<and>
    items (k_runners q') = tl (items (k_runners q))"
proof -
  obtain x xs where xs: "items (k_runners q) = x # xs"
    using assms(1) qsize by (cases "items (k_runners q)") auto
  obtain p where "qo_get_nowait ops (k_runners q) = Some (x, p)" "items p = xs" using get_first [OF xs] by blast
  then show ?thesis using assms xs by (auto simp: start_worker_def run_graph_id_def)
qed

end

text \<open>The queue of \<open>asyncio\<close> with a maximal size, which \<open>AsyncQueue\<close> extends.\<close>

definition asyncio_queue :: "nat \<Rightarrow> nat list queue_ops" where
  "asyncio_queue n =
     \<lparr>qo_new = (\<lambda>_. []), qo_qsize = length,
      qo_get_nowait = (\<lambda>xs. case xs of [] \<Rightarrow> None | x # ys \<Rightarrow> Some (x, ys)),
      qo_put_nowait = (\<lambda>x xs. if 0 < n \<and> n \<le> length xs then None else Some (xs @ [x]))\<rparr>"

interpretation aq: runner_pool "asyncio_queue n" id n
  by unfold_locales (auto simp: asyncio_queue_def)

section \<open>The properties\<close>

text \<open>C31: The pool of workers is bounded and never runs dry under a claimed run. Along every
  interleaving of scheduler iterations, finished workers, callbacks and changes by the API, each of
  the runners is in exactly one of the pool, the callbacks, the expired list and the active workers;
  so the active workers never exceed the configured number, the metrics report a non-negative
  number of available ones, and an iteration raises no exception unless the graph of a run does.\<close>

theorem workers_bounded:
  assumes "runner_pool ops items (qc_concurrency cfg)" and "scheduler_reachable ops cfg env q s"
  shows "get_num_workers q \<le> qc_concurrency cfg \<and> 0 \<le> m_available (get_metrics cfg q) \<and>
    m_available (get_metrics cfg q) = int (length (items (k_runners q)) + length (k_returning q) + length (k_expired q)) \<and>
    mset (items (k_runners q) @ k_returning q @ k_expired q @ map (w_runner \<circ> snd) (k_workers q)) = mset [0..<qc_concurrency cfg] \<and>
    (\<forall>readings. (\<forall>r \<in> set (s_runs s). \<exists>js. res_bind (run_graph_id r) (js_run cfg) = Inr js) \<longrightarrow>
       fst (schedule_once ops cfg env readings (requeue_expired ops q) s) = Inr ())"
proof -
  note ok = runner_pool.scheduler_pool_ok [OF assms refl]
  have "fst (schedule_once ops cfg env readings (requeue_expired ops q) s) = Inr ()"
    if "\<forall>r \<in> set (s_runs s). \<exists>js. res_bind (run_graph_id r) (js_run cfg) = Inr js" for readings
  proof -
    obtain res q' s' where once: "schedule_once ops cfg env readings (requeue_expired ops q) s = (res, q', s')"
      by (metis prod_cases3)
    from runner_pool.schedule_once_ok [OF assms(1) runner_pool.requeue_ok(1) [OF assms(1) ok] once] that
    show ?thesis using once by (cases res) (fastforce simp: runner_pool.start_result_def [OF assms(1)])+
  qed
  moreover have "mset (items (k_runners q) @ k_returning q @ k_expired q @ map (w_runner \<circ> snd) (k_workers q)) = mset [0..<qc_concurrency cfg]"
    using ok unfolding runner_pool.pool_ok_def [OF assms(1)] runner_pool.held_def [OF assms(1)] by (simp only: mset_append add.assoc)
  ultimately show ?thesis
    using runner_pool.held_size [OF assms(1) ok] by (auto simp: get_num_workers_def get_metrics_def)
qed

text \<open>C32: One failing run takes the server down, although the handler of the scheduler is meant to keep
  it running. When looking up the graph of the first due run raises, the run is left running without a
  worker, every active worker is cancelled, and the process is sent \<open>SIGINT\<close>, because the handler itself
  raises.\<close>

theorem scheduler_failure_fatal:
  assumes "runner_pool ops items (qc_concurrency cfg)" and "scheduler_reachable ops cfg env q s"
    and "distinct (map r_id (s_runs s))" and "due_runs (e_clock env (s_clock s)) (s_runs s) = r # rs"
    and "r_thread r \<in> t_id ` set (s_threads s)" and "\<not> has_running (r_thread r) (s_runs s)"
    and "res_bind (run_graph_id r) (js_run cfg) = Inl e" and "0 < qo_qsize ops (k_runners (requeue_expired ops q))"
  shows "\<exists>q' s'. schedule_once ops cfg env readings (requeue_expired ops q) s = (Inl e, q', s') \<and>
    r\<lparr>r_status := RRunning\<rparr> \<in> set (s_runs s') \<and> k_workers q' = k_workers q \<and>
    set (map fst (k_workers q)) \<subseteq> set (shutdown_tasks q') \<and>
    queue_with_signal (queue_finally timed_out (scheduler_failed e))"
proof -
  let ?q = "requeue_expired ops q" and ?s = "s\<lparr>s_clock := Suc (s_clock s)\<rparr>"
  obtain t1 t2 t3 t4 where readings: "readings = (t1, t2, t3, t4)" by (cases readings)
  have due: "r \<in> set (s_runs s)" "r_status r = RPending"
    using set_due_runs [of "e_clock env (s_clock s)" "s_runs s"] assms(4) by auto
  define s' where "s' = ?s\<lparr>s_retries := AList.update (r_id r) (dict_get (s_retries s) (r_id r) 0 + 1) (s_retries s),
    s_runs := claimed_runs [r] (s_runs s)\<rparr>"
  have claim: "claim_run r ?s = (Inr (Some (r\<lparr>r_status := RRunning\<rparr>, dict_get (s_retries s) (r_id r) 0 + 1)), s')"
    using claim_run_free [of ?s r] assms(3,5,6) due by (simp add: s'_def running_def has_running_busy)
  have "r\<lparr>r_status := RRunning\<rparr> \<in> set (s_runs s')"
    using due(1) by (force simp: s'_def claimed_runs_def running_def)
  define q0 where "q0 = begin_iteration (interval_over (k_last_stats ?q) t2 (qc_stats_interval cfg)) t3 ?q"
  have q0: "k_runners q0 = k_runners ?q" "k_workers q0 = k_workers q"
    using runner_pool.requeue_ok(2) [OF assms(1) runner_pool.scheduler_pool_ok [OF assms(1,2) refl]]
    by (simp_all add: q0_def begin_iteration_def)
  obtain m where m: "qo_qsize ops (k_runners q0) = Suc m" using assms(8) q0(1) by (metis gr0_implies_Suc)
  obtain q' where q': "claim_and_start ops cfg (r # take m rs) q0 ?s = (Inl e, q', s')" "k_workers q' = k_workers q"
    using runner_pool.first_start_fails [OF assms(1) _ claim assms(7), of q0 "take m rs"] m q0(2) by auto
  have "schedule_once ops cfg env readings ?q s = (Inl e, q', s')"
    unfolding schedule_once_def readings Let_def prod.case q0_def [symmetric] using q'(1) m assms(4)
    by (simp add: datetime_now_def)
  then show ?thesis
    using q'(2) \<open>r\<lparr>r_status := RRunning\<rparr> \<in> set (s_runs s')\<close>
    by (auto simp: shutdown_tasks_def queue_with_signal_def queue_finally_def scheduler_failed_def)
qed

text \<open>Two runners and one due run, whose graph is known or is not.\<close>

definition demo_config :: "bool res \<Rightarrow> queue_config" where
  "demo_config js = \<lparr>qc_concurrency = 2, qc_isolated_loops = False, qc_heartbeat = 120, qc_stats_interval = 60, qc_is_js_graph = \<lambda>_. js\<rparr>"

definition demo_due :: run where
  "demo_due = (demo_run 13 2 RPending 5)\<lparr>r_kwargs := [(''config'', PDict [(''configurable'', PDict [(''graph_id'', PStr ''g'')])])]\<rparr>"

definition demo_waiting :: sys where
  "demo_waiting = demo_queue\<lparr>s_runs := [demo_due]\<rparr>"

lemma demo_due_graph: "res_bind (run_graph_id demo_due) (js_run (demo_config js)) = js"
  by (cases js) (simp_all add: demo_due_def run_graph_id_def py_get_def dict_get_def js_run_def demo_config_def res_bind_def)

lemma demo_waiting_due:
  "s_runs demo_waiting = [demo_due]" "due_runs (e_clock demo_env (s_clock demo_waiting)) (s_runs demo_waiting) = [demo_due]"
  by (simp_all add: demo_waiting_def due_runs_def demo_due_def)

lemma demo_config_size: "qc_concurrency (demo_config js) = 2"
  by (simp add: demo_config_def)

lemma demo_new: "k_runners (new_scheduler (asyncio_queue 2) (demo_config js)) = [0, 1]"
  "k_expired (new_scheduler (asyncio_queue 2) (demo_config js)) = []" "k_workers (new_scheduler (asyncio_queue 2) (demo_config js)) = []"
  by (simp_all add: new_scheduler_def demo_config_def asyncio_queue_def numeral_2_eq_2)

lemma demo_requeued:
  "requeue_expired (asyncio_queue 2) (new_scheduler (asyncio_queue 2) (demo_config js)) = new_scheduler (asyncio_queue 2) (demo_config js)"
  by (simp add: requeue_expired_def demo_new)

theorem workers_bounded_witness:
  "fst (schedule_once (asyncio_queue 2) (demo_config (Inr False)) demo_env (0, 0, 0, 0) (new_scheduler (asyncio_queue 2) (demo_config (Inr False))) demo_waiting) = Inr () \<and>
   m_available (get_metrics (demo_config (Inr False)) (new_scheduler (asyncio_queue 2) (demo_config (Inr False)))) = 2"
proof -
  let ?cfg = "demo_config (Inr False)"
  have "\<forall>r \<in> set (s_runs demo_waiting). \<exists>js. res_bind (run_graph_id r) (js_run ?cfg) = Inr js"
    using demo_due_graph [of "Inr False"] by (auto simp: demo_waiting_due(1))
  then show ?thesis
    using workers_bounded [of "asyncio_queue 2" id ?cfg, OF _ scheduler_reachable.init, of demo_waiting demo_env] aq.runner_pool_axioms [of 2]
    by (simp add: demo_config_size demo_requeued get_metrics_def get_num_workers_def demo_new)
qed

theorem scheduler_failure_fatal_witness:
  "\<exists>q' s'. schedule_once (asyncio_queue 2) (demo_config (Inl KeyError)) demo_env (0, 0, 0, 0)
       (new_scheduler (asyncio_queue 2) (demo_config (Inl KeyError))) demo_waiting = (Inl KeyError, q', s') \<and>
     demo_due\<lparr>r_status := RRunning\<rparr> \<in> set (s_runs s') \<and> queue_with_signal (queue_finally False (scheduler_failed KeyError))"
proof -
  let ?ops = "asyncio_queue 2" and ?cfg = "demo_config (Inl KeyError)"
  have pool: "runner_pool ?ops id (qc_concurrency ?cfg)" using aq.runner_pool_axioms [of 2] by (simp add: demo_config_size)
  have "r_thread demo_due \<in> t_id ` set (s_threads demo_waiting)" "\<not> has_running (r_thread demo_due) (s_runs demo_waiting)"
    "distinct (map r_id (s_runs demo_waiting))"
    by (simp_all add: demo_waiting_def demo_due_def has_running_def)
  moreover have "0 < qo_qsize ?ops (k_runners (requeue_expired ?ops (new_scheduler ?ops ?cfg)))"
    unfolding demo_requeued demo_new by (simp add: asyncio_queue_def)
  ultimately show ?thesis
    using scheduler_failure_fatal [OF pool scheduler_reachable.init _ demo_waiting_due(2), of KeyError "(0, 0, 0, 0)" False]
    unfolding demo_requeued by (auto simp: demo_due_graph)
qed

end
