(* ===== verification/Postgres.thy ===== *)
theory Postgres
  imports Delta_Walk Thread_TTL Checkpoint
begin

text \<open>
  The optional PostgreSQL helpers (\<open>postgres.py\<close>): run deletion and pruning of the saver, as
  transformations of its three tables, the numeric filter conditions of the store, the precision of
  its TTL column and its configuration. The statements are the ones the source sends; a transaction
  is one step. The base classes belong to \<open>langgraph\<close>: \<open>adelete_thread\<close> and the inherited filter
  conditions are parameters.
\<close>

section \<open>Tables\<close>

text \<open>A row of \<open>checkpoints\<close> as the query selects it: the channel versions, the keys of
  \<open>counters_since_delta_snapshot\<close> and the run, each of which the JSON document may lack.\<close>

record pg_row =
  pg_thread :: string
  pg_ns :: string
  pg_id :: string
  pg_parent :: "string option"
  pg_versions :: "(string \<times> version) list option"
  pg_delta :: "string list option"
  pg_run :: "string option"

record pg_blob =
  pb_thread :: string
  pb_ns :: string
  pb_channel :: string
  pb_version :: string
  pb_type :: string
  pb_data :: string

record pg_write =
  pw_thread :: string
  pw_ns :: string
  pw_id :: string
  pw_data :: string

record pg_db =
  db_checkpoints :: "pg_row list"
  db_blobs :: "pg_blob list"
  db_writes :: "pg_write list"

type_synonym pg_key = "string \<times> string"

text \<open>The text of a version, which is the same for \<open>str()\<close> and for the operator \<open>->>\<close>.\<close>

definition version_text :: "version \<Rightarrow> string" where
  "version_text v = (case v of VStr s \<Rightarrow> s | VInt i \<Rightarrow> show_int i)"

definition opt_list :: "'a list option \<Rightarrow> 'a list" where
  "opt_list x = (case x of None \<Rightarrow> [] | Some ys \<Rightarrow> ys)"

definition row_version :: "pg_row \<Rightarrow> string \<Rightarrow> string option" where
  "row_version r ch = map_option version_text (map_of (opt_list (pg_versions r)) ch)"

definition row_key :: "pg_row \<Rightarrow> pg_key" where
  "row_key r = (pg_ns r, pg_id r)"

section \<open>Removing history\<close>

definition pg_rows :: "string \<Rightarrow> pg_db \<Rightarrow> (pg_key \<times> pg_row) list" where
  "pg_rows t db = map (\<lambda>r. (row_key r, r)) (filter (\<lambda>r. pg_thread r = t) (db_checkpoints db))"

text \<open>\<open>latest[ns] = max(checkpoint_id, latest.get(ns, ""))\<close> over the rows.\<close>

definition pg_latest :: "pg_key list \<Rightarrow> pg_key list" where
  "pg_latest ks = fold (\<lambda>(ns, i) latest. AList.update ns (max i (dict_get latest ns [])) latest) ks []"

definition pg_candidates :: "string list option \<Rightarrow> (pg_key \<times> pg_row) list \<Rightarrow> pg_key list" where
  "pg_candidates run_ids rows =
     (case run_ids of
        Some rs \<Rightarrow> map fst (filter (\<lambda>(_, r). pg_run r \<in> Some ` set rs) rows)
      | None \<Rightarrow> filter (\<lambda>k. k \<notin> set (pg_latest (map fst rows))) (map fst rows))"

definition pg_materialized :: "string \<Rightarrow> pg_db \<Rightarrow> (string \<times> string \<times> string) list" where
  "pg_materialized t db =
     map (\<lambda>b. (pb_ns b, pb_channel b, pb_version b)) (filter (\<lambda>b. pb_thread b = t \<and> pb_type b \<noteq> ''empty'') (db_blobs db))"

text \<open>\<open>str((row["versions"] or {}).get(channel))\<close>: a missing version has the text \<open>None\<close>.\<close>

definition pg_sat :: "(string \<times> string \<times> string) list \<Rightarrow> pg_row \<Rightarrow> string \<Rightarrow> bool" where
  "pg_sat mats r ch =
     ((pg_ns r, ch, case row_version r ch of None \<Rightarrow> ''None'' | Some v \<Rightarrow> v) \<in> set mats)"

definition pg_needed :: "(string \<times> string \<times> string) list \<Rightarrow> pg_row \<Rightarrow> string list" where
  "pg_needed mats r =
     filter (\<lambda>ch. has_key (opt_list (pg_versions r)) ch \<and> \<not> pg_sat mats r ch) (opt_list (pg_delta r))"

definition pg_parent_key :: "pg_row \<Rightarrow> pg_key option" where
  "pg_parent_key r = (case pg_parent r of None \<Rightarrow> None | Some p \<Rightarrow> if p = [] then None else Some (pg_ns r, p))"

definition pg_protected :: "(pg_key \<times> pg_row) list \<Rightarrow> (string \<times> string \<times> string) list \<Rightarrow> pg_key list \<Rightarrow> pg_key list" where
  "pg_protected rows mats candidates =
     concat (map (\<lambda>(k, r). delta_walk rows pg_parent_key (pg_sat mats) [] (pg_needed mats r) (pg_parent_key r))
       (filter (\<lambda>(k, r). k \<notin> set candidates) rows))"

definition pg_removed :: "string list option \<Rightarrow> string \<Rightarrow> pg_db \<Rightarrow> pg_key list" where
  "pg_removed run_ids t db =
     (let rows = pg_rows t db; candidates = pg_candidates run_ids rows
      in filter (\<lambda>k. k \<notin> set (pg_protected rows (pg_materialized t db) candidates)) candidates)"

definition delete_writes :: "string \<Rightarrow> pg_key list \<Rightarrow> pg_db \<Rightarrow> pg_db" where
  "delete_writes t removed db =
     db\<lparr>db_writes := filter (\<lambda>w. \<not> (pw_thread w = t \<and> (pw_ns w, pw_id w) \<in> set removed)) (db_writes db)\<rparr>"

definition delete_checkpoints :: "string \<Rightarrow> pg_key list \<Rightarrow> pg_db \<Rightarrow> pg_db" where
  "delete_checkpoints t removed db =
     db\<lparr>db_checkpoints := filter (\<lambda>r. \<not> (pg_thread r = t \<and> row_key r \<in> set removed)) (db_checkpoints db)\<rparr>"

definition refers :: "pg_row \<Rightarrow> pg_blob \<Rightarrow> bool" where
  "refers r b \<longleftrightarrow> pg_thread r = pb_thread b \<and> pg_ns r = pb_ns b \<and> row_version r (pb_channel b) = Some (pb_version b)"

definition delete_blobs :: "string \<Rightarrow> pg_db \<Rightarrow> pg_db" where
  "delete_blobs t db =
     db\<lparr>db_blobs := filter (\<lambda>b. \<not> (pb_thread b = t \<and> \<not> (\<exists>r \<in> set (db_checkpoints db). refers r b))) (db_blobs db)\<rparr>"

definition remove_thread_history :: "string list option \<Rightarrow> string \<Rightarrow> pg_db \<Rightarrow> pg_db" where
  "remove_thread_history run_ids t db =
     (let removed = pg_removed run_ids t db
      in if pg_rows t db = [] \<or> removed = [] then db
         else delete_blobs t (delete_checkpoints t removed (delete_writes t removed db)))"

definition remove_history :: "string list \<Rightarrow> string list option \<Rightarrow> pg_db \<Rightarrow> pg_db" where
  "remove_history thread_ids run_ids db =
     (let ts = (case run_ids of
                  None \<Rightarrow> thread_ids
                | Some rs \<Rightarrow> remdups (map pg_thread (filter (\<lambda>r. pg_run r \<in> Some ` set rs) (db_checkpoints db))))
      in fold (remove_thread_history run_ids) ts db)"

definition adelete_for_runs :: "string list \<Rightarrow> pg_db \<Rightarrow> pg_db" where
  "adelete_for_runs run_ids db = (if run_ids = [] then db else remove_history [] (Some run_ids) db)"

definition pg_aprune :: "(string \<Rightarrow> pg_db \<Rightarrow> pg_db) \<Rightarrow> string list \<Rightarrow> string \<Rightarrow> pg_db \<Rightarrow> pg_db res" where
  "pg_aprune adelete_thread thread_ids strategy db =
     (if strategy \<notin> {''keep_latest'', ''delete'', ''delete_all''} then Inl ValueError
      else if thread_ids = [] then Inr db
      else if strategy \<in> {''delete'', ''delete_all''} then Inr (fold adelete_thread thread_ids db)
      else Inr (remove_history thread_ids None db))"

section \<open>The store\<close>

definition filter_symbols :: "(string \<times> string) list" where
  "filter_symbols = [(''$gt'', ''>''), (''$gte'', ''>=''), (''$lt'', ''<''), (''$lte'', ''<='')]"

text \<open>\<open>isinstance(value, (int, float)) and not isinstance(value, bool)\<close>.\<close>

definition numeric_value :: "pyval \<Rightarrow> bool" where
  "numeric_value v = (case v of PInt _ \<Rightarrow> True | PFloat _ \<Rightarrow> True | _ \<Rightarrow> False)"

definition get_filter_condition ::
  "(string \<Rightarrow> string \<Rightarrow> pyval \<Rightarrow> string \<times> pyval list) \<Rightarrow> string \<Rightarrow> string \<Rightarrow> pyval \<Rightarrow> string \<times> pyval list" where
  "get_filter_condition inherited key op value =
     (case map_of filter_symbols op of
        Some symbol \<Rightarrow>
          if numeric_value value
          then (''CASE WHEN jsonb_typeof(value->%s) = '' @ [CHR 0x27] @ ''number'' @ [CHR 0x27] @
                '' THEN (value->>%s)::numeric END '' @ symbol @ '' %s'', [PStr key, PStr key, value])
          else inherited key op value
      | None \<Rightarrow> inherited key op value)"

text \<open>The type of the column \<open>ttl_minutes\<close>, \<open>None\<close> when the catalogue has no such column. The
  statement that alters it fails then.\<close>

datatype ttl_column = IntegerColumn | DoubleColumn

definition ensure_store_ttl_precision :: "ttl_column option \<Rightarrow> ttl_column option option" where
  "ensure_store_ttl_precision column =
     (case column of
        Some DoubleColumn \<Rightarrow> Some column
      | Some IntegerColumn \<Rightarrow> Some (Some DoubleColumn)
      | None \<Rightarrow> None)"

record store_ttl =
  st_default_ttl :: rat
  st_refresh_on_read :: bool
  st_sweep_interval :: rat

definition store_ttl_config :: "(string \<Rightarrow> string option) \<Rightarrow> store_ttl res" where
  "store_ttl_config getenv =
     (let read = (\<lambda>k d. case getenv k of None \<Rightarrow> d | Some v \<Rightarrow> v) in
      res_bind (float_of_string (read ''STORE_TTL_DEFAULT_MINUTES'' ''10080'')) (\<lambda>ttl.
      res_bind (float_of_string (read ''STORE_TTL_SWEEP_INTERVAL_MINUTES'' ''1'')) (\<lambda>interval.
        case (ttl, interval) of
          (Finite x, Finite y) \<Rightarrow>
            if x < 0 then Inl ValueError
            else if y \<le> 0 then Inl ValueError
            else Inr \<lparr>st_default_ttl = x,
                      st_refresh_on_read = py_lower (py_strip (read ''STORE_TTL_REFRESH_ON_READ'' ''true'')) \<in> {''1'', ''true'', ''yes'', ''on''},
                      st_sweep_interval = y\<rparr>
        | _ \<Rightarrow> Inl ValueError)))"

text \<open>\<open>os.getenv(key) or os.environ["DATABASE_URL"]\<close> of the hooks \<open>store\<close> and \<open>checkpointer\<close>.\<close>

definition database_url :: "string \<Rightarrow> (string \<Rightarrow> string option) \<Rightarrow> string res" where
  "database_url key getenv =
     (case getenv key of
        Some (c # cs) \<Rightarrow> Inr (c # cs)
      | _ \<Rightarrow> (case getenv ''DATABASE_URL'' of None \<Rightarrow> Inl KeyError | Some u \<Rightarrow> Inr u))"

section \<open>The hooks\<close>

text \<open>The hooks \<open>store\<close> and \<open>checkpointer\<close> as the stages they run, with the outcome of each stage as a
  parameter; what the server does while a hook is suspended is the stage \<open>ServeStage\<close>.\<close>

datatype hook_stage = OpenPool | WaitPool | SetupStage | FixPrecision | StartSweeper | ServeStage | StopSweeper | ClosePool

type_synonym hook_run = "hook_stage list \<times> unit res"

definition run_stage :: "(hook_stage \<Rightarrow> unit res) \<Rightarrow> hook_stage \<Rightarrow> hook_run" where
  "run_stage out x = ([x], out x)"

definition and_then :: "hook_run \<Rightarrow> hook_run \<Rightarrow> hook_run" where
  "and_then a b = (case a of (xs, Inl e) \<Rightarrow> (xs, Inl e) | (xs, Inr _) \<Rightarrow> (xs @ fst b, snd b))"

text \<open>\<open>try: ... finally: ...\<close> and the exit of a context manager: an exception of the cleanup replaces the
  one before it.\<close>

definition and_finally :: "hook_run \<Rightarrow> hook_run \<Rightarrow> hook_run" where
  "and_finally a b = (fst a @ fst b, case snd b of Inl e \<Rightarrow> Inl e | Inr _ \<Rightarrow> snd a)"

definition store_hook :: "(string \<Rightarrow> string option) \<Rightarrow> (hook_stage \<Rightarrow> unit res) \<Rightarrow> hook_run" where
  "store_hook getenv out =
     (case res_bind (store_ttl_config getenv) (\<lambda>_. database_url ''STORE_DATABASE_URL'' getenv) of
        Inl e \<Rightarrow> ([], Inl e)
      | Inr _ \<Rightarrow>
          and_then (run_stage out OpenPool)
            (and_finally
              (and_then (run_stage out SetupStage) (and_then (run_stage out FixPrecision) (and_then (run_stage out StartSweeper)
                (and_finally (run_stage out ServeStage) (run_stage out StopSweeper)))))
              (run_stage out ClosePool)))"

text \<open>\<open>RuntimePostgresSaver.from_conn_string\<close> without a pipeline, and the hook that uses it.\<close>

definition saver_from_conn_string :: "(hook_stage \<Rightarrow> unit res) \<Rightarrow> hook_run \<Rightarrow> hook_run" where
  "saver_from_conn_string out body =
     and_then (run_stage out OpenPool) (and_finally (and_then (run_stage out WaitPool) body) (run_stage out ClosePool))"

definition checkpointer_hook :: "(string \<Rightarrow> string option) \<Rightarrow> (hook_stage \<Rightarrow> unit res) \<Rightarrow> hook_run" where
  "checkpointer_hook getenv out =
     (case database_url ''CHECKPOINT_DATABASE_URL'' getenv of
        Inl e \<Rightarrow> ([], Inl e)
      | Inr _ \<Rightarrow> saver_from_conn_string out (and_then (run_stage out SetupStage) (run_stage out ServeStage)))"

lemmas hook_defs = store_hook_def checkpointer_hook_def saver_from_conn_string_def and_then_def and_finally_def run_stage_def

text \<open>Whatever fails: a pool that was opened is closed, and a sweeper that was started is stopped. The
  server only runs on a store whose schema is set up.\<close>

lemma store_hook_cleans_up:
  assumes "store_hook getenv out = (xs, r)"
  shows "OpenPool \<in> set xs \<Longrightarrow> out OpenPool = Inr () \<Longrightarrow> ClosePool \<in> set xs"
    and "StartSweeper \<in> set xs \<Longrightarrow> out StartSweeper = Inr () \<Longrightarrow> StopSweeper \<in> set xs"
    and "ServeStage \<in> set xs \<Longrightarrow> out SetupStage = Inr () \<and> out FixPrecision = Inr ()"
  using assms by (auto simp: hook_defs split: sum.splits)

lemma checkpointer_hook_cleans_up:
  assumes "checkpointer_hook getenv out = (xs, r)"
  shows "OpenPool \<in> set xs \<Longrightarrow> out OpenPool = Inr () \<Longrightarrow> ClosePool \<in> set xs"
    and "ServeStage \<in> set xs \<Longrightarrow> out WaitPool = Inr () \<and> out SetupStage = Inr ()"
  using assms by (auto simp: hook_defs split: sum.splits)

end
