(* ===== verification/Postgres_Safety.thy ===== *)
theory Postgres_Safety
  imports Postgres
begin

text \<open>
  The PostgreSQL saver keeps what its survivors are rebuilt from: the retention contract of the
  ancestor walk holds for the rows it removes, over the tables of all threads and along the whole
  transaction.
\<close>

section \<open>What a checkpoint is rebuilt from\<close>

text \<open>The primary key, and versions that are no \<open>None\<close>.\<close>

definition pg_wf :: "pg_db \<Rightarrow> bool" where
  "pg_wf db \<longleftrightarrow> distinct (map (\<lambda>r. (pg_thread r, row_key r)) (db_checkpoints db)) \<and>
     (\<forall>b \<in> set (db_blobs db). pb_version b \<noteq> ''None'')"

definition writes_of :: "pg_db \<Rightarrow> pg_row \<Rightarrow> pg_write list" where
  "writes_of db r = filter (\<lambda>w. pw_thread w = pg_thread r \<and> (pw_ns w, pw_id w) = row_key r) (db_writes db)"

definition blobs_of :: "pg_db \<Rightarrow> pg_row \<Rightarrow> string \<Rightarrow> pg_blob list" where
  "blobs_of db r ch = filter (\<lambda>b. refers r b \<and> pb_channel b = ch) (db_blobs db)"

definition pg_path :: "pg_db \<Rightarrow> pg_row \<Rightarrow> string \<Rightarrow> pg_key list" where
  "pg_path db r ch =
     (let mats = pg_materialized (pg_thread r) db
      in row_key r #
         (if ch \<in> set (pg_needed mats r)
          then delta_walk (pg_rows (pg_thread r) db) pg_parent_key (pg_sat mats) [] [ch] (pg_parent_key r) else []))"

definition pg_inputs :: "pg_db \<Rightarrow> pg_row \<Rightarrow> string \<Rightarrow> (pg_row \<times> pg_write list \<times> pg_blob list) option list" where
  "pg_inputs db r ch =
     map (\<lambda>k. map_option (\<lambda>x. (x, writes_of db x, blobs_of db x ch)) (map_of (pg_rows (pg_thread r) db) k)) (pg_path db r ch)"

text \<open>The rows a call has to keep: those of other runs, or the latest of their namespace.\<close>

definition pg_must :: "string list option \<Rightarrow> pg_db \<Rightarrow> pg_row \<Rightarrow> bool" where
  "pg_must run_ids db r =
     (case run_ids of
        Some rs \<Rightarrow> pg_run r \<notin> Some ` set rs
      | None \<Rightarrow> (\<forall>x \<in> set (db_checkpoints db). pg_thread x = pg_thread r \<and> pg_ns x = pg_ns r \<longrightarrow> pg_id x \<le> pg_id r))"

lemma map_of_rows:
  assumes "pg_wf db"
  shows "map_of (pg_rows t db) k = Some r \<longleftrightarrow> r \<in> set (db_checkpoints db) \<and> pg_thread r = t \<and> row_key r = k"
proof -
  have "distinct (map fst (pg_rows t db))"
    using assms by (auto simp: pg_wf_def pg_rows_def distinct_map inj_on_def comp_def)
  then have "map_of (pg_rows t db) k = Some r \<longleftrightarrow> (k, r) \<in> set (pg_rows t db)" by (rule map_of_eq_Some_iff)
  then show ?thesis by (auto simp: pg_rows_def)
qed

lemma sat_blobs:
  assumes "pg_wf db" and "pg_thread r = t"
  shows "pg_sat (pg_materialized t db) r ch \<longleftrightarrow> (\<exists>b \<in> set (blobs_of db r ch). pb_type b \<noteq> ''empty'')"
  using assms by (cases "row_version r ch")
    (auto simp: pg_sat_def pg_materialized_def blobs_of_def refers_def pg_wf_def image_iff)

section \<open>Candidates\<close>

lemma pg_latest_max:
  assumes "(ns, i) \<in> set ks" and "\<And>j. (ns, j) \<in> set ks \<Longrightarrow> j \<le> i"
  shows "(ns, i) \<in> set (pg_latest ks)"
proof -
  have "map_of (fold (\<lambda>(ns, i) latest. AList.update ns (max i (dict_get latest ns [])) latest) ks l) ns =
      (if ns \<in> fst ` set ks then Some (fold max (map snd (filter (\<lambda>k. fst k = ns) ks)) (dict_get l ns [])) else map_of l ns)" for l
  proof (induction ks arbitrary: l)
    case (Cons k ks)
    show ?case
    proof (cases "ns \<in> fst ` set ks")
      case True
      then show ?thesis using Cons.IH by (cases k) (auto simp: dict_simps max.commute)
    next
      case False
      then have "filter (\<lambda>k. fst k = ns) ks = []" by (auto simp: filter_empty_conv)
      then show ?thesis using Cons.IH False by (cases k) (auto simp: dict_simps max.commute)
    qed
  qed simp
  moreover have "fold max (map snd (filter (\<lambda>k. fst k = ns) ks)) [] = i"
  proof -
    have "fold max xs x = Max (insert x (set xs))" for xs and x :: string
      by (metis List.finite_set Max.set_eq_fold list.simps(15))
    then show ?thesis using assms by (force intro!: Max_eqI)
  qed
  ultimately have "map_of (pg_latest ks) ns = Some i"
    using assms(1) by (force simp: pg_latest_def dict_get_def)
  then show ?thesis by (rule map_of_SomeD)
qed

lemma must_no_candidate:
  assumes "pg_wf db" and "r \<in> set (db_checkpoints db)" and "pg_must run_ids db r"
  shows "row_key r \<notin> set (pg_candidates run_ids (pg_rows (pg_thread r) db))"
proof (cases run_ids)
  case None
  have "row_key r \<in> set (pg_latest (map fst (pg_rows (pg_thread r) db)))"
    unfolding row_key_def
    by (rule pg_latest_max) (use assms(2,3) None in \<open>force simp: pg_rows_def row_key_def pg_must_def\<close>)+
  then show ?thesis using None by (simp add: pg_candidates_def)
next
  case (Some rs)
  have "x = r" if "x \<in> set (db_checkpoints db)" "pg_thread x = pg_thread r" "row_key x = row_key r" for x
    using that assms(1,2) by (auto simp: pg_wf_def distinct_map inj_on_def)
  then have other: "pg_run x \<notin> Some ` set rs"
    if "x \<in> set (db_checkpoints db)" "pg_thread x = pg_thread r" "row_key x = row_key r" for x
    using that assms(3) Some by (auto simp: pg_must_def)
  have "\<forall>x. (row_key r, x) \<in> set (pg_rows (pg_thread r) db) \<longrightarrow> pg_run x \<notin> Some ` set rs"
    by (intro allI impI other) (auto simp: pg_rows_def)
  then show ?thesis using Some by (cases "row_key r") (fastforce simp: pg_candidates_def)
qed

section \<open>One thread\<close>

text \<open>The contract of the walk, on the rows of one thread.\<close>

interpretation pg_policy: retention "pg_rows t db" pg_parent_key "pg_sat (pg_materialized t db)"
  "pg_needed (pg_materialized t db)"
  "\<lambda>k. k \<notin> set (pg_candidates run_ids (pg_rows t db))"
  "\<lambda>k. k \<notin> set (pg_removed run_ids t db)"
  for t db run_ids
proof unfold_locales
  fix k
  assume k: "k \<notin> set (pg_candidates run_ids (pg_rows t db))"
  then show "k \<notin> set (pg_removed run_ids t db)"
    by (simp add: pg_removed_def Let_def)
  fix e q
  assume "map_of (pg_rows t db) k = Some e"
    and "q \<in> set (delta_walk (pg_rows t db) pg_parent_key (pg_sat (pg_materialized t db)) [] (pg_needed (pg_materialized t db) e) (pg_parent_key e))"
  then have "q \<in> set (pg_protected (pg_rows t db) (pg_materialized t db) (pg_candidates run_ids (pg_rows t db)))"
    using k by (cases k) (auto simp: pg_protected_def dest!: map_of_SomeD)
  then show "q \<notin> set (pg_removed run_ids t db)" by (simp add: pg_removed_def Let_def)
qed

text \<open>What the three statements leave.\<close>

lemma remove_thread_checkpoints:
  "db_checkpoints (remove_thread_history run_ids t db) =
     filter (\<lambda>r. \<not> (pg_thread r = t \<and> row_key r \<in> set (pg_removed run_ids t db))) (db_checkpoints db)"
proof (cases "pg_rows t db = []")
  case True
  then have "pg_removed run_ids t db = []"
    by (cases run_ids) (auto simp: pg_removed_def pg_candidates_def)
  then show ?thesis by (simp add: remove_thread_history_def)
qed (auto simp: remove_thread_history_def Let_def delete_blobs_def delete_checkpoints_def delete_writes_def)

lemma remove_thread_data:
  assumes "r \<in> set (db_checkpoints (remove_thread_history run_ids t db))"
  shows "writes_of (remove_thread_history run_ids t db) r = writes_of db r"
    and "blobs_of (remove_thread_history run_ids t db) r ch = blobs_of db r ch"
proof -
  note r = assms [unfolded remove_thread_checkpoints]
  show "writes_of (remove_thread_history run_ids t db) r = writes_of db r"
    using r by (auto simp: remove_thread_history_def Let_def delete_blobs_def delete_checkpoints_def delete_writes_def writes_of_def
        filter_filter intro!: filter_cong)
  show "blobs_of (remove_thread_history run_ids t db) r ch = blobs_of db r ch"
    using r by (auto simp: remove_thread_history_def Let_def delete_blobs_def delete_checkpoints_def delete_writes_def blobs_of_def
        filter_filter intro!: filter_cong)
qed

lemma remove_thread_wf: "pg_wf db \<Longrightarrow> pg_wf (remove_thread_history run_ids t db)"
proof -
  assume "pg_wf db"
  moreover have "set (db_blobs (remove_thread_history run_ids t db)) \<subseteq> set (db_blobs db)"
    by (auto simp: remove_thread_history_def Let_def delete_blobs_def delete_checkpoints_def delete_writes_def)
  ultimately show ?thesis by (auto simp: pg_wf_def remove_thread_checkpoints distinct_map_filter)
qed

lemma remove_thread_must:
  "pg_must run_ids db r \<Longrightarrow> pg_must run_ids (remove_thread_history run_ids t db) r"
  by (auto simp: pg_must_def remove_thread_checkpoints split: option.splits)

lemma remove_thread_keeps:
  assumes "pg_wf db" and "r \<in> set (db_checkpoints db)" and "pg_must run_ids db r"
  shows "r \<in> set (db_checkpoints (remove_thread_history run_ids t db))"
  using must_no_candidate [OF assms] assms(2)
  by (auto simp: remove_thread_checkpoints pg_removed_def Let_def)

lemma rows_after:
  "pg_rows u (remove_thread_history run_ids t db) =
     (if u = t then pg_policy.kept t db run_ids else pg_rows u db)"
  unfolding pg_policy.kept_def
  unfolding pg_rows_def remove_thread_checkpoints
  by (auto simp: filter_map filter_filter comp_def intro!: arg_cong [of _ _ "map _"] filter_cong)

text \<open>Nothing a survivor is rebuilt from is touched.\<close>

lemma sat_after:
  assumes "pg_wf db" and "r \<in> set (db_checkpoints (remove_thread_history run_ids t db))" and "pg_thread r = u"
  shows "pg_sat (pg_materialized u (remove_thread_history run_ids t db)) r ch = pg_sat (pg_materialized u db) r ch"
  using sat_blobs [OF assms(1,3)] sat_blobs [OF remove_thread_wf [OF assms(1)] assms(3)] remove_thread_data(2) [OF assms(2)]
  by simp

lemma path_after:
  assumes "pg_wf db" and "r \<in> set (db_checkpoints db)" and "pg_must run_ids db r"
  shows "pg_path (remove_thread_history run_ids t db) r ch = pg_path db r ch"
proof -
  let ?db = "remove_thread_history run_ids t db" and ?u = "pg_thread r"
  have stored: "r \<in> set (db_checkpoints ?db)" by (rule remove_thread_keeps [OF assms])
  have needed: "pg_needed (pg_materialized ?u ?db) r = pg_needed (pg_materialized ?u db) r"
    using sat_after [OF assms(1) stored refl] by (simp add: pg_needed_def)
  have walk: "delta_walk (pg_rows ?u ?db) pg_parent_key (pg_sat (pg_materialized ?u ?db)) [] [ch] (pg_parent_key r) =
      delta_walk (pg_rows ?u db) pg_parent_key (pg_sat (pg_materialized ?u db)) [] [ch] (pg_parent_key r)"
    if ch: "ch \<in> set (pg_needed (pg_materialized ?u db) r)"
  proof (cases "?u = t")
    case True
    have row: "map_of (pg_rows t db) (row_key r) = Some r"
      using map_of_rows [OF assms(1), of t "row_key r" r] assms(2) True by simp
    have "pg_sat (pg_materialized t ?db) f ch = pg_sat (pg_materialized t db) f ch"
      if "k \<notin> set (pg_removed run_ids t db)" "map_of (pg_rows t db) k = Some f" for k f
      using that map_of_rows [OF assms(1), of t k f] sat_after [OF assms(1), of f run_ids t t ch]
      by (simp add: remove_thread_checkpoints)
    then show ?thesis
      using pg_policy.chain_stays [OF must_no_candidate [OF assms, unfolded True] row, of ch "pg_sat (pg_materialized t ?db)"] ch True
      by (simp add: rows_after)
  next
    case False
    have "pg_sat (pg_materialized ?u ?db) f c = pg_sat (pg_materialized ?u db) f c"
      if "map_of (pg_rows ?u db) k = Some f" for k f c
      using that map_of_rows [OF assms(1), of ?u k f] sat_after [OF assms(1), of f run_ids t ?u c] False
      by (simp add: remove_thread_checkpoints)
    then show ?thesis
      using False by (intro walk_restrict) (auto simp: rows_after)
  qed
  show ?thesis unfolding pg_path_def Let_def needed using walk by simp
qed

lemma path_stored:
  assumes "pg_wf db" and "r \<in> set (db_checkpoints db)" and "k \<in> set (pg_path db r ch)"
  shows "\<exists>x. map_of (pg_rows (pg_thread r) db) k = Some x"
proof (cases "k = row_key r")
  case True
  then show ?thesis using map_of_rows [OF assms(1), of "pg_thread r" k r] assms(2) by auto
next
  case False
  then have "map_of (pg_rows (pg_thread r) db) k \<noteq> None"
    using assms(3) by (auto simp: pg_path_def Let_def split: if_splits dest!: walk_stored)
  then show ?thesis by blast
qed

lemma inputs_after:
  assumes "pg_wf db" and "r \<in> set (db_checkpoints db)" and "pg_must run_ids db r"
  shows "pg_inputs (remove_thread_history run_ids t db) r ch = pg_inputs db r ch"
  unfolding pg_inputs_def path_after [OF assms]
proof (rule map_cong [OF refl])
  let ?db = "remove_thread_history run_ids t db" and ?u = "pg_thread r"
  fix k
  assume k: "k \<in> set (pg_path db r ch)"
  note wf' = remove_thread_wf [OF assms(1), of run_ids t]
  obtain x where x: "map_of (pg_rows ?u ?db) k = Some x"
    using path_stored [OF wf' remove_thread_keeps [OF assms], of k ch] k by (auto simp: path_after [OF assms])
  then have stored: "x \<in> set (db_checkpoints ?db)" "pg_thread x = ?u" "row_key x = k"
    using map_of_rows [OF wf', of ?u k x] by auto
  then have "map_of (pg_rows ?u db) k = Some x"
    using map_of_rows [OF assms(1), of ?u k x] by (simp add: remove_thread_checkpoints)
  then show "map_option (\<lambda>x. (x, writes_of ?db x, blobs_of ?db x ch)) (map_of (pg_rows ?u ?db) k) =
      map_option (\<lambda>x. (x, writes_of db x, blobs_of db x ch)) (map_of (pg_rows ?u db) k)"
    using x remove_thread_data [OF stored(1)] by simp
qed

lemma fold_after:
  assumes "pg_wf db" and "r \<in> set (db_checkpoints db)" and "pg_must run_ids db r"
  shows "r \<in> set (db_checkpoints (fold (remove_thread_history run_ids) ts db)) \<and>
    pg_inputs (fold (remove_thread_history run_ids) ts db) r ch = pg_inputs db r ch"
  using assms
proof (induction ts arbitrary: db)
  case (Cons t ts)
  show ?case
    using Cons.IH [OF remove_thread_wf [OF Cons.prems(1)] remove_thread_keeps [OF Cons.prems] remove_thread_must [OF Cons.prems(3)], of t]
      inputs_after [OF Cons.prems] by simp
qed simp

lemma fold_other_threads:
  "x \<in> set (db_checkpoints db) \<Longrightarrow> pg_thread x \<notin> set ts \<Longrightarrow> x \<in> set (db_checkpoints (fold (remove_thread_history run_ids) ts db))"
  by (induction ts arbitrary: db) (simp_all add: remove_thread_checkpoints)

section \<open>What is removed\<close>

lemma protected_iff:
  "k \<in> set (pg_protected (pg_rows t db) mats cands) \<longleftrightarrow>
     (\<exists>y \<in> set (db_checkpoints db). pg_thread y = t \<and> row_key y \<notin> set cands \<and>
       (\<exists>ch \<in> set (pg_needed mats y). needs (pg_rows t db) pg_parent_key (pg_sat mats) (pg_parent_key y) ch k))"
proof -
  have "set (filter (\<lambda>(k, r). k \<notin> set cands) (pg_rows t db)) =
      (\<lambda>r. (row_key r, r)) ` {r \<in> set (db_checkpoints db). pg_thread r = t \<and> row_key r \<notin> set cands}"
    by (auto simp: pg_rows_def simp del: split_paired_All split_paired_Ex)
  then show ?thesis unfolding pg_protected_def set_concat set_map by (auto simp: set_delta_walk simp del: split_paired_All split_paired_Ex)
qed

lemma remove_thread_exact:
  assumes "pg_wf db" and "x \<in> set (db_checkpoints db)" and "pg_thread x = t"
  shows "x \<in> set (db_checkpoints (remove_thread_history run_ids t db)) \<longleftrightarrow>
    row_key x \<notin> set (pg_candidates run_ids (pg_rows t db)) \<or>
    (\<exists>y \<in> set (db_checkpoints db). pg_thread y = t \<and> row_key y \<notin> set (pg_candidates run_ids (pg_rows t db)) \<and>
       (\<exists>ch \<in> set (pg_needed (pg_materialized t db) y).
          needs (pg_rows t db) pg_parent_key (pg_sat (pg_materialized t db)) (pg_parent_key y) ch (row_key x)))"
  using assms(2,3) protected_iff [of "row_key x" t db "pg_materialized t db" "pg_candidates run_ids (pg_rows t db)"]
  by (simp add: remove_thread_checkpoints pg_removed_def Let_def)


text \<open>Three checkpoints of one delta channel; the latest is rebuilt from the second, which holds a
  snapshot, and pruning removes the first.\<close>

definition demo_pg_row :: "string \<Rightarrow> string option \<Rightarrow> pg_row" where
  "demo_pg_row i p = \<lparr>pg_thread = ''t'', pg_ns = [], pg_id = i, pg_parent = p, pg_versions = Some [(''x'', VStr i)],
     pg_delta = Some [''x''], pg_run = Some ''r''\<rparr>"

definition demo_pg :: pg_db where
  "demo_pg = \<lparr>db_checkpoints = [demo_pg_row ''1'' None, demo_pg_row ''2'' (Some ''1''), demo_pg_row ''3'' (Some ''2'')],
     db_blobs = [\<lparr>pb_thread = ''t'', pb_ns = [], pb_channel = ''x'', pb_version = ''2'', pb_type = ''msgpack'', pb_data = ''d''\<rparr>],
     db_writes = []\<rparr>"

lemma demo_pg_pruned: "map pg_id (db_checkpoints (remove_history [''t''] None demo_pg)) = [''2'', ''3'']"
  by code_simp

lemma demo_pg_wf: "pg_wf demo_pg"
  by code_simp


end
