(* ===== verification/Lifespan.thy ===== *)
theory Lifespan
  imports Prelude
begin

text \<open>
  Retrying (\<open>retry.py\<close>) and the life of the server (\<open>lifespan.py\<close>): the order in which the parts are
  started and stopped, and which exceptions leave the context manager. What a stage does belongs to
  its own component or to \<open>langgraph_api\<close>; here it succeeds or raises.
\<close>

section \<open>Retrying\<close>

text \<open>\<open>func\<close> is a call on a state, which it may have changed when it raises; \<open>i\<close> is the number of the
  attempt.\<close>

fun retry_attempts :: "('s \<Rightarrow> 'a res \<times> 's) \<Rightarrow> nat \<Rightarrow> 's \<Rightarrow> 'a res \<times> 's" where
  "retry_attempts func 0 s = func s"
| "retry_attempts func (Suc n) s =
     (case func s of (Inl RetryableException, s') \<Rightarrow> retry_attempts func n s' | r \<Rightarrow> r)"

definition retry_db :: "('s \<Rightarrow> 'a res \<times> 's) \<Rightarrow> 's \<Rightarrow> 'a res \<times> 's" where
  "retry_db func s = (let attempts = 3 in retry_attempts func (attempts - 1) s)"

text \<open>The state after \<open>n\<close> calls.\<close>

definition calls :: "('s \<Rightarrow> 'a res \<times> 's) \<Rightarrow> nat \<Rightarrow> 's \<Rightarrow> 's" where
  "calls func n = ((\<lambda>s. snd (func s)) ^^ n)"

lemma retry_attempts_calls:
  "\<exists>n \<le> m. retry_attempts func m s = func (calls func n s) \<and>
     (\<forall>i < n. fst (func (calls func i s)) = Inl RetryableException) \<and>
     (n = m \<or> fst (func (calls func n s)) \<noteq> Inl RetryableException)"
proof (induction m arbitrary: s)
  case 0
  then show ?case by (simp add: calls_def)
next
  case (Suc m)
  show ?case
  proof (cases "fst (func s) = Inl RetryableException")
    case True
    obtain n where n: "n \<le> m" "retry_attempts func m (snd (func s)) = func (calls func n (snd (func s)))"
      "\<forall>i < n. fst (func (calls func i (snd (func s)))) = Inl RetryableException"
      "n = m \<or> fst (func (calls func n (snd (func s)))) \<noteq> Inl RetryableException"
      using Suc by blast
    have shift: "calls func i (snd (func s)) = calls func (Suc i) s" for i
      by (simp add: calls_def funpow_Suc_right del: funpow.simps)
    have "fst (func (calls func i s)) = Inl RetryableException" if "i < Suc n" for i
      using that n(3) True shift by (cases i) (auto simp: calls_def)
    then show ?thesis
      using True n(1,2,4) by (intro exI [of _ "Suc n"]) (auto simp: shift split: prod.splits)
  next
    case False
    then have "retry_attempts func (Suc m) s = func s"
      by (auto split: prod.splits sum.splits exn.splits)
    then show ?thesis using False by (intro exI [of _ 0]) (simp add: calls_def)
  qed
qed

text \<open>C35: A retried call ends after at most three attempts. It calls the function again only after a
  retryable exception, on the state that attempt left, and returns or raises what the last attempt did.\<close>

theorem retry_db_bounded:
  "\<exists>n < 3. retry_db func s = func (calls func n s) \<and>
     (\<forall>i < n. fst (func (calls func i s)) = Inl RetryableException) \<and>
     (n = 2 \<or> fst (func (calls func n s)) \<noteq> Inl RetryableException)"
proof -
  obtain n where "n \<le> 2" "retry_attempts func 2 s = func (calls func n s)"
    "\<forall>i < n. fst (func (calls func i s)) = Inl RetryableException"
    "n = 2 \<or> fst (func (calls func n s)) \<noteq> Inl RetryableException"
    using retry_attempts_calls [of 2 func s] by blast
  then show ?thesis by (intro exI [of _ n]) (auto simp: retry_db_def)
qed

text \<open>A call that fails twice.\<close>

definition demo_call :: "nat \<Rightarrow> nat res \<times> nat" where
  "demo_call k = (if k < 2 then (Inl RetryableException, Suc k) else (Inr k, Suc k))"

lemma demo_calls: "calls demo_call n 0 = n"
proof -
  have "snd (demo_call k) = Suc k" for k by (simp add: demo_call_def)
  then show ?thesis by (induction n) (simp_all add: calls_def)
qed

theorem retry_db_bounded_witness: "retry_db demo_call 0 = (Inr 2, 3)"
proof -
  obtain n where n: "n < 3" "retry_db demo_call 0 = demo_call n" "n = 2 \<or> fst (demo_call n) \<noteq> Inl RetryableException"
    using retry_db_bounded [of demo_call 0] unfolding demo_calls by blast
  then have "n = 2" by (auto simp: demo_call_def split: if_splits)
  with n(2) show ?thesis by (simp add: demo_call_def)
qed

section \<open>The life of the server\<close>

datatype stage =
    StartHttpClient | StartPool | StartCheckpointer | StartUiBundler | StartReporter
  | MetadataLoop | CollectorLoop | CollectStore | GetStore | StoreSweeper | ThreadTtlLoop
  | PatchPackages | CollectGraphs | WorkerQueue | CronScheduler | Serve
  | ExitStore | ExitCheckpointer | StopUiBundler | StopRemoteGraphs | StopHttpClient
  | StopWebhookHttpClient | StopPool | StopReporter

text \<open>An exception a stage raises: the error of a graph that does not load, the cancellation at
  shutdown, or another one.\<close>

datatype stage_exn = GraphLoadError | Cancelled | OtherError exn

text \<open>Stages in order up to the first that raises: those that were begun, and the exception.\<close>

fun perform :: "(stage \<Rightarrow> stage_exn option) \<Rightarrow> stage list \<Rightarrow> stage list \<times> stage_exn option" where
  "perform fails [] = ([], None)"
| "perform fails (x # xs) =
     (case fails x of
        Some e \<Rightarrow> ([x], Some e)
      | None \<Rightarrow> (case perform fails xs of (ys, e) \<Rightarrow> (x # ys, e)))"

definition start_stages :: "stage list" where
  "start_stages = [StartHttpClient, StartPool, StartCheckpointer, StartUiBundler, StartReporter]"

definition body_stages :: "bool \<Rightarrow> nat \<Rightarrow> stage list" where
  "body_stages custom_store n_jobs =
     [MetadataLoop, CollectorLoop, CollectStore, GetStore]
     @ (if custom_store then [] else [StoreSweeper])
     @ [ThreadTtlLoop, PatchPackages, CollectGraphs]
     @ (if 0 < n_jobs then [WorkerQueue] else [])
     @ [CronScheduler, Serve]"

definition stop_stages :: "stage list" where
  "stop_stages = [ExitStore, ExitCheckpointer, StopUiBundler, StopRemoteGraphs, StopHttpClient, StopWebhookHttpClient,
     StopPool, StopReporter]"

text \<open>The whole context manager: the stages it began, the exception that leaves it, and the last
  error. An exception of the stages before the \<open>try\<close> leaves it at once; one of the \<open>finally\<close> block
  replaces the one it handles.\<close>

record lifespan_result =
  l_begun :: "stage list"
  l_raised :: "stage_exn option"
  l_last_error :: "stage_exn option"

definition run_lifespan :: "(stage \<Rightarrow> stage_exn option) \<Rightarrow> bool \<Rightarrow> nat \<Rightarrow> lifespan_result" where
  "run_lifespan fails custom_store n_jobs =
     (case perform fails start_stages of
        (xs, Some e) \<Rightarrow> \<lparr>l_begun = xs, l_raised = Some e, l_last_error = None\<rparr>
      | (xs, None) \<Rightarrow>
          (case perform fails (body_stages custom_store n_jobs) of (ys, e) \<Rightarrow>
             let handled = (case e of Some Cancelled \<Rightarrow> None | _ \<Rightarrow> e);
                 last_error = (case e of Some GraphLoadError \<Rightarrow> Some GraphLoadError | _ \<Rightarrow> None)
             in case perform fails stop_stages of (zs, f) \<Rightarrow>
                  \<lparr>l_begun = xs @ ys @ zs, l_raised = (case f of Some x \<Rightarrow> Some x | None \<Rightarrow> handled), l_last_error = last_error\<rparr>))"

lemma perform_all: "(\<And>x. x \<in> set xs \<Longrightarrow> fails x = None) \<Longrightarrow> perform fails xs = (xs, None)"
  by (induction xs) auto

lemma perform_prefix: "perform fails xs = (ys, e) \<Longrightarrow> \<exists>zs. xs = ys @ zs"
  by (induction xs arbitrary: ys) (auto split: option.splits prod.splits)

text \<open>Once the server has started, a failure of its body or a cancellation still stops every part,
  as long as stopping one does not raise; and only the error of a graph is kept as the last error.\<close>

lemma lifespan_stops_all:
  assumes "\<And>x. x \<in> set start_stages \<Longrightarrow> fails x = None" and "\<And>x. x \<in> set stop_stages \<Longrightarrow> fails x = None"
  shows "\<exists>ys. l_begun (run_lifespan fails custom n) = start_stages @ ys @ stop_stages \<and>
    (\<exists>zs. body_stages custom n = ys @ zs) \<and>
    l_raised (run_lifespan fails custom n) \<noteq> Some Cancelled"
proof -
  obtain ys e where body: "perform fails (body_stages custom n) = (ys, e)" by fastforce
  have "l_begun (run_lifespan fails custom n) = start_stages @ ys @ stop_stages"
    "l_raised (run_lifespan fails custom n) = (case e of Some Cancelled \<Rightarrow> None | _ \<Rightarrow> e)"
    by (simp_all add: run_lifespan_def perform_all [OF assms(1)] perform_all [OF assms(2)] body)
  then show ?thesis
    using perform_prefix [OF body] by (auto split: option.splits stage_exn.splits)
qed

text \<open>But an exception while the store or the checkpointer is closed leaves the files of the pool
  unwritten, and one while starting stops nothing.\<close>

lemma lifespan_stop_skipped:
  assumes "\<And>x. x \<in> set start_stages \<Longrightarrow> fails x = None" and "fails ExitStore = Some e"
  shows "StopPool \<notin> set (l_begun (run_lifespan fails custom n))"
proof -
  obtain ys f where body: "perform fails (body_stages custom n) = (ys, f)" by fastforce
  have "l_begun (run_lifespan fails custom n) = start_stages @ ys @ [ExitStore]"
    by (simp add: run_lifespan_def perform_all [OF assms(1)] body stop_stages_def assms(2))
  moreover have "StopPool \<notin> set (body_stages custom n)" "StopPool \<notin> set start_stages"
    by (simp_all add: body_stages_def start_stages_def)
  ultimately show ?thesis using perform_prefix [OF body] by auto
qed

lemma lifespan_start_fails:
  "fails StartHttpClient = None \<Longrightarrow> fails StartPool = None \<Longrightarrow> fails StartCheckpointer = Some e \<Longrightarrow>
     l_begun (run_lifespan fails custom n) = [StartHttpClient, StartPool, StartCheckpointer]"
  by (simp add: run_lifespan_def start_stages_def)

end
