(* ===== verification/Thread_Streams.thy ===== *)
theory Thread_Streams
  imports Runs
begin

text \<open>
  The stream of a thread (\<open>Threads.Stream\<close> of \<open>ops.py\<close>): one connection that follows every run of the
  thread and the thread's own events. \<open>decode_stream_message\<close> and the JSON functions of \<open>orjson\<close> are
  parameters. One pass of the live loop subscribes to new runs, drains every queue and retires the
  queues of finished runs; it is one step, and others may change the state before the first pass and
  between passes.
\<close>

section \<open>Messages\<close>

text \<open>An event, its payload, the id of the message and the run.\<close>

type_synonym thread_frame = "string \<times> string \<times> string option \<times> string"

record thread_codec =
  tc_decode :: "string \<Rightarrow> string \<Rightarrow> (string \<times> string) res"
  tc_loads :: "string \<Rightarrow> pyval res"
  tc_dumps :: "pyval \<Rightarrow> string"

definition should_filter_event :: "thread_codec \<Rightarrow> string list \<Rightarrow> string \<Rightarrow> string \<Rightarrow> bool res" where
  "should_filter_event tc modes event payload =
     (if ''run_modes'' \<in> set modes \<and> event \<noteq> ''state_update'' then Inr False
      else if ''state_update'' \<in> set modes \<and> event = ''state_update'' then Inr False
      else if ''lifecycle'' \<in> set modes \<and> event = ''metadata''
      then (case tc_loads tc payload of
              Inl ValueError \<Rightarrow> Inr True
            | Inl TypeError \<Rightarrow> Inr True
            | Inl e \<Rightarrow> Inl e
            | Inr (PDict d) \<Rightarrow>
                Inr (\<not> (dict_get d ''status'' PNone = PStr ''run_done'' \<or> (has_key d ''attempt'' \<and> has_key d ''run_id'')))
            | Inr _ \<Rightarrow> Inl AttributeError)
      else Inr True)"

definition run_done :: "pyval \<Rightarrow> pyval" where
  "run_done run_id = PDict [(''status'', PStr ''run_done''), (''run_id'', run_id)]"

text \<open>\<open>topic.split("run:")[1].split(":")[0]\<close>: the text between the first and the second occurrence of
  the separator, up to a colon.\<close>

fun before_sep :: "string \<Rightarrow> string \<Rightarrow> string" where
  "before_sep sep [] = []"
| "before_sep sep (c # cs) = (if starts_with (c # cs) sep then [] else c # before_sep sep cs)"

fun after_sep :: "string \<Rightarrow> string \<Rightarrow> string option" where
  "after_sep sep [] = None"
| "after_sep sep (c # cs) = (if starts_with (c # cs) sep then Some (drop (length sep) (c # cs)) else after_sep sep cs)"

definition topic_run_id :: "string \<Rightarrow> string res" where
  "topic_run_id topic =
     (case after_sep ''run:'' topic of
        None \<Rightarrow> Inl IndexError
      | Some rest \<Rightarrow> Inr (takeWhile (\<lambda>c. c \<noteq> CHR '':'') (before_sep ''run:'' rest)))"

section \<open>Replay\<close>

fun restore_runs :: "uuid \<Rightarrow> string \<Rightarrow> stream \<Rightarrow> uuid list \<Rightarrow> (message \<times> uuid) list res" where
  "restore_runs thread_id cursor w [] = Inr []"
| "restore_runs thread_id cursor w (r # rs) =
     res_bind (restore_messages r (Some thread_id) (Some cursor) w) (\<lambda>ms.
     res_bind (restore_runs thread_id cursor w rs) (\<lambda>es. Inr (map (\<lambda>m. (m, r)) ms @ es)))"

text \<open>Stored messages carry an id; they are sorted by its text.\<close>

definition event_id :: "message \<times> uuid \<Rightarrow> string" where
  "event_id e = (case m_id (fst e) of None \<Rightarrow> [] | Some i \<Rightarrow> i)"

definition thread_events :: "uuid \<Rightarrow> string \<Rightarrow> stream \<Rightarrow> (message \<times> uuid) list res" where
  "thread_events thread_id cursor w =
     res_bind (restore_runs thread_id cursor w (map fst (inner (sm_message_stores w) (TKey thread_id)))) (\<lambda>es.
       Inr (sort_key event_id es))"

text \<open>The frames of the replay, and the exception that ends it.\<close>

fun replay_events :: "thread_codec \<Rightarrow> string list \<Rightarrow> (message \<times> uuid) list \<Rightarrow> thread_frame list \<times> exn option" where
  "replay_events tc modes [] = ([], None)"
| "replay_events tc modes ((m, r) # es) =
     (case tc_decode tc (m_topic m) (m_data m) of
        Inl e \<Rightarrow> ([], Some e)
      | Inr (event, payload) \<Rightarrow>
          let (event, payload) =
                (if event = ''control'' \<and> payload = ''done'' then (''metadata'', tc_dumps tc (run_done (PUUID r))) else (event, payload))
          in case should_filter_event tc modes event payload of
               Inl e \<Rightarrow> ([], Some e)
             | Inr f \<Rightarrow> (case replay_events tc modes es of (fs, e) \<Rightarrow>
                          (if f then fs else (event, payload, m_id m, uuid_str r) # fs, e)))"

section \<open>Subscription\<close>

record thread_join =
  tj_seen :: "uuid list"
  tj_queues :: "(uuid \<times> nat) list"
  tj_thread_queue :: "nat option"

definition new_join :: thread_join where
  "new_join = \<lparr>tj_seen = [], tj_queues = [], tj_thread_queue = None\<rparr>"

fun subscribe_runs :: "uuid \<Rightarrow> run list \<Rightarrow> uuid list \<Rightarrow> stream \<Rightarrow> (uuid \<times> nat) list \<times> uuid list \<times> stream" where
  "subscribe_runs thread_id [] seen w = ([], seen, w)"
| "subscribe_runs thread_id (r # rs) seen w =
     (if r_thread r = thread_id \<and> r_id r \<notin> set seen
      then (case add_queue (r_id r) (Some thread_id) w of (q, w) \<Rightarrow>
            (case subscribe_runs thread_id rs (r_id r # seen) w of (qs, seen, w) \<Rightarrow> ((r_id r, q) # qs, seen, w)))
      else subscribe_runs thread_id rs seen w)"

definition thread_subscribe :: "uuid \<Rightarrow> run list \<Rightarrow> uuid list \<Rightarrow> stream \<Rightarrow> (uuid \<times> nat) list \<times> uuid list \<times> stream" where
  "thread_subscribe thread_id rs seen w =
     (if thread_id \<notin> set seen
      then (case add_thread_stream thread_id w of (q, w) \<Rightarrow>
            (case subscribe_runs thread_id rs (thread_id # seen) w of (qs, seen, w) \<Rightarrow> ((thread_id, q) # qs, seen, w)))
      else subscribe_runs thread_id rs seen w)"

definition track_queues :: "uuid \<Rightarrow> stream \<Rightarrow> (uuid \<times> nat) list \<Rightarrow> thread_join \<Rightarrow> thread_join" where
  "track_queues thread_id w qs j =
     fold (\<lambda>(r, q) j.
       let j = j\<lparr>tj_queues := tj_queues j @ [(r, q)]\<rparr>
       in if q \<in> set (dict_get (sm_thread_streams w) thread_id []) then j\<lparr>tj_thread_queue := Some q\<rparr> else j) qs j"

section \<open>The live loop\<close>

datatype drain_end = DrainEmpty | DrainFinished | DrainClosed | DrainRaised exn

fun drain_messages ::
  "thread_codec \<Rightarrow> string list \<Rightarrow> uuid \<Rightarrow> message list \<Rightarrow> thread_frame list \<times> message list \<times> drain_end" where
  "drain_messages tc modes r [] = ([], [], DrainEmpty)"
| "drain_messages tc modes r (m # ms) =
     (if m_topic m = STREAM_CLOSE_TOPIC then ([], ms, DrainClosed)
      else case tc_decode tc (m_topic m) (m_data m) of
             Inl ValueError \<Rightarrow> drain_messages tc modes r ms
           | Inl KeyError \<Rightarrow> drain_messages tc modes r ms
           | Inl e \<Rightarrow> ([], ms, DrainRaised e)
           | Inr (event, payload) \<Rightarrow>
               if event = ''control'' \<and> payload = ''done''
               then (case topic_run_id (m_topic m) of
                       Inl e \<Rightarrow> ([], ms, DrainRaised e)
                     | Inr i \<Rightarrow>
                         let payload = tc_dumps tc (run_done (PStr i)) in
                         case should_filter_event tc modes ''metadata'' payload of
                           Inl e \<Rightarrow> ([], ms, DrainRaised e)
                         | Inr f \<Rightarrow> (if f then [] else [(''metadata'', payload, m_id m, i)], ms, DrainFinished))
               else (case should_filter_event tc modes event payload of
                       Inl e \<Rightarrow> ([], ms, DrainRaised e)
                     | Inr f \<Rightarrow> (case drain_messages tc modes r ms of (fs, rest, e) \<Rightarrow>
                                  (if f then fs else (event, payload, m_id m, uuid_str r) # fs, rest, e))))"

text \<open>Every queue in turn: the frames, the queues to retire, and how the pass ends.\<close>

fun drain_queues ::
  "thread_codec \<Rightarrow> string list \<Rightarrow> nat option \<Rightarrow> (uuid \<times> nat) list \<Rightarrow> stream
     \<Rightarrow> thread_frame list \<times> (uuid \<times> nat) list \<times> join_end \<times> stream" where
  "drain_queues tc modes tq [] w = ([], [], Waiting, w)"
| "drain_queues tc modes tq ((r, q) # qs) w =
     (case drain_messages tc modes r (sm_heap w q) of (fs, rest, e) \<Rightarrow>
        let w = w\<lparr>sm_heap := (sm_heap w)(q := rest)\<rparr> in
        case e of
          DrainClosed \<Rightarrow> (fs, [], Ended, w)
        | DrainRaised x \<Rightarrow> (fs, [], Raised x, w)
        | _ \<Rightarrow> (case drain_queues tc modes tq qs w of (gs, retired, end_, w) \<Rightarrow>
                 (fs @ gs, (if e = DrainFinished \<and> tq \<noteq> Some q then (r, q) # retired else retired), end_, w)))"

definition retire_queues :: "uuid \<Rightarrow> (uuid \<times> nat) list \<Rightarrow> thread_join \<Rightarrow> stream \<Rightarrow> thread_join \<times> stream" where
  "retire_queues thread_id retired j w =
     (j\<lparr>tj_queues := fold remove1 retired (tj_queues j)\<rparr>, fold (\<lambda>(r, q). remove_queue r (Some thread_id) q) retired w)"

definition join_pass ::
  "thread_codec \<Rightarrow> string list \<Rightarrow> uuid \<Rightarrow> run list \<Rightarrow> thread_join \<Rightarrow> stream \<Rightarrow> thread_frame list \<times> join_end \<times> thread_join \<times> stream" where
  "join_pass tc modes thread_id rs j w =
     (case thread_subscribe thread_id rs (tj_seen j) w of (qs, seen, w) \<Rightarrow>
        let j = track_queues thread_id w qs (j\<lparr>tj_seen := seen\<rparr>) in
        case drain_queues tc modes (tj_thread_queue j) (tj_queues j) w of (fs, retired, e, w) \<Rightarrow>
          if e = Waiting then (case retire_queues thread_id retired j w of (j, w) \<Rightarrow> (fs, e, j, w)) else (fs, e, j, w))"

text \<open>The \<open>finally\<close> block.\<close>

definition join_cleanup :: "uuid \<Rightarrow> thread_join \<Rightarrow> stream \<Rightarrow> stream" where
  "join_cleanup thread_id j w =
     fold (\<lambda>(r, q) w. if tj_thread_queue j = Some q then remove_thread_stream thread_id q w
                      else remove_queue r (Some thread_id) q w) (tj_queues j) w"

text \<open>Passes, each after a change by others.\<close>

fun join_loop ::
  "thread_codec \<Rightarrow> string list \<Rightarrow> uuid \<Rightarrow> (sys \<Rightarrow> sys) list \<Rightarrow> thread_join \<Rightarrow> sys \<Rightarrow> thread_frame list \<times> join_end \<times> thread_join \<times> sys" where
  "join_loop tc modes thread_id [] j s = ([], Waiting, j, s)"
| "join_loop tc modes thread_id (f # fs) j s =
     (let s = f s in
      case join_pass tc modes thread_id (s_runs s) j (s_stream s) of (frames, e, j, w) \<Rightarrow>
        let s = s\<lparr>s_stream := w\<rparr> in
        if e \<noteq> Waiting then (frames, e, j, s)
        else (case join_loop tc modes thread_id fs j s of (gs, e, j, s) \<Rightarrow> (frames @ gs, e, j, s)))"

section \<open>The operations\<close>

definition check_thread_stream_auth :: "env \<Rightarrow> uuid \<Rightarrow> unit act" where
  "check_thread_stream_auth env thread_id =
     bind (lift_res (auth_filters env AThreads ARead (Some thread_id))) (\<lambda>filters.
     bind (thread_gate filters thread_id) (\<lambda>ok. if ok then ret () else raise (HTTPException 404)))"

definition join_event_streaming ::
  "env \<Rightarrow> thread_codec \<Rightarrow> uuid \<Rightarrow> string option \<Rightarrow> string list \<Rightarrow> (sys \<Rightarrow> sys) list \<Rightarrow> (thread_frame list \<times> join_end) act" where
  "join_event_streaming env tc thread_id last_event_id modes steps =
     bind (check_thread_stream_auth env thread_id) (\<lambda>_.
     bind (reads s_stream) (\<lambda>w.
     bind (lift_res (case last_event_id of None \<Rightarrow> Inr [] | Some i \<Rightarrow> thread_events thread_id i w)) (\<lambda>es.
       case replay_events tc modes es of
         (fs, Some e) \<Rightarrow> ret (fs, Raised e)
       | (fs, None) \<Rightarrow> (\<lambda>s. case join_loop tc modes thread_id steps new_join s of (gs, e, j, s) \<Rightarrow>
                          (Inr (fs @ gs, e), s\<lparr>s_stream := join_cleanup thread_id j (s_stream s)\<rparr>)))))"

definition thread_join_frames :: "thread_frame list \<Rightarrow> frame list" where
  "thread_join_frames fs = map (\<lambda>(event, payload, i, _). (event, payload, i)) fs"

definition thread_publish :: "codec \<Rightarrow> uuid \<Rightarrow> string \<Rightarrow> string \<Rightarrow> stream \<Rightarrow> stream" where
  "thread_publish enc thread_id event message w =
     put_thread thread_id \<lparr>m_topic = ''thread:'' @ uuid_str thread_id @ '':stream'', m_data = enc event message, m_id = None\<rparr> w"

end
