(* ===== verification/Thread_Stream_Safety.thy ===== *)
theory Thread_Stream_Safety
  imports Thread_Streams Stream_Safety
begin

text \<open>
  A connection to a thread's stream leaves nothing behind: whatever else happens to the manager while
  it is open, each queue it created is registered in at most one place, and the cleanup takes it out.
  And what the connection may miss.
\<close>

section \<open>Where a queue is registered\<close>

definition run_count :: "stream \<Rightarrow> tkey \<Rightarrow> uuid \<Rightarrow> nat \<Rightarrow> nat" where
  "run_count w t r q = count_list (list_at (sm_queues w) t r) q"

definition thread_count :: "stream \<Rightarrow> uuid \<Rightarrow> nat \<Rightarrow> nat" where
  "thread_count w u q = count_list (dict_get (sm_thread_streams w) u []) q"

text \<open>A change registers no queue but new ones.\<close>

definition evolves :: "stream \<Rightarrow> stream \<Rightarrow> bool" where
  "evolves w w' \<longleftrightarrow> sm_next_queue w \<le> sm_next_queue w' \<and>
     (\<forall>q. q < sm_next_queue w \<or> sm_next_queue w' \<le> q \<longrightarrow>
        (\<forall>t r. run_count w' t r q \<le> run_count w t r q) \<and> (\<forall>u. thread_count w' u q \<le> thread_count w u q))"

named_theorems evolves_intros \<open>operations of the stream manager register only new queues\<close>

lemma evolves_refl: "evolves w w"
  by (simp add: evolves_def)

lemma evolves_trans: "evolves u v \<Longrightarrow> evolves v w \<Longrightarrow> evolves u w"
proof -
  assume a: "evolves u v" "evolves v w"
  have "(\<forall>t r. run_count w t r q \<le> run_count u t r q) \<and> (\<forall>x. thread_count w x q \<le> thread_count u x q)"
    if "q < sm_next_queue u \<or> sm_next_queue w \<le> q" for q
    using a that unfolding evolves_def by (meson order_trans less_le_trans)
  then show ?thesis using a by (auto simp: evolves_def)
qed

lemma evolves_fold: "(\<And>x w. evolves w (f x w)) \<Longrightarrow> evolves w (fold f xs w)"
  by (induction xs arbitrary: w) (auto intro: evolves_refl evolves_trans)

lemma evolves_same:
  "sm_queues w' = sm_queues w \<Longrightarrow> sm_thread_streams w' = sm_thread_streams w \<Longrightarrow> sm_next_queue w' = sm_next_queue w \<Longrightarrow> evolves w w'"
  by (simp add: evolves_def run_count_def thread_count_def)

lemma evolves_fewer:
  assumes "sm_next_queue w' = sm_next_queue w" and "\<And>t r q. run_count w' t r q \<le> run_count w t r q"
    and "\<And>u q. thread_count w' u q \<le> thread_count w u q"
  shows "evolves w w'"
  using assms by (simp add: evolves_def)

lemma count_remove1: "count_list (remove1 q xs) p = count_list xs p - (if p = q then 1 else 0)"
  by (induction xs) auto

lemma list_at_simps:
  "list_at (nested_put d t r v) t' r' = (if t' = t \<and> r' = r then v else list_at d t' r')"
  "list_at (nested_pop d t r) t' r' = (if t' = t \<and> r' = r then [] else list_at d t' r')"
  "list_at (AList.delete t d) t' r' = (if t' = t then [] else list_at d t' r')"
  "list_at [] t' r' = []"
  by (simp_all add: list_at_def dict_simps)

lemma list_at_remove_from:
  "list_at (remove_from d t r q) t' r' = (if t' = t \<and> r' = r then remove1 q (list_at d t r) else list_at d t' r')"
  by (auto simp: remove_from_def list_at_def Let_def dict_simps remove1_idem split: option.splits)

section \<open>The operations of the manager\<close>

lemma next_queue_put [simp]: "sm_next_queue (queue_put m q w) = sm_next_queue w"
  by (simp add: queue_put_def)

lemma next_queue_stamp [simp]: "sm_next_queue (snd (stamp m w)) = sm_next_queue w"
  by (simp add: stamp_def split: prod.splits)

lemma next_queue_fold: "(\<And>x w. sm_next_queue (f x w) = sm_next_queue w) \<Longrightarrow> sm_next_queue (fold f xs w) = sm_next_queue w"
  by (induction xs arbitrary: w) auto

lemma stamp_fields:
  "stamp m w = (m', w') \<Longrightarrow> sm_queues w' = sm_queues w \<and> sm_thread_streams w' = sm_thread_streams w \<and>
     sm_next_queue w' = sm_next_queue w \<and> sm_control_queues w' = sm_control_queues w"
  by (auto simp: stamp_def split: prod.splits)

lemma evolves_queue_put [evolves_intros]: "evolves w (queue_put m q w)"
  by (rule evolves_same) (simp_all add: queue_put_def)

lemma evolves_stamp_put: "stamp m w = (m', w') \<Longrightarrow> evolves w (queue_put m' q w')"
  by (rule evolves_same) (auto simp: queue_put_def dest: stamp_fields)

lemma evolves_signals [evolves_intros]:
  "evolves w (close_queue q w)" "evolves w (finish_control_queue r q w)" "evolves w (finish_run_queue enc r q w)"
  by (auto simp: close_queue_def finish_control_queue_def finish_run_queue_def intro: evolves_stamp_put split: prod.splits)

lemma evolves_signal_run [evolves_intros]: "evolves w (signal_run enc t r w)"
  unfolding signal_run_def Let_def by (intro evolves_trans [OF evolves_fold evolves_fold] evolves_intros)

lemma evolves_put [evolves_intros]: "evolves w (put_message r t m b w)"
proof (cases "sm_stopped w \<or> (thread_key t, r) \<in> set (sm_pending_run_deletes w)")
  case False
  obtain m' w1 where s: "stamp m w = (m', w1)" by fastforce
  have eq: "evolves w x" if "sm_queues x = sm_queues w1" "sm_thread_streams x = sm_thread_streams w1" "sm_next_queue x = sm_next_queue w1" for x
    using that stamp_fields [OF s] by (intro evolves_same) auto
  show ?thesis
    using False s
    by (auto simp: put_message_def Let_def intro!: evolves_trans [OF eq evolves_fold] evolves_intros)
qed (auto simp: put_message_def evolves_refl)

lemma evolves_put_thread [evolves_intros]: "evolves w (put_thread u m w)"
proof (cases "stamp m w")
  case (Pair m' w1)
  then have "evolves w w1" using stamp_fields [OF Pair] by (intro evolves_same) auto
  then show ?thesis
    using Pair by (auto simp: put_thread_def evolves_refl intro!: evolves_trans [OF _ evolves_fold] evolves_intros)
qed

lemma evolves_remove [evolves_intros]:
  "evolves w (remove_queue r t q w)" "evolves w (remove_control_queue r t q w)" "evolves w (remove_thread_stream u q w)"
proof -
  show "evolves w (remove_queue r t q w)"
    by (rule evolves_fewer) (auto simp: remove_queue_def run_count_def thread_count_def list_at_remove_from count_remove1)
  show "evolves w (remove_control_queue r t q w)"
    by (rule evolves_same) (simp_all add: remove_control_queue_def)
  show "evolves w (remove_thread_stream u q w)"
    by (rule evolves_fewer)
      (auto simp: remove_thread_stream_def run_count_def thread_count_def Let_def dict_simps count_remove1 dict_get_def split: option.splits)
qed

lemma evolves_clear [evolves_intros]: "evolves w (clear_run_state t r w)"
  by (rule evolves_fewer) (auto simp: clear_run_state_def run_count_def thread_count_def list_at_simps)

lemma evolves_active [evolves_intros]: "evolves w (mark_run_active r t w)" "evolves w (w\<lparr>sm_heap := h\<rparr>)"
  by (rule evolves_same, auto simp: mark_run_active_def Let_def)+

lemma evolves_inactive [evolves_intros]: "evolves w (mark_run_inactive r t w)"
  by (rule evolves_fewer) (auto simp: mark_run_inactive_def Let_def clear_run_state_def run_count_def thread_count_def list_at_simps)

lemma evolves_release [evolves_intros]: "evolves w (release_run enc t r w)" "evolves w (delete_run enc r th w)"
proof -
  have deferred: "evolves w (defer_delete t r w)" for t r w by (rule evolves_same) (simp_all add: defer_delete_def)
  show *: "evolves w (release_run enc t r w)" for t r
    unfolding release_run_def by (rule evolves_trans [OF evolves_trans [OF evolves_signal_run deferred] evolves_clear])
  show "evolves w (delete_run enc r th w)" unfolding delete_run_def by (rule *)
qed

lemma new_queue_fields:
  "new_queue w = (q, w') \<Longrightarrow> q = sm_next_queue w \<and> sm_next_queue w' = Suc q \<and> sm_queues w' = sm_queues w \<and>
     sm_thread_streams w' = sm_thread_streams w \<and> sm_stopped w' = sm_stopped w \<and> sm_pending_run_deletes w' = sm_pending_run_deletes w"
  by (auto simp: new_queue_def)

lemma close_queue_fields [simp]:
  "sm_queues (close_queue q w) = sm_queues w" "sm_thread_streams (close_queue q w) = sm_thread_streams w"
  "sm_next_queue (close_queue q w) = sm_next_queue w"
  by (auto simp: close_queue_def queue_put_def dest: stamp_fields split: prod.splits)

lemma finish_control_fields [simp]:
  "sm_queues (finish_control_queue r q w) = sm_queues w" "sm_thread_streams (finish_control_queue r q w) = sm_thread_streams w"
  "sm_next_queue (finish_control_queue r q w) = sm_next_queue w"
  by (auto simp: finish_control_queue_def queue_put_def dest: stamp_fields split: prod.splits)

text \<open>What adding a queue does to the counts.\<close>

lemma add_queue_counts:
  assumes "add_queue r t w = (q, w')"
  shows "q = sm_next_queue w" "sm_next_queue w' = Suc q"
    "run_count w' t' r' p \<le> run_count w t' r' p + (if t' = thread_key t \<and> r' = r \<and> p = q then 1 else 0)"
    "thread_count w' u p = thread_count w u p"
  using assms
  by (auto simp: add_queue_def Let_def run_count_def thread_count_def list_at_simps dest!: new_queue_fields split: prod.splits if_splits)

lemma add_thread_stream_counts:
  assumes "add_thread_stream x w = (q, w')"
  shows "q = sm_next_queue w" "sm_next_queue w' = Suc q" "run_count w' t r p = run_count w t r p"
    "thread_count w' u p \<le> thread_count w u p + (if u = x \<and> p = q then 1 else 0)"
    "q \<notin> set (dict_get (sm_thread_streams w') x []) \<Longrightarrow> thread_count w' u p \<le> thread_count w u p"
  using assms
  by (auto simp: add_thread_stream_def Let_def run_count_def thread_count_def dict_simps dest!: new_queue_fields split: prod.splits if_splits)

lemma evolves_add [evolves_intros]:
  "evolves w (snd (add_queue r t w))" "evolves w (snd (add_thread_stream u w))" "evolves w (snd (add_control_queue r t w))"
proof -
  obtain q w' where a: "add_queue r t w = (q, w')" by fastforce
  have "run_count w' t' r' x \<le> run_count w t' r' x" if "x \<noteq> q" for t' r' x
    using add_queue_counts(3) [OF a, of t' r' x] that by simp
  then show "evolves w (snd (add_queue r t w))"
    using add_queue_counts(1,2) [OF a] add_queue_counts(4) [OF a] unfolding a snd_conv evolves_def by auto
  obtain p v where b: "add_thread_stream u w = (p, v)" by fastforce
  have "thread_count v x y \<le> thread_count w x y" if "y \<noteq> p" for x y
    using add_thread_stream_counts(4) [OF b, of x y] that by simp
  then show "evolves w (snd (add_thread_stream u w))"
    using add_thread_stream_counts(1,2) [OF b] add_thread_stream_counts(3) [OF b] unfolding b snd_conv evolves_def by auto
  show "evolves w (snd (add_control_queue r t w))"
    by (auto simp: add_control_queue_def Let_def evolves_def run_count_def thread_count_def dest!: new_queue_fields split: prod.splits)
qed

lemma evolves_delete_thread [evolves_intros]: "evolves w (stream_delete_thread enc u w)"
proof -
  let ?w = "fold (release_run enc (TKey u)) (thread_run_ids (TKey u) w) w"
  let ?v = "?w\<lparr>sm_queues := AList.delete (TKey u) (sm_queues ?w), sm_control_queues := AList.delete (TKey u) (sm_control_queues ?w),
    sm_control_keys := AList.delete (TKey u) (sm_control_keys ?w), sm_message_stores := AList.delete (TKey u) (sm_message_stores ?w)\<rparr>"
  let ?x = "fold close_queue (dict_get (sm_thread_streams ?v) u []) ?v"
  have "evolves w ?w" by (intro evolves_fold evolves_intros)
  moreover have "evolves ?w ?v"
    by (rule evolves_fewer) (simp_all add: run_count_def thread_count_def list_at_simps)
  moreover have "evolves ?v ?x" by (intro evolves_fold evolves_intros)
  moreover have "evolves ?x (?x\<lparr>sm_thread_streams := AList.delete u (sm_thread_streams ?x)\<rparr>)"
    by (rule evolves_fewer) (simp_all add: run_count_def thread_count_def dict_simps)
  ultimately show ?thesis
    unfolding stream_delete_thread_def Let_def by (blast intro: evolves_trans)
qed

lemma evolves_emptied:
  "sm_next_queue w \<le> sm_next_queue w' \<Longrightarrow> sm_queues w' = [] \<Longrightarrow> sm_thread_streams w' = [] \<Longrightarrow> evolves w w'"
  by (simp add: evolves_def run_count_def thread_count_def list_at_simps dict_get_def)

lemma close_stream_next: "sm_next_queue (close_stream enc w) = sm_next_queue w"
proof -
  have "sm_next_queue (finish_run_queue enc r q w) = sm_next_queue w" for r q w
    by (auto simp: finish_run_queue_def dest: stamp_fields split: prod.splits)
  then have "sm_next_queue (signal_run enc t r w) = sm_next_queue w" for t r w
    by (simp add: signal_run_def Let_def next_queue_fold)
  then show ?thesis by (simp add: close_stream_def Let_def next_queue_fold split_beta)
qed

lemma evolves_close [evolves_intros]: "evolves w (stop_stream enc w)" "evolves w (start_stream enc w)"
proof -
  show "evolves w (stop_stream enc w)"
    unfolding stop_stream_def by (rule evolves_emptied) (simp_all add: close_stream_next, simp_all add: close_stream_def Let_def)
  show "evolves w (start_stream enc w)"
    unfolding start_stream_def Let_def by (rule evolves_emptied) (simp_all add: new_stream_def close_stream_next)
qed

lemma stream_step_evolves: "stream_step enc w w' \<Longrightarrow> evolves w w'"
  by (erule stream_step.cases) (simp_all add: evolves_intros)

section \<open>The queues of a connection\<close>

definition fresh_queues :: "stream \<Rightarrow> bool" where
  "fresh_queues w \<longleftrightarrow> (\<forall>q \<ge> sm_next_queue w. (\<forall>t r. run_count w t r q = 0) \<and> (\<forall>u. thread_count w u q = 0))"

definition gone :: "stream \<Rightarrow> nat \<Rightarrow> bool" where
  "gone w q \<longleftrightarrow> (\<forall>t r. run_count w t r q = 0) \<and> (\<forall>u. thread_count w u q = 0)"

definition placed_run :: "uuid \<Rightarrow> uuid \<Rightarrow> stream \<Rightarrow> nat \<Rightarrow> bool" where
  "placed_run th r w q \<longleftrightarrow> (\<forall>t r'. run_count w t r' q \<le> (if t = TKey th \<and> r' = r then 1 else 0)) \<and> (\<forall>u. thread_count w u q = 0)"

definition placed_thread :: "uuid \<Rightarrow> stream \<Rightarrow> nat \<Rightarrow> bool" where
  "placed_thread th w q \<longleftrightarrow> (\<forall>t r. run_count w t r q = 0) \<and> (\<forall>u. thread_count w u q \<le> (if u = th then 1 else 0))"

lemma evolves_fresh: "evolves w w' \<Longrightarrow> fresh_queues w \<Longrightarrow> fresh_queues w'"
  unfolding evolves_def fresh_queues_def by (metis le_trans le_zero_eq)

lemma evolves_next: "evolves w w' \<Longrightarrow> q < sm_next_queue w \<Longrightarrow> q < sm_next_queue w'"
  by (auto simp: evolves_def)

lemma evolves_keeps:
  assumes "evolves w w'" and "q < sm_next_queue w"
  shows "gone w q \<Longrightarrow> gone w' q" and "placed_run th r w q \<Longrightarrow> placed_run th r w' q" and "placed_thread th w q \<Longrightarrow> placed_thread th w' q"
proof -
  have c: "run_count w' t r q \<le> run_count w t r q" "thread_count w' u q \<le> thread_count w u q" for t r u
    using assms by (simp_all add: evolves_def)
  have z: "run_count w t r q = 0 \<Longrightarrow> run_count w' t r q = 0" "thread_count w u q = 0 \<Longrightarrow> thread_count w' u q = 0" for t r u
    using c(1) [of t r] c(2) [of u] by simp_all
  show "gone w q \<Longrightarrow> gone w' q" using z by (simp add: gone_def)
  show "placed_run th r w q \<Longrightarrow> placed_run th r w' q"
    unfolding placed_run_def by (intro conjI allI order_trans [OF c(1)] z(2)) blast+
  show "placed_thread th w q \<Longrightarrow> placed_thread th w' q"
    unfolding placed_thread_def by (intro conjI allI order_trans [OF c(2)] z(1)) blast+
qed

lemma gone_placed: "gone w q \<Longrightarrow> placed_run th r w q"
  by (simp add: gone_def placed_run_def)

lemma remove_queue_counts:
  "run_count (remove_queue r (Some th) q w) t r' p = run_count w t r' p - (if t = TKey th \<and> r' = r \<and> p = q then 1 else 0)"
  "thread_count (remove_queue r (Some th) q w) u p = thread_count w u p"
  by (auto simp: remove_queue_def run_count_def thread_count_def list_at_remove_from count_remove1 thread_key_def)

lemma thread_streams_removed:
  "dict_get (sm_thread_streams (remove_thread_stream th q w)) u [] =
     (if u = th then remove1 q (dict_get (sm_thread_streams w) th []) else dict_get (sm_thread_streams w) u [])"
  by (auto simp: remove_thread_stream_def Let_def dict_simps remove1_idem split: option.splits) (auto simp: dict_get_def remove1_idem)

lemma remove_thread_counts:
  "run_count (remove_thread_stream th q w) t r p = run_count w t r p"
  "thread_count (remove_thread_stream th q w) u p = thread_count w u p - (if u = th \<and> p = q then 1 else 0)"
  unfolding thread_count_def thread_streams_removed
  by (auto simp: run_count_def remove_thread_stream_def Let_def count_remove1 split: option.splits)

lemma remove_run_gone:
  assumes "placed_run th r w q"
  shows "gone (remove_queue r (Some th) q w) q"
proof -
  have "run_count w t r' q \<le> (if t = TKey th \<and> r' = r then 1 else 0)" for t r'
    using assms unfolding placed_run_def by blast
  then have "run_count w t r' q - (if t = TKey th \<and> r' = r then 1 else 0) = 0" for t r' by simp
  then show ?thesis using assms by (simp add: gone_def remove_queue_counts placed_run_def)
qed

lemma remove_thread_gone:
  assumes "placed_thread th w q"
  shows "gone (remove_thread_stream th q w) q"
proof -
  have "thread_count w u q \<le> (if u = th then 1 else 0)" for u
    using assms unfolding placed_thread_def by blast
  then have "thread_count w u q - (if u = th then 1 else 0) = 0" for u by simp
  then show ?thesis using assms by (simp add: gone_def remove_thread_counts placed_thread_def)
qed

lemma add_queue_placed:
  assumes "fresh_queues w" and "add_queue r (Some th) w = (q, w')"
  shows "placed_run th r w' q"
proof -
  have "run_count w t r' q = 0" "thread_count w u q = 0" for t r' u
    using assms(1) add_queue_counts(1) [OF assms(2)] by (simp_all add: fresh_queues_def)
  then have "run_count w' t r' q \<le> (if t = TKey th \<and> r' = r then 1 else 0)" "thread_count w' u q = 0" for t r' u
    using add_queue_counts(3) [OF assms(2), of t r' q] add_queue_counts(4) [OF assms(2), of u q] by (simp_all add: thread_key_def)
  then show ?thesis unfolding placed_run_def by blast
qed

lemma subscribe_runs_places:
  assumes "fresh_queues w" and "subscribe_runs th rs seen w = (qs, seen', w')"
  shows "evolves w w' \<and> snd ` set qs = {sm_next_queue w ..< sm_next_queue w'} \<and> (\<forall>(r, q) \<in> set qs. placed_run th r w' q) \<and>
    set seen \<subseteq> set seen'"
  using assms
proof (induction rs arbitrary: seen w qs)
  case Nil
  then show ?case by (simp add: evolves_refl)
next
  case (Cons x rs)
  show ?case
  proof (cases "r_thread x = th \<and> r_id x \<notin> set seen")
    case True
    obtain q w1 where a: "add_queue (r_id x) (Some th) w = (q, w1)" by fastforce
    obtain qs' where sub: "subscribe_runs th rs (r_id x # seen) w1 = (qs', seen', w')" and qs: "qs = (r_id x, q) # qs'"
      using Cons.prems(2) True a by (auto split: prod.splits)
    have e: "evolves w w1" using evolves_add(1) [of w "r_id x" "Some th"] a by simp
    note f = add_queue_counts(1,2) [OF a]
    note IH = Cons.IH [OF evolves_fresh [OF e Cons.prems(1)] sub]
    then have "sm_next_queue w1 \<le> sm_next_queue w'" by (auto simp: evolves_def)
    then have "snd ` set qs = {sm_next_queue w ..< sm_next_queue w'}" using IH f qs by auto
    moreover have "placed_run th (r_id x) w' q"
      using evolves_keeps(2) [of w1 w' q] IH add_queue_placed [OF Cons.prems(1) a] f by simp
    ultimately show ?thesis using IH e qs by (auto intro: evolves_trans)
  next
    case False
    then have "subscribe_runs th rs seen w = (qs, seen', w')" using Cons.prems(2) by auto
    then show ?thesis by (rule Cons.IH [OF Cons.prems(1)])
  qed
qed

lemma add_thread_stream_placed:
  assumes "fresh_queues w" and "add_thread_stream th w = (q, w')"
  shows "placed_thread th w' q" and "q \<notin> set (dict_get (sm_thread_streams w') th []) \<Longrightarrow> gone w' q"
proof -
  have z: "run_count w t r q = 0" "thread_count w u q = 0" for t r u
    using assms(1) add_thread_stream_counts(1) [OF assms(2)] by (simp_all add: fresh_queues_def)
  have "run_count w' t r q = 0" "thread_count w' u q \<le> (if u = th then 1 else 0)" for t r u
    using add_thread_stream_counts(3) [OF assms(2), of t r q] add_thread_stream_counts(4) [OF assms(2), of u q] z by simp_all
  then show "placed_thread th w' q" unfolding placed_thread_def by blast
  show "gone w' q" if "q \<notin> set (dict_get (sm_thread_streams w') th [])"
    using add_thread_stream_counts(3) [OF assms(2), of _ _ q] add_thread_stream_counts(5) [OF assms(2) that, of _ q] z
    by (simp add: gone_def)
qed

text \<open>The entries of a connection: the queue of the thread itself, and the queues of runs.\<close>

definition entry_ok :: "uuid \<Rightarrow> nat option \<Rightarrow> stream \<Rightarrow> uuid \<times> nat \<Rightarrow> bool" where
  "entry_ok th tq w x \<longleftrightarrow> snd x < sm_next_queue w \<and>
     (if tq = Some (snd x) then placed_thread th w (snd x) else placed_run th (fst x) w (snd x))"

lemma entry_ok_evolves: "entry_ok th tq w x \<Longrightarrow> evolves w w' \<Longrightarrow> entry_ok th tq w' x"
  by (auto simp: entry_ok_def evolves_next evolves_keeps split: if_splits)

definition join_ok :: "uuid \<Rightarrow> thread_join \<Rightarrow> nat set \<Rightarrow> stream \<Rightarrow> bool" where
  "join_ok th j created w \<longleftrightarrow> fresh_queues w \<and> (\<forall>x \<in> set (tj_queues j). entry_ok th (tj_thread_queue j) w x) \<and>
     (\<forall>q \<in> created. q < sm_next_queue w \<and> (q \<in> snd ` set (tj_queues j) \<or> gone w q)) \<and>
     (tj_thread_queue j \<noteq> None \<longrightarrow> th \<in> set (tj_seen j)) \<and>
     (\<forall>q. tj_thread_queue j = Some q \<longrightarrow> q < sm_next_queue w)"

lemma join_ok_evolves: "join_ok th j created w \<Longrightarrow> evolves w w' \<Longrightarrow> join_ok th j created w'"
  unfolding join_ok_def using entry_ok_evolves evolves_fresh evolves_next evolves_keeps(1) by blast

lemma track_queues_plain:
  "\<forall>(r, q) \<in> set qs. q \<notin> set (dict_get (sm_thread_streams w) th []) \<Longrightarrow>
     track_queues th w qs j = j\<lparr>tj_queues := tj_queues j @ qs\<rparr>"
  unfolding track_queues_def by (induction qs arbitrary: j) (auto simp: Let_def)

lemma placed_not_thread: "placed_run th r w q \<Longrightarrow> q \<notin> set (dict_get (sm_thread_streams w) u [])"
  by (simp add: placed_run_def thread_count_def count_list_0_iff)

text \<open>A queue that is placed at its thread and is not registered there any more is gone.\<close>

lemma placed_thread_gone:
  assumes "placed_thread th w q" and "q \<notin> set (dict_get (sm_thread_streams w) th [])"
  shows "gone w q"
proof -
  have "thread_count w u q = 0" for u
    using assms by (cases "u = th") (simp add: thread_count_def, metis placed_thread_def le_zero_eq)
  then show ?thesis using assms(1) by (simp add: placed_thread_def gone_def)
qed

text \<open>A pass that has seen the thread before subscribes to new runs only.\<close>

lemma subscribed_again_ok:
  assumes "join_ok th j created w" and "thread_subscribe th rs (tj_seen j) w = (qs, seen, w')"
    and "th \<in> set (tj_seen j)"
  shows "join_ok th (track_queues th w' qs (j\<lparr>tj_seen := seen\<rparr>)) (created \<union> {sm_next_queue w ..< sm_next_queue w'}) w' \<and> evolves w w'"
proof -
  have fresh: "fresh_queues w" using assms(1) by (simp add: join_ok_def)
  have sub: "subscribe_runs th rs (tj_seen j) w = (qs, seen, w')" using assms(2,3) by (simp add: thread_subscribe_def)
  note p = subscribe_runs_places [OF fresh sub]
  have track: "track_queues th w' qs (j\<lparr>tj_seen := seen\<rparr>) = j\<lparr>tj_seen := seen, tj_queues := tj_queues j @ qs\<rparr>"
    using p placed_not_thread by (subst track_queues_plain) fastforce+
  have "entry_ok th (tj_thread_queue j) w' x" if "x \<in> set qs" for x
  proof -
    have "snd x \<in> {sm_next_queue w ..< sm_next_queue w'}" using p that by (metis image_eqI)
    moreover have "tj_thread_queue j \<noteq> Some (snd x)"
      using assms(1) calculation by (auto simp: join_ok_def)
    ultimately show ?thesis using p that by (auto simp: entry_ok_def)
  qed
  then show ?thesis
    using join_ok_evolves [OF assms(1), of w'] p assms(3) unfolding track by (auto simp: join_ok_def)
qed

text \<open>The first pass subscribes to the thread as well.\<close>

lemma subscribed_first_ok:
  assumes "join_ok th j created w" and "thread_subscribe th rs (tj_seen j) w = (qs, seen, w')"
    and "th \<notin> set (tj_seen j)"
  shows "join_ok th (track_queues th w' qs (j\<lparr>tj_seen := seen\<rparr>)) (created \<union> {sm_next_queue w ..< sm_next_queue w'}) w' \<and> evolves w w'"
proof -
  have fresh: "fresh_queues w" and none: "tj_thread_queue j = None" using assms(1,3) by (auto simp: join_ok_def)
  obtain q w1 where a: "add_thread_stream th w = (q, w1)" by fastforce
  obtain qs' where sub: "subscribe_runs th rs (th # tj_seen j) w1 = (qs', seen, w')" and qs: "qs = (th, q) # qs'"
    using assms(2,3) a by (auto simp: thread_subscribe_def split: prod.splits)
  have e: "evolves w w1" using evolves_add(2) [of w th] a by simp
  note f = add_thread_stream_counts(1,2) [OF a]
  note p = subscribe_runs_places [OF evolves_fresh [OF e fresh] sub]
  let ?S = "set (dict_get (sm_thread_streams w') th [])"
  have tq: "placed_thread th w' q" "q \<notin> ?S \<Longrightarrow> gone w' q"
  proof -
    show pl: "placed_thread th w' q"
      using evolves_keeps(3) [of w1 w' q] p add_thread_stream_placed(1) [OF fresh a] f by simp
    then show "gone w' q" if "q \<notin> ?S" using that by (rule placed_thread_gone)
  qed
  have track: "track_queues th w' qs (j\<lparr>tj_seen := seen\<rparr>) =
      j\<lparr>tj_seen := seen, tj_queues := tj_queues j @ qs, tj_thread_queue := (if q \<in> ?S then Some q else None)\<rparr>"
  proof -
    let ?j = "let j = j\<lparr>tj_seen := seen, tj_queues := tj_queues j @ [(th, q)]\<rparr> in if q \<in> ?S then j\<lparr>tj_thread_queue := Some q\<rparr> else j"
    have "track_queues th w' qs (j\<lparr>tj_seen := seen\<rparr>) = track_queues th w' qs' ?j"
      by (simp add: track_queues_def qs)
    also have "\<dots> = ?j\<lparr>tj_queues := tj_queues ?j @ qs'\<rparr>"
      using p placed_not_thread by (intro track_queues_plain) fastforce
    finally show ?thesis using none by (simp add: qs Let_def)
  qed
  have other: "snd x \<noteq> q \<and> placed_run th (fst x) w' (snd x) \<and> snd x < sm_next_queue w'" if "x \<in> set qs'" for x
  proof -
    have "snd x \<in> {sm_next_queue w1 ..< sm_next_queue w'}" using p that by (metis image_eqI)
    then show ?thesis using p that f by auto
  qed
  have next': "sm_next_queue w1 \<le> sm_next_queue w'" using p by (simp add: evolves_def)
  have new: "entry_ok th (if q \<in> ?S then Some q else None) w' x" if "x \<in> set qs" for x
  proof (cases "x \<in> set qs'")
    case True
    then show ?thesis using other [OF True] by (auto simp: entry_ok_def)
  next
    case False
    then have "x = (th, q)" using that qs by simp
    then show ?thesis using tq f next' gone_placed [of w' q th th] by (auto simp: entry_ok_def)
  qed
  have old: "entry_ok th (if q \<in> ?S then Some q else None) w' x" if "x \<in> set (tj_queues j)" for x
  proof -
    have "entry_ok th None w x" using assms(1) that none by (auto simp: join_ok_def)
    moreover have "evolves w w'" using e p by (blast intro: evolves_trans)
    ultimately show ?thesis using entry_ok_evolves [of th None w x w'] f by (auto simp: entry_ok_def)
  qed
  have "evolves w w'" using e p by (blast intro: evolves_trans)
  moreover have "snd ` set qs = {sm_next_queue w ..< sm_next_queue w'}" using p f next' qs by auto
  ultimately show ?thesis
    using join_ok_evolves [OF assms(1), of w'] p new old f next' unfolding track by (auto simp: join_ok_def)
qed

lemma subscribed_ok:
  assumes "join_ok th j created w" and "thread_subscribe th rs (tj_seen j) w = (qs, seen, w')"
  shows "join_ok th (track_queues th w' qs (j\<lparr>tj_seen := seen\<rparr>)) (created \<union> {sm_next_queue w ..< sm_next_queue w'}) w' \<and> evolves w w'"
  using subscribed_again_ok [OF assms] subscribed_first_ok [OF assms] by (cases "th \<in> set (tj_seen j)") auto

lemma drain_queues_effect:
  "drain_queues tc modes tq qs w = (fs, retired, e, w') \<Longrightarrow>
     evolves w w' \<and> sm_next_queue w' = sm_next_queue w \<and> set retired \<subseteq> set qs \<and> (\<forall>x \<in> set retired. tq \<noteq> Some (snd x))"
proof (induction qs arbitrary: w fs retired)
  case Nil
  then show ?case by (simp add: evolves_refl)
next
  case (Cons x qs)
  obtain r q where x: "x = (r, q)" by fastforce
  obtain gs rest d where d: "drain_messages tc modes r (sm_heap w q) = (gs, rest, d)" by (metis prod_cases3)
  let ?w = "w\<lparr>sm_heap := (sm_heap w)(q := rest)\<rparr>"
  have ev: "evolves w ?w" by (rule evolves_active(2))
  show ?case
  proof (cases "d = DrainEmpty \<or> d = DrainFinished")
    case True
    obtain fs' ret' e' v where rec: "drain_queues tc modes tq qs ?w = (fs', ret', e', v)" by (metis prod_cases4)
    have res: "v = w'" "e' = e" "retired = (if d = DrainFinished \<and> tq \<noteq> Some q then (r, q) # ret' else ret')"
      using Cons.prems True d rec by (auto simp: x Let_def)
    from Cons.IH [OF rec [unfolded res(1,2)]] show ?thesis
      using ev res by (auto simp: x intro: evolves_trans split: if_splits)
  next
    case False
    then have "w' = ?w" "retired = []" using Cons.prems d by (auto simp: x Let_def split: drain_end.splits)
    then show ?thesis using ev by simp
  qed
qed

lemma retire_gone:
  assumes "\<forall>x \<in> set xs. snd x < sm_next_queue w \<and> placed_run th (fst x) w (snd x)"
  shows "\<forall>x \<in> set xs. gone (fold (\<lambda>(r, q). remove_queue r (Some th) q) xs w) (snd x)"
  using assms
proof (induction xs arbitrary: w)
  case (Cons x xs)
  let ?v = "remove_queue (fst x) (Some th) (snd x) w"
  have ev: "evolves w ?v" by (rule evolves_remove(1))
  have x: "gone ?v (snd x)" "snd x < sm_next_queue ?v"
    using Cons.prems remove_run_gone [of th "fst x" w "snd x"] evolves_next [OF ev] by auto
  have "evolves ?v (fold (\<lambda>(r, q). remove_queue r (Some th) q) xs ?v)"
    by (rule evolves_fold) (simp add: split_beta evolves_remove(1))
  then have "gone (fold (\<lambda>(r, q). remove_queue r (Some th) q) xs ?v) (snd x)"
    using evolves_keeps(1) x by blast
  moreover have "\<forall>y \<in> set xs. snd y < sm_next_queue ?v \<and> placed_run th (fst y) ?v (snd y)"
    using Cons.prems evolves_next [OF ev] evolves_keeps(2) [OF ev] by auto
  ultimately show ?case using Cons.IH [of ?v] by (cases x) simp
qed simp

lemma fold_remove1_subset: "set (fold remove1 xs ys) \<subseteq> set ys"
  by (induction xs arbitrary: ys) (use set_remove1_subset in fastforce)+

lemma fold_remove1_kept: "y \<in> set ys \<Longrightarrow> y \<notin> set xs \<Longrightarrow> y \<in> set (fold remove1 xs ys)"
  by (induction xs arbitrary: ys) auto

lemma join_ok_drop:
  assumes "join_ok th k created v" and "set ys \<subseteq> set (tj_queues k)"
    and "\<And>q. q \<in> snd ` set (tj_queues k) \<Longrightarrow> q \<in> snd ` set ys \<or> gone v q"
  shows "join_ok th (k\<lparr>tj_queues := ys\<rparr>) created v"
proof -
  have "q < sm_next_queue v \<and> (q \<in> snd ` set ys \<or> gone v q)" if "q \<in> created" for q
    using assms(1) assms(3) [of q] that unfolding join_ok_def by blast
  moreover have "\<forall>x \<in> set ys. entry_ok th (tj_thread_queue k) v x"
    using assms(1,2) unfolding join_ok_def by blast
  ultimately show ?thesis using assms(1) by (simp add: join_ok_def)
qed

lemma join_pass_ok:
  assumes "join_ok th j created w" and "join_pass tc modes th rs j w = (fs, e, j', w')"
  shows "join_ok th j' (created \<union> {sm_next_queue w ..< sm_next_queue w'}) w'"
proof -
  obtain qs seen w1 where sub: "thread_subscribe th rs (tj_seen j) w = (qs, seen, w1)" by (metis prod_cases3)
  define k where "k = track_queues th w1 qs (j\<lparr>tj_seen := seen\<rparr>)"
  have k: "join_ok th k (created \<union> {sm_next_queue w ..< sm_next_queue w1}) w1"
    using subscribed_ok [OF assms(1) sub] by (simp add: k_def)
  obtain gs retired d w2 where drain: "drain_queues tc modes (tj_thread_queue k) (tj_queues k) w1 = (gs, retired, d, w2)"
    by (metis prod_cases4)
  note dr = drain_queues_effect [OF drain]
  have k2: "join_ok th k (created \<union> {sm_next_queue w ..< sm_next_queue w2}) w2"
    using join_ok_evolves [OF k] dr by simp
  show ?thesis
  proof (cases "d = Waiting")
    case False
    then have "j' = k" "w' = w2" using assms(2) sub drain by (auto simp: join_pass_def Let_def k_def)
    then show ?thesis using k2 by simp
  next
    case True
    let ?v = "fold (\<lambda>(r, q). remove_queue r (Some th) q) retired w2"
    have j': "j' = k\<lparr>tj_queues := fold remove1 retired (tj_queues k)\<rparr>" and w': "w' = ?v"
      using assms(2) sub drain True by (auto simp: join_pass_def Let_def k_def retire_queues_def)
    have ev: "evolves w2 ?v" by (rule evolves_fold) (simp add: split_beta evolves_remove(1))
    have nx: "sm_next_queue ?v = sm_next_queue w2" by (rule next_queue_fold) (simp add: split_beta remove_queue_def)
    have "snd x < sm_next_queue w2 \<and> placed_run th (fst x) w2 (snd x)" if "x \<in> set retired" for x
    proof -
      have "entry_ok th (tj_thread_queue k) w2 x" "tj_thread_queue k \<noteq> Some (snd x)"
        using k2 dr that by (auto simp: join_ok_def)
      then show ?thesis by (simp add: entry_ok_def)
    qed
    then have gone: "\<forall>x \<in> set retired. gone ?v (snd x)" by (intro retire_gone) blast
    have "q \<in> snd ` set (fold remove1 retired (tj_queues k)) \<or> gone ?v q" if q: "q \<in> snd ` set (tj_queues k)" for q
    proof -
      obtain x where x: "x \<in> set (tj_queues k)" "q = snd x" using q by (auto simp del: split_paired_All)
      show ?thesis
      proof (cases "x \<in> set retired")
        case True
        then show ?thesis using gone x(2) by blast
      next
        case False
        then show ?thesis using fold_remove1_kept [OF x(1)] x(2) by blast
      qed
    qed
    then show ?thesis
      unfolding j' w' nx by (rule join_ok_drop [OF join_ok_evolves [OF k2 ev] fold_remove1_subset])
  qed
qed

lemma cleanup_gone:
  assumes "\<forall>x \<in> set xs. entry_ok th tq w x"
  shows "\<forall>x \<in> set xs. gone (fold (\<lambda>(r, q) w. if tq = Some q then remove_thread_stream th q w else remove_queue r (Some th) q w) xs w) (snd x)"
  using assms
proof (induction xs arbitrary: w)
  case (Cons x xs)
  let ?f = "\<lambda>(r, q) w. if tq = Some q then remove_thread_stream th q w else remove_queue r (Some th) q w"
  have ev: "evolves w (?f y w)" for y w by (simp add: split_beta evolves_remove)
  have x: "gone (?f x w) (snd x)" "snd x < sm_next_queue (?f x w)"
    using Cons.prems remove_run_gone [of th "fst x" w "snd x"] remove_thread_gone [of th w "snd x"] evolves_next [OF ev [of w x]]
    by (auto simp: entry_ok_def split_beta split: if_splits)
  have "gone (fold ?f xs (?f x w)) (snd x)"
    using evolves_keeps(1) [OF evolves_fold [of ?f, OF ev] x(2)] x(1) by blast
  moreover have "\<forall>y \<in> set xs. entry_ok th tq (?f x w) y"
    using Cons.prems entry_ok_evolves [OF _ ev [of w x]] by simp
  ultimately show ?case
    unfolding fold_simps(2) list.set(2) ball_simps(7) using Cons.IH [of "?f x w"] by (intro conjI)
qed simp

section \<open>The property\<close>

text \<open>A connection: it starts on a reachable manager, makes passes with whatever runs the thread has
  then, and others change the manager in between. The set holds the queues its passes created.\<close>

inductive join_session :: "codec \<Rightarrow> thread_codec \<Rightarrow> string list \<Rightarrow> uuid \<Rightarrow> thread_join \<Rightarrow> nat set \<Rightarrow> stream \<Rightarrow> bool"
  for enc tc modes th where
  start: "stream_reachable enc wall w \<Longrightarrow> join_session enc tc modes th new_join {} w"
| pass: "join_session enc tc modes th j created w \<Longrightarrow> join_pass tc modes th rs j w = (fs, e, j', w') \<Longrightarrow>
    join_session enc tc modes th j' (created \<union> {sm_next_queue w ..< sm_next_queue w'}) w'"
| other: "join_session enc tc modes th j created w \<Longrightarrow> stream_step enc w w' \<Longrightarrow> join_session enc tc modes th j created w'"

lemma reachable_fresh: "stream_reachable enc wall w \<Longrightarrow> fresh_queues w"
proof (induction rule: stream_reachable.induct)
  case reach_init
  show ?case by (simp add: fresh_queues_def new_stream_def run_count_def thread_count_def list_at_simps dict_get_def)
next
  case (reach_step w w')
  then show ?case using evolves_fresh stream_step_evolves by blast
qed

lemma join_session_ok: "join_session enc tc modes th j created w \<Longrightarrow> join_ok th j created w"
proof (induction rule: join_session.induct)
  case (start wall w)
  then show ?case by (simp add: join_ok_def reachable_fresh new_join_def)
next
  case (pass j created w rs fs e j' w')
  then show ?case using join_pass_ok by blast
next
  case (other j created w w')
  then show ?case using join_ok_evolves stream_step_evolves by blast
qed

text \<open>C36: A connection to the stream of a thread releases every queue it made. Whatever runs come and
  go, whatever others publish, subscribe, delete or restart meanwhile, and whenever it ends: after its
  cleanup no queue it ever created is registered for a run or for a thread.\<close>

theorem thread_join_releases:
  assumes "join_session enc tc modes th j created w" and "q \<in> created"
  shows "q \<notin> set (list_at (sm_queues (join_cleanup th j w)) t r) \<and>
    q \<notin> set (dict_get (sm_thread_streams (join_cleanup th j w)) u [])"
proof -
  note ok = join_session_ok [OF assms(1)]
  have "evolves w (join_cleanup th j w)"
    unfolding join_cleanup_def by (rule evolves_fold) (simp add: split_beta evolves_remove)
  moreover have "\<forall>x \<in> set (tj_queues j). gone (join_cleanup th j w) (snd x)"
    unfolding join_cleanup_def by (rule cleanup_gone) (use ok in \<open>simp add: join_ok_def\<close>)
  moreover have "q < sm_next_queue w" "q \<in> snd ` set (tj_queues j) \<or> gone w q"
    using ok assms(2) by (simp_all add: join_ok_def)
  ultimately have "gone (join_cleanup th j w) q"
    using evolves_keeps(1) by auto
  then show ?thesis by (simp add: gone_def run_count_def thread_count_def count_list_0_iff)
qed

text \<open>One pass on a fresh manager: queue 0 follows the thread and queue 1 its run; the cleanup removes both.\<close>

definition demo_manager :: stream where
  "demo_manager = new_stream (\<lambda>_. []) 0 (init_ids (\<lambda>_. 5))"

definition demo_thread_codec :: thread_codec where
  "demo_thread_codec = \<lparr>tc_decode = (\<lambda>t d. Inr (''values'', d)), tc_loads = (\<lambda>_. Inl ValueError), tc_dumps = (\<lambda>_. [])\<rparr>"

definition demo_thread_run :: run where
  "demo_thread_run = \<lparr>r_id = 8, r_thread = 2, r_assistant = 7, r_metadata = [], r_status = RPending, r_kwargs = [],
     r_multitask = MEnqueue, r_created_at = 0, r_updated_at = 0\<rparr>"

lemma demo_thread_pass:
  "\<exists>fs e j w. join_pass demo_thread_codec [''run_modes''] 2 [demo_thread_run] new_join demo_manager = (fs, e, j, w) \<and>
     tj_queues j = [(2, 0), (8, 1)] \<and> sm_next_queue w = 2 \<and> get_queues 8 (Some 2) w = [1] \<and> dict_get (sm_thread_streams w) 2 [] = [0]"
  by (simp add: join_pass_def thread_subscribe_def new_join_def demo_manager_def new_stream_def demo_thread_run_def add_thread_stream_def
      add_queue_def new_queue_def Let_def track_queues_def retire_queues_def get_queues_def list_at_def dict_get_def thread_key_def dict_simps)

theorem thread_join_releases_witness:
  "\<exists>j w. dict_get (sm_thread_streams w) 2 [] = [0] \<and> get_queues 8 (Some 2) w = [1] \<and>
     0 \<notin> set (dict_get (sm_thread_streams (join_cleanup 2 j w)) 2 []) \<and> 1 \<notin> set (get_queues 8 (Some 2) (join_cleanup 2 j w))"
proof -
  obtain fs e j w where p: "join_pass demo_thread_codec [''run_modes''] 2 [demo_thread_run] new_join demo_manager = (fs, e, j, w)"
    "sm_next_queue w = 2" "get_queues 8 (Some 2) w = [1]" "dict_get (sm_thread_streams w) 2 [] = [0]"
    using demo_thread_pass by blast
  have "stream_reachable demo_codec (\<lambda>_. 5) demo_manager"
    unfolding demo_manager_def by (rule stream_reachable.reach_init)
  from join_session.pass [OF join_session.start [OF this] p(1)]
  have s: "join_session demo_codec demo_thread_codec [''run_modes''] 2 j {0 ..< 2} w"
    by (simp add: p(2) demo_manager_def new_stream_def)
  show ?thesis
    using p(3,4) thread_join_releases [OF s, of 0] thread_join_releases [OF s, of 1]
    by (intro exI [of _ j] exI [of _ w]) (simp add: get_queues_def)
qed

section \<open>What a connection misses\<close>

text \<open>The replay reads the stored messages before the first pass subscribes. A message published in
  between goes to the queues registered then, so that the connection never sees it: the queue of its
  run starts empty.\<close>

lemma first_pass_misses:
  assumes "add_queue r (Some th) (put_message r (Some th) m True w) = (q, w')" and "\<not> sm_stopped w"
    and "(TKey th, r) \<notin> set (sm_pending_run_deletes w)"
  shows "sm_heap w' q = [] \<and> (\<exists>x. last (list_at (sm_message_stores w') (TKey th) r) = x \<and> m_data x = m_data m)"
proof -
  obtain m' w1 where s: "stamp m w = (m', w1)" by fastforce
  have m': "m_data m' = m_data m" "sm_message_stores w1 = sm_message_stores w"
    "sm_stopped w1 = sm_stopped w" "sm_pending_run_deletes w1 = sm_pending_run_deletes w"
    using s by (auto simp: stamp_def split: prod.splits)
  have stores: "sm_message_stores (fold (queue_put m') qs x) = sm_message_stores x"
    "sm_stopped (fold (queue_put m') qs x) = sm_stopped x"
    "sm_pending_run_deletes (fold (queue_put m') qs x) = sm_pending_run_deletes x" for qs x
    by (induction qs arbitrary: x) (simp_all add: queue_put_def)
  let ?p = "put_message r (Some th) m True w"
  have p: "list_at (sm_message_stores ?p) (TKey th) r = list_at (sm_message_stores w) (TKey th) r @ [m']"
    "\<not> sm_stopped ?p" "(TKey th, r) \<notin> set (sm_pending_run_deletes ?p)"
    using assms(2,3) s m' by (simp_all add: put_message_def thread_key_def stores list_at_simps Let_def)
  then have "sm_heap w' q = []" "sm_message_stores w' = sm_message_stores ?p"
    using assms(1) by (auto simp: add_queue_def new_queue_def Let_def thread_key_def)
  then show ?thesis using p(1) m'(1) by simp
qed

text \<open>Sorting by the text of the id puts sequence number 10 before 9.\<close>

lemma ids_as_text:
  "map event_id (sort_key event_id (map (\<lambda>i. (\<lparr>m_topic = [], m_data = [], m_id = Some i\<rparr>, 0)) [''5-9'', ''5-10''])) = [''5-10'', ''5-9'']"
  by code_simp

end
