(* ===== verification/Thread_State.thy ===== *)
theory Thread_State
  imports Thread_Streams Thread_Safety
begin

text \<open>
  The state of a thread (\<open>Threads.State\<close> of \<open>ops.py\<close>): reading it, updating it by hand, in bulk, and
  its history. The graph computes states and writes checkpoints through the saver; it belongs to
  \<open>langgraph\<close> and is a parameter, as are the mapping of commands and the JSON of a published state.
  The prefetch of the latest checkpoint only saves a read.
\<close>

section \<open>Snapshots and graphs\<close>

text \<open>\<open>sn_rest\<close> stands for the configurations and the time of creation.\<close>

record snapshot =
  sn_values :: pyval
  sn_next :: "string list"
  sn_tasks :: "(string \<times> pyval list) list"
  sn_metadata :: "dict option"
  sn_rest :: pyval

definition empty_snapshot :: snapshot where
  "empty_snapshot = \<lparr>sn_values = PDict [], sn_next = [], sn_tasks = [], sn_metadata = None, sn_rest = PNone\<rparr>"

record graph_api =
  ga_get_state :: "pyval \<Rightarrow> dict \<Rightarrow> dict \<Rightarrow> bool \<Rightarrow> saver \<Rightarrow> snapshot res"
  ga_update_state :: "pyval \<Rightarrow> dict \<Rightarrow> dict \<Rightarrow> pyval \<Rightarrow> string option \<Rightarrow> saver \<Rightarrow> dict res \<times> saver"
  ga_bulk_update :: "pyval \<Rightarrow> dict \<Rightarrow> dict \<Rightarrow> (pyval \<times> pyval) list list \<Rightarrow> saver \<Rightarrow> dict res \<times> saver"
  ga_history :: "pyval \<Rightarrow> dict \<Rightarrow> dict \<Rightarrow> nat \<Rightarrow> dict option \<Rightarrow> pyval \<Rightarrow> saver \<Rightarrow> snapshot list res"
  ga_map_cmd :: "pyval \<Rightarrow> pyval"
  ga_state_json :: "snapshot \<Rightarrow> uuid \<Rightarrow> string"

text \<open>\<open>d[k]\<close>.\<close>

definition py_index :: "pyval \<Rightarrow> string \<Rightarrow> pyval res" where
  "py_index v k =
     (case v of
        PDict d \<Rightarrow> (case map_of d k of None \<Rightarrow> Inl KeyError | Some x \<Rightarrow> Inr x)
      | _ \<Rightarrow> Inl TypeError)"

definition with_configurable :: "dict \<Rightarrow> dict \<Rightarrow> dict" where
  "with_configurable thread_config config =
     AList.update ''configurable'' (PDict (dict_merge (get_configurable thread_config) (get_configurable config))) thread_config"

text \<open>\<open>config["configurable"].setdefault(k, v)\<close>.\<close>

definition set_default :: "string \<Rightarrow> pyval \<Rightarrow> dict \<Rightarrow> dict" where
  "set_default k v config =
     (let c = get_configurable config
      in AList.update ''configurable'' (PDict (if has_key c k then c else AList.update k v c)) config)"

definition graph_of_run :: "run \<Rightarrow> pyval res" where
  "graph_of_run r =
     res_bind (py_index (PDict (r_kwargs r)) ''config'') (\<lambda>c.
     res_bind (py_index c ''configurable'') (\<lambda>c. py_index c ''graph_id''))"

definition state_graph_id :: "uuid \<Rightarrow> run list \<Rightarrow> thread \<Rightarrow> pyval res" where
  "state_graph_id thread_id rs t =
     (let g = dict_get (t_metadata t) ''graph_id'' PNone in
      if truthy g then Inr g
      else case find (\<lambda>r. r_thread r = thread_id) rs of None \<Rightarrow> Inr g | Some r \<Rightarrow> graph_of_run r)"

section \<open>Reading\<close>

definition drop_root_ns :: "snapshot \<Rightarrow> snapshot" where
  "drop_root_ns sn =
     (case sn_metadata sn of
        None \<Rightarrow> sn
      | Some m \<Rightarrow> if map_of m ''checkpoint_ns'' = Some (PStr []) then sn\<lparr>sn_metadata := Some (AList.delete ''checkpoint_ns'' m)\<rparr> else sn)"

definition state_get :: "env \<Rightarrow> graph_api \<Rightarrow> uuid \<Rightarrow> dict \<Rightarrow> bool \<Rightarrow> snapshot act" where
  "state_get env ga thread_id config subgraphs =
     bind (threads_get env thread_id False) (\<lambda>(t, _).
     bind (reads id) (\<lambda>s.
     bind (lift_res (state_graph_id thread_id (s_runs s) t)) (\<lambda>g.
       if truthy g
       then bind (lift_res (ga_get_state ga g (with_configurable (t_config t) config) config subgraphs (s_saver s))) (\<lambda>sn.
              ret (drop_root_ns sn))
       else ret empty_snapshot)))"

definition history_before :: "pyval \<Rightarrow> pyval" where
  "history_before b = (case b of PStr s \<Rightarrow> PDict [(''configurable'', PDict [(''checkpoint_id'', PStr s)])] | _ \<Rightarrow> b)"

definition state_list :: "env \<Rightarrow> graph_api \<Rightarrow> uuid \<Rightarrow> dict \<Rightarrow> nat \<Rightarrow> pyval \<Rightarrow> dict option \<Rightarrow> snapshot list act" where
  "state_list env ga thread_id config limit b metadata =
     bind (lift_res (auth_filters env AThreads ARead (Some thread_id))) (\<lambda>filters.
     bind (threads_get env thread_id False) (\<lambda>(t, _).
     bind (lift_res (allowed (t_metadata t) filters)) (\<lambda>ok.
       if \<not> ok then ret []
       else let g = dict_get (t_metadata t) ''graph_id'' PNone in
            if truthy g
            then bind (reads s_saver) (\<lambda>sv. lift_res (ga_history ga g (with_configurable (t_config t) config) config limit metadata (history_before b) sv))
            else ret [])))"

section \<open>Updating\<close>

definition state_payload :: "snapshot \<Rightarrow> checkpoint_payload" where
  "state_payload sn = \<lparr>cpl_next = sn_next sn, cpl_values = sn_values sn, cpl_tasks = map (\<lambda>(i, is). (i, Some is)) (sn_tasks sn)\<rparr>"

text \<open>What both updates do once the checkpoint is written: the state is read back, the row of the
  thread follows it, and the subscribers of the thread are told.\<close>

definition commit_state :: "env \<Rightarrow> graph_api \<Rightarrow> uuid \<Rightarrow> dict \<Rightarrow> unit act" where
  "commit_state env ga thread_id config =
     bind (state_get env ga thread_id config False) (\<lambda>sn.
     bind (threads_set_status env thread_id (Some (state_payload sn)) None) (\<lambda>_.
       modify (\<lambda>s. s\<lparr>s_stream := thread_publish (e_codec env) thread_id ''state_update'' (ga_state_json ga sn thread_id) (s_stream s)\<rparr>)))"

definition saver_act :: "(saver \<Rightarrow> 'a res \<times> saver) \<Rightarrow> 'a act" where
  "saver_act f s = (case f (s_saver s) of (r, sv) \<Rightarrow> (r, s\<lparr>s_saver := sv\<rparr>))"

text \<open>The configuration of an update: \<open>checkpoint_ns\<close> is the empty string unless it is given.\<close>

definition update_config :: "dict \<Rightarrow> dict" where
  "update_config config =
     (let c = get_configurable config
      in AList.update ''configurable'' (PDict (AList.update ''checkpoint_ns'' (dict_get c ''checkpoint_ns'' (PStr [])) c)) config)"

definition state_post :: "env \<Rightarrow> graph_api \<Rightarrow> uuid \<Rightarrow> dict \<Rightarrow> pyval \<Rightarrow> string option \<Rightarrow> (pyval \<times> pyval) act" where
  "state_post env ga thread_id config values as_node =
     bind (lift_res (auth_filters env AThreads AUpdate (Some thread_id))) (\<lambda>filters.
     bind (threads_get env thread_id False) (\<lambda>(t, _).
     bind (lift_res (allowed (t_metadata t) filters)) (\<lambda>ok.
       if \<not> ok then raise (HTTPException 403)
       else bind (reads s_runs) (\<lambda>rs.
         if inflight_runs thread_id rs \<noteq> [] then raise (HTTPException 409)
         else bind (lift_res (state_graph_id thread_id rs t)) (\<lambda>g.
           if \<not> truthy g then raise (HTTPException 400)
           else let thread_config = with_configurable (t_config t) config; config = set_default ''graph_id'' g config in
             bind (saver_act (ga_update_state ga g thread_config (update_config config) values as_node)) (\<lambda>next_config.
             bind (commit_state env ga thread_id config) (\<lambda>_.
             bind (lift_res (py_index (PDict next_config) ''configurable'')) (\<lambda>c.
             bind (lift_res (py_index c ''checkpoint_id'')) (\<lambda>i. ret (c, i))))))))))"

text \<open>\<open>StateUpdate(map_cmd(command) if command else values, as_node)\<close>.\<close>

definition state_update :: "graph_api \<Rightarrow> dict \<Rightarrow> pyval \<times> pyval" where
  "state_update ga u =
     (let command = dict_get u ''command'' PNone
      in (if truthy command then ga_map_cmd ga command else dict_get u ''values'' PNone, dict_get u ''as_node'' PNone))"

definition state_bulk :: "env \<Rightarrow> graph_api \<Rightarrow> uuid \<Rightarrow> dict \<Rightarrow> dict list list \<Rightarrow> pyval act" where
  "state_bulk env ga thread_id config supersteps =
     bind (lift_res (auth_filters env AThreads AUpdate (Some thread_id))) (\<lambda>filters.
     bind (threads_get env thread_id False) (\<lambda>(t, _).
     bind (lift_res (allowed (t_metadata t) filters)) (\<lambda>ok.
       if \<not> ok then raise (HTTPException 403)
       else let g = dict_get (t_metadata t) ''graph_id'' PNone in
         if \<not> truthy g then raise (HTTPException 400)
         else let thread_config = with_configurable (t_config t) config;
                  config = set_default ''checkpoint_ns'' (PStr []) (set_default ''graph_id'' g config) in
           bind (saver_act (ga_bulk_update ga g thread_config config (map (map (state_update ga)) supersteps))) (\<lambda>next_config.
           bind (commit_state env ga thread_id config) (\<lambda>_.
             lift_res (py_index (PDict next_config) ''configurable''))))))"

section \<open>What an update does\<close>

lemma threads_get_effect:
  assumes "threads_get env th False s = (r, s')"
  shows "s_runs s' = s_runs s" "s_saver s' = s_saver s" "s_stream s' = s_stream s"
    "find_thread th (s_threads s') = None \<longleftrightarrow> find_thread th (s_threads s) = None"
    "r = Inr x \<Longrightarrow> find_thread th (s_threads s) \<noteq> None"
proof -
  have "find_thread th (update_first (\<lambda>t. t_id t = th) with_state_time ts) = map_option with_state_time (find_thread th ts)" for ts
    unfolding find_thread_def by (simp add: find_update_first with_state_time_def)
  with assms show "s_runs s' = s_runs s" "s_saver s' = s_saver s" "s_stream s' = s_stream s"
    "find_thread th (s_threads s') = None \<longleftrightarrow> find_thread th (s_threads s) = None"
    "r = Inr x \<Longrightarrow> find_thread th (s_threads s) \<noteq> None"
    by (auto simp: threads_get_def threads_get_opt_def get_with_filters_def act_defs set_thread_def
        split: prod.splits sum.splits option.splits if_splits)
qed

lemma state_get_effect:
  assumes "state_get env ga th config sub s = (r, s')"
  shows "s_runs s' = s_runs s" "s_saver s' = s_saver s" "s_stream s' = s_stream s"
    "find_thread th (s_threads s') = None \<longleftrightarrow> find_thread th (s_threads s) = None"
proof -
  obtain x s1 where g: "threads_get env th False s = (x, s1)" by fastforce
  have "s' = s1" using assms g
    by (auto simp: state_get_def bind_def reads_def lift_res_def ret_def split: sum.splits prod.splits if_splits)
  then show "s_runs s' = s_runs s" "s_saver s' = s_saver s" "s_stream s' = s_stream s"
    "find_thread th (s_threads s') = None \<longleftrightarrow> find_thread th (s_threads s) = None"
    using threads_get_effect [OF g] by simp_all
qed

lemma threads_get_result:
  assumes "threads_get env th False s = (Inr (t, x), s')"
  shows "\<exists>t0. find_thread th (s_threads s) = Some t0 \<and> t = with_state_time t0 \<and> find_thread th (s_threads s') = Some t"
proof -
  have "find_thread th (update_first (\<lambda>t. t_id t = th) with_state_time ts) = map_option with_state_time (find_thread th ts)" for ts
    unfolding find_thread_def by (simp add: find_update_first with_state_time_def)
  with assms show ?thesis
    by (auto simp: threads_get_def threads_get_opt_def get_with_filters_def act_defs set_thread_def
        split: prod.splits sum.splits option.splits if_splits)
qed

lemma state_graph_id_time [simp]: "state_graph_id th rs (with_state_time t) = state_graph_id th rs t"
  by (simp add: state_graph_id_def with_state_time_def)

lemma state_get_reads:
  assumes "state_get env ga th conf sub s = (Inr sn, s')" and "find_thread th (s_threads s) = Some t"
    and "state_graph_id th (s_runs s) t = Inr g" and "truthy g"
  shows "\<exists>tc sn0. ga_get_state ga g tc conf sub (s_saver s) = Inr sn0 \<and> sn = drop_root_ns sn0"
proof -
  obtain t1 x s1 where g: "threads_get env th False s = (Inr (t1, x), s1)"
    using assms(1) by (auto simp: state_get_def bind_def split: prod.splits sum.splits)
  have "t1 = with_state_time t" using threads_get_result [OF g] assms(2) by auto
  moreover have "s_runs s1 = s_runs s" "s_saver s1 = s_saver s" using threads_get_effect [OF g] by simp_all
  ultimately show ?thesis
    using assms(1,3,4) g by (auto simp: state_get_def bind_def reads_def lift_res_def ret_def split: sum.splits)
qed

text \<open>The row of a thread that follows a snapshot.\<close>

definition follows :: "env \<Rightarrow> snapshot \<Rightarrow> thread \<Rightarrow> bool" where
  "follows env sn t \<longleftrightarrow> t_status t = (if sn_next sn \<noteq> [] then TInterrupted else TIdle) \<and> t_values t = Some (sn_values sn) \<and>
     t_interrupts t = Some (payload_interrupts env (Some (state_payload sn))) \<and> t_error t = Some PNone"

lemma set_status_follows:
  assumes "threads_set_status env th (Some (state_payload sn)) None s = (Inr u, s')" and "\<not> has_active_runs th (s_runs s)"
  shows "\<exists>t. find_thread th (s_threads s') = Some t \<and> follows env sn t"
    and "s_runs s' = s_runs s" "s_saver s' = s_saver s" "s_stream s' = s_stream s"
proof -
  obtain t where t: "find_thread th (s_threads s) = Some t"
    using assms(1) by (auto simp: threads_set_status_def act_defs split: option.splits)
  let ?f = "status_update env (e_clock env (s_clock s)) (base_status False (Some (state_payload sn))) (Some (state_payload sn)) None"
  have s': "s' = set_thread th ?f (s\<lparr>s_clock := Suc (s_clock s)\<rparr>)"
    using assms t by (simp add: threads_set_status_def act_defs Let_def)
  have "find_thread th (s_threads s') = Some (?f t)"
    using t unfolding s' set_thread_def find_thread_def by (simp add: find_update_first status_update_def)
  then show "\<exists>t. find_thread th (s_threads s') = Some t \<and> follows env sn t"
    by (simp add: follows_def status_update_def base_status_def has_next_def state_payload_def)
  show "s_runs s' = s_runs s" "s_saver s' = s_saver s" "s_stream s' = s_stream s"
    by (simp_all add: s' set_thread_def)
qed

lemma commit_state_follows:
  assumes "commit_state env ga th config s = (Inr u, s')" and "\<not> has_active_runs th (s_runs s)"
    and "find_thread th (s_threads s) = Some t0" and "state_graph_id th (s_runs s) t0 = Inr g" and "truthy g"
  shows "\<exists>tc sn0 sn t. ga_get_state ga g tc config False (s_saver s) = Inr sn0 \<and> sn = drop_root_ns sn0 \<and>
    find_thread th (s_threads s') = Some t \<and> follows env sn t \<and>
    s_stream s' = thread_publish (e_codec env) th ''state_update'' (ga_state_json ga sn th) (s_stream s)"
    and "s_runs s' = s_runs s" "s_saver s' = s_saver s"
proof -
  obtain sn s1 where get: "state_get env ga th config False s = (Inr sn, s1)"
    using assms(1) by (auto simp: commit_state_def bind_def split: prod.splits sum.splits)
  obtain s2 where st: "threads_set_status env th (Some (state_payload sn)) None s1 = (Inr (), s2)"
    and s': "s' = s2\<lparr>s_stream := thread_publish (e_codec env) th ''state_update'' (ga_state_json ga sn th) (s_stream s2)\<rparr>"
    using assms(1) get by (auto simp: commit_state_def bind_def modify_def split: prod.splits sum.splits)
  note e = state_get_effect [OF get]
  have "\<not> has_active_runs th (s_runs s1)" using assms(2) e(1) by simp
  note f = set_status_follows [OF st this]
  show "\<exists>tc sn0 sn t. ga_get_state ga g tc config False (s_saver s) = Inr sn0 \<and> sn = drop_root_ns sn0 \<and>
      find_thread th (s_threads s') = Some t \<and> follows env sn t \<and>
      s_stream s' = thread_publish (e_codec env) th ''state_update'' (ga_state_json ga sn th) (s_stream s)"
    using state_get_reads [OF get assms(3-5)] f(1,4) e(3) by (auto simp: s')
  show "s_runs s' = s_runs s" "s_saver s' = s_saver s" using f(2,3) e(1,2) by (simp_all add: s')
qed

lemma inflight_active: "inflight_runs th rs = [] \<longleftrightarrow> \<not> has_active_runs th rs"
  by (auto simp: inflight_runs_def has_active_runs_def filter_empty_conv)

text \<open>C37: A state is updated by hand only on a thread at rest, and its row then shows the new state. With
  a pending or running run the update is refused and neither the checkpoints nor any stream change. When
  it succeeds, the runs are as before, the checkpoints are those the graph wrote, the thread is
  interrupted or idle as the new state says, with its values and interrupts and without an error, and
  one event with the state is published to the subscribers of the thread.\<close>

theorem state_post_guarded:
  assumes "state_post env ga th config vals as_node s = (res, s')"
  shows "(has_active_runs th (s_runs s) \<longrightarrow> isl res \<and> s_saver s' = s_saver s \<and> s_stream s' = s_stream s \<and> s_runs s' = s_runs s) \<and>
    (\<forall>c. res = Inr c \<longrightarrow> s_runs s' = s_runs s \<and>
       (\<exists>g tc uc r. ga_update_state ga g tc uc vals as_node (s_saver s) = (Inr r, s_saver s') \<and>
         (\<exists>tc' conf sn0 sn t. ga_get_state ga g tc' conf False (s_saver s') = Inr sn0 \<and> sn = drop_root_ns sn0 \<and>
            find_thread th (s_threads s') = Some t \<and> follows env sn t \<and>
            s_stream s' = thread_publish (e_codec env) th ''state_update'' (ga_state_json ga sn th) (s_stream s))))"
proof -
  obtain x s1 where get: "threads_get env th False s = (x, s1)" by fastforce
  note e = threads_get_effect [OF get]
  show ?thesis
  proof (cases "has_active_runs th (s_runs s)")
    case True
    then have "inflight_runs th (s_runs s1) \<noteq> []" using inflight_active e(1) by metis
    then have "isl res \<and> (s' = s \<or> s' = s1)"
      using assms get by (auto simp: state_post_def bind_def lift_res_def raise_def reads_def split: sum.splits prod.splits if_splits)
    then show ?thesis using e True by auto
  next
    case False
    have "s_runs s' = s_runs s \<and>
        (\<exists>g tc uc r. ga_update_state ga g tc uc vals as_node (s_saver s) = (Inr r, s_saver s') \<and>
         (\<exists>tc' conf sn0 sn t. ga_get_state ga g tc' conf False (s_saver s') = Inr sn0 \<and> sn = drop_root_ns sn0 \<and>
            find_thread th (s_threads s') = Some t \<and> follows env sn t \<and>
            s_stream s' = thread_publish (e_codec env) th ''state_update'' (ga_state_json ga sn th) (s_stream s)))"
      if c: "res = Inr c" for c
    proof -
      obtain t y g tc uc conf r s2 u where t: "x = Inr (t, y)" and g: "state_graph_id th (s_runs s1) t = Inr g" "truthy g"
        and up: "saver_act (ga_update_state ga g tc uc vals as_node) s1 = (Inr r, s2)"
        and co: "commit_state env ga th conf s2 = (Inr u, s')"
        using assms c get
        by (auto simp: state_post_def bind_def lift_res_def raise_def reads_def ret_def Let_def split: sum.splits prod.splits if_splits)
      have s2: "ga_update_state ga g tc uc vals as_node (s_saver s1) = (Inr r, s_saver s2)" "s_runs s2 = s_runs s1"
        "s_stream s2 = s_stream s1" "s_threads s2 = s_threads s1"
        using up by (auto simp: saver_act_def split: prod.splits)
      have found: "find_thread th (s_threads s2) = Some t" using threads_get_result [OF get [unfolded t]] s2(4) by auto
      have "\<not> has_active_runs th (s_runs s2)" using False s2(2) e(1) by simp
      note f = commit_state_follows [OF co this found g(1) [folded s2(2)] g(2)]
      have "s_runs s' = s_runs s" using f(2) s2(2) e(1) by simp
      moreover have "ga_update_state ga g tc uc vals as_node (s_saver s) = (Inr r, s_saver s')"
        using s2(1) f(3) e(2) by simp
      ultimately show ?thesis using f(1) s2(3) f(3) e(3) by (simp only:) blast
    qed
    then show ?thesis using False by blast
  qed
qed

text \<open>A graph with one state, which has a next node.\<close>

definition demo_graph :: graph_api where
  "demo_graph = \<lparr>ga_get_state = (\<lambda>_ _ _ _ _. Inr \<lparr>sn_values = PInt 1, sn_next = [''n''], sn_tasks = [], sn_metadata = None, sn_rest = PNone\<rparr>),
     ga_update_state = (\<lambda>_ _ _ _ _ sv. (Inr [(''configurable'', PDict [(''checkpoint_id'', PStr ''c'')])], sv)),
     ga_bulk_update = (\<lambda>_ _ _ _ sv. (Inr [], sv)), ga_history = (\<lambda>_ _ _ _ _ _ _. Inr []), ga_map_cmd = id, ga_state_json = (\<lambda>_ _. [])\<rparr>"

definition demo_assigned :: sys where
  "demo_assigned = empty_sys\<lparr>s_threads := [new_thread 1 0 [(''graph_id'', PStr ''g'')] (Some PNone)]\<rparr>"

lemmas state_acts = act_defs saver_act_def commit_state_def state_get_def threads_get_def threads_get_opt_def get_with_filters_def
  threads_set_status_def

lemma demo_post: "\<not> isl (fst (state_post demo_env demo_graph 1 [] PNone None demo_assigned))"
  by (simp add: state_post_def state_acts demo_assigned_def empty_sys_def find_thread_def allowed_def inflight_runs_def
      state_graph_id_def new_thread_def with_state_time_def state_time_def dict_get_def demo_graph_def set_thread_def py_index_def Let_def)

theorem state_post_guarded_witness:
  "\<exists>c s' t. state_post demo_env demo_graph 1 [] PNone None demo_assigned = (Inr c, s') \<and> find_thread 1 (s_threads s') = Some t \<and>
     t_status t = TInterrupted \<and> t_values t = Some (PInt 1)"
proof -
  obtain c s' where post: "state_post demo_env demo_graph 1 [] PNone None demo_assigned = (Inr c, s')"
    using demo_post by (metis isl_def prod.collapse sum.exhaust)
  from state_post_guarded [OF post] obtain t where "find_thread 1 (s_threads s') = Some t" "t_status t = TInterrupted" "t_values t = Some (PInt 1)"
    by (auto simp: demo_graph_def follows_def drop_root_ns_def)
  with post show ?thesis by blast
qed

text \<open>A bulk update makes no such check: it writes checkpoints under a running run, and reports the
  thread as busy.\<close>

definition demo_running :: sys where
  "demo_running = demo_assigned\<lparr>s_runs := [\<lparr>r_id = 8, r_thread = 1, r_assistant = 7, r_metadata = [], r_status = RRunning, r_kwargs = [],
     r_multitask = MEnqueue, r_created_at = 0, r_updated_at = 0\<rparr>]\<rparr>"

lemma bulk_under_running_run:
  "fst (state_bulk demo_env (demo_graph\<lparr>ga_bulk_update := \<lambda>_ _ _ _ sv. (Inr [(''configurable'', PNone)], sv)\<rparr>) 1 [] [] demo_running) = Inr PNone \<and>
   fst (state_post demo_env demo_graph 1 [] PNone None demo_running) = Inl (HTTPException 409)"
  by (simp add: state_bulk_def state_post_def state_acts demo_running_def demo_assigned_def empty_sys_def find_thread_def allowed_def inflight_runs_def
      state_graph_id_def new_thread_def with_state_time_def state_time_def dict_get_def demo_graph_def set_thread_def py_index_def Let_def active_status_def)

end
