(* ===== verification/Process.thy ===== *)
theory Process
  imports Persistence
begin

text \<open>
  The singletons of the process that own files: the tables and retry counters (\<open>database.py\<close>), the
  item store with its sweeper (\<open>store.py\<close>) and the checkpoint saver with its serializer views
  (\<open>checkpoint.py\<close>), on the registry of persistent dictionaries. How they are created, configured
  again, closed and stopped. The contents of the dictionaries belong to the other components.

  \<open>PersistentDict\<close> belongs to \<open>langgraph\<close>: what \<open>load\<close> gives for a file that exists and whether \<open>close\<close>
  succeeds are parameters. Dictionaries are numbered so that the file can be read off the number.
\<close>

section \<open>State\<close>

definition file_slots :: "string list" where
  "file_slots =
     [''.langgraph_api/.langgraph_ops.pckl'', ''.langgraph_api/.langgraph_retry_counter.pckl'',
      ''.langgraph_api/store.pckl'', ''.langgraph_api/store.vectors.pckl'', ''.langgraph_api/store.ttl.pckl'',
      ''.langgraph_api/.langgraph_checkpoint.1.pckl'', ''.langgraph_api/.langgraph_checkpoint.2.pckl'',
      ''.langgraph_api/.langgraph_checkpoint.3.pckl'']"

definition file_of :: "obj \<Rightarrow> string" where
  "file_of d = file_slots ! (d mod 8)"

definition new_dict :: "nat \<Rightarrow> nat \<Rightarrow> obj" where
  "new_dict n slot = 8 * n + slot"

text \<open>\<open>GLOBAL_STORE\<close> and the dictionary of \<open>GLOBAL_RETRY_COUNTER\<close>, which the module creates; the three
  dictionaries of an item store, and the three the base class of the saver asks its factory for.\<close>

definition global_store :: obj where "global_store = new_dict 0 0"

definition global_retry_counter :: obj where "global_retry_counter = new_dict 0 1"

definition store_dicts :: "nat \<Rightarrow> obj list" where
  "store_dicts n = [new_dict n 2, new_dict n 3, new_dict n 4]"

definition saver_dicts :: "nat \<Rightarrow> obj list" where
  "saver_dicts n = [new_dict n 5, new_dict n 6, new_dict n 7]"

text \<open>The sweeper task waits for the stop event, sweeps, or has ended.\<close>

datatype sweeper = SweeperWaits | SweeperSweeps | SweeperDone

record store_obj =
  so_id :: nat
  so_dicts :: "obj list"
  so_ttl_config :: "dict option"
  so_closed :: bool
  so_stop_event :: bool
  so_task :: "sweeper option"

record saver_obj =
  sv_id :: nat
  sv_persistent_dicts :: "obj list"
  sv_persistence_closed :: bool
  sv_containers :: "nat"

record process =
  pr_registry :: registry
  pr_count :: nat
  pr_files :: "string list"
  pr_started :: bool
  pr_store_config :: "dict option"
  pr_store :: "store_obj option"
  pr_batched :: "(nat \<times> nat) list"
  pr_memory :: "saver_obj option"

definition empty_process :: process where
  "empty_process = \<lparr>pr_registry = empty_registry, pr_count = 1, pr_files = [], pr_started = False,
     pr_store_config = None, pr_store = None, pr_batched = [], pr_memory = None\<rparr>"

type_synonym 'a pact = "process \<Rightarrow> 'a res \<times> dict_call list \<times> process"

text \<open>Whether \<open>DISABLE_FILE_PERSISTENCE\<close> is set, what \<open>load\<close> does and whether \<open>close\<close> succeeds.\<close>

datatype load_outcome = Loaded | NotFound | Incompatible | Broken

record disk =
  dk_disabled :: bool
  dk_load :: "obj \<Rightarrow> load_outcome"
  dk_close_ok :: "obj \<Rightarrow> bool"

definition load_dict :: "disk \<Rightarrow> obj \<Rightarrow> process \<Rightarrow> load_outcome" where
  "load_dict dk d p = (if file_of d \<in> set (pr_files p) then dk_load dk d else NotFound)"

definition register :: "disk \<Rightarrow> obj \<Rightarrow> process \<Rightarrow> process" where
  "register dk d p = p\<lparr>pr_registry := register_persistent_dict (dk_disabled dk) file_of d (pr_registry p)\<rparr>"

text \<open>\<open>close_persistent_dict(d)\<close>; a close that succeeds has written the file.\<close>

definition close_dict :: "disk \<Rightarrow> obj \<Rightarrow> unit pact" where
  "close_dict dk d p =
     (case close_persistent_dict file_of (dk_close_ok dk d) d (pr_registry p) of (cs, r) \<Rightarrow>
        if cs = [Close d] \<and> \<not> dk_close_ok dk d then (Inl OSError, cs, p\<lparr>pr_registry := r\<rparr>)
        else (Inr (), cs, p\<lparr>pr_registry := r,
          pr_files := (if cs = [Close d] then List.insert (file_of d) (pr_files p) else pr_files p)\<rparr>))"

definition then_act :: "unit pact \<Rightarrow> 'a pact \<Rightarrow> 'a pact" where
  "then_act m k p =
     (case m p of
        (Inl e, cs, p') \<Rightarrow> (Inl e, cs, p')
      | (Inr _, cs, p') \<Rightarrow> (case k p' of (r, cs', p'') \<Rightarrow> (r, cs @ cs', p'')))"

fun close_in_turn :: "disk \<Rightarrow> obj list \<Rightarrow> unit pact" where
  "close_in_turn dk [] p = (Inr (), [], p)"
| "close_in_turn dk (d # ds) p = then_act (close_dict dk d) (close_in_turn dk ds) p"

section \<open>The item store\<close>

text \<open>\<open>DiskBackedInMemStore.__init__\<close>: three dictionaries are created and registered, then loaded;
  \<open>_load_data\<close> ignores a missing file and raises for any other error.\<close>

definition load_data :: "disk \<Rightarrow> obj \<Rightarrow> process \<Rightarrow> unit res" where
  "load_data dk d p = (if load_dict dk d p \<in> {Loaded, NotFound} then Inr () else Inl RuntimeError)"

fun load_all :: "disk \<Rightarrow> obj list \<Rightarrow> process \<Rightarrow> unit res" where
  "load_all dk [] p = Inr ()"
| "load_all dk (d # ds) p = res_bind (load_data dk d p) (\<lambda>_. load_all dk ds p)"

definition new_item_store :: "disk \<Rightarrow> dict option \<Rightarrow> process \<Rightarrow> store_obj res \<times> process" where
  "new_item_store dk ttl p =
     (let n = pr_count p;
          ds = (if dk_disabled dk then [] else store_dicts n);
          p' = fold (register dk) ds (p\<lparr>pr_count := Suc n\<rparr>);
          config = (case ttl of Some (kv # c) \<Rightarrow> Some (kv # c) | _ \<Rightarrow> None)
      in (res_bind (load_all dk ds p') (\<lambda>_.
            Inr \<lparr>so_id = n, so_dicts = ds, so_ttl_config = config, so_closed = False, so_stop_event = False, so_task = None\<rparr>),
          p'))"

text \<open>\<open>_sweep_loop\<close>, one event at a time: the wait ends by its timeout or by the stop event, a sweep
  ends with a result or an exception, which is logged; a cancellation ends the loop.\<close>

datatype sweeper_event = WaitTimeout | StopSeen | SweepEnded "unit res" | Cancelled

fun sweep_loop :: "bool \<Rightarrow> sweeper_event \<Rightarrow> sweeper \<Rightarrow> sweeper" where
  "sweep_loop stop WaitTimeout SweeperWaits = SweeperSweeps"
| "sweep_loop stop StopSeen SweeperWaits = (if stop then SweeperDone else SweeperWaits)"
| "sweep_loop stop (SweepEnded r) SweeperSweeps = (if stop then SweeperDone else SweeperWaits)"
| "sweep_loop stop Cancelled t = SweeperDone"
| "sweep_loop stop e t = t"

definition task_runs :: "store_obj \<Rightarrow> bool" where
  "task_runs s \<longleftrightarrow> so_task s \<noteq> None \<and> so_task s \<noteq> Some SweeperDone"

text \<open>\<open>start_ttl_sweeper\<close>: the interval is the argument, the configured one, or five minutes. The
  result tells whether a loop runs; without a configuration it is a task that does nothing.\<close>

definition sweeper_interval :: "rat option \<Rightarrow> rat option \<Rightarrow> rat" where
  "sweeper_interval given configured =
     (case given of Some q \<Rightarrow> q | None \<Rightarrow> (case configured of Some q \<Rightarrow> q | None \<Rightarrow> 5))"

definition start_ttl_sweeper :: "rat option \<Rightarrow> rat option \<Rightarrow> store_obj \<Rightarrow> bool res \<times> store_obj" where
  "start_ttl_sweeper given configured s =
     (if so_ttl_config s = None then (Inr False, s)
      else if task_runs s then (Inr True, s)
      else if sweeper_interval given configured \<le> 0 then (Inl ValueError, s\<lparr>so_stop_event := False\<rparr>)
      else (Inr True, s\<lparr>so_stop_event := False, so_task := Some SweeperWaits\<rparr>))"

text \<open>\<open>stop_ttl_sweeper\<close>: once the event is set the loop ends at its next check; \<open>timed_out\<close> tells
  whether \<open>asyncio.wait_for\<close> raised first.\<close>

definition stop_ttl_sweeper :: "bool \<Rightarrow> store_obj \<Rightarrow> bool \<times> store_obj" where
  "stop_ttl_sweeper timed_out s =
     (if \<not> task_runs s then (True, s)
      else if timed_out then (False, s\<lparr>so_stop_event := True\<rparr>)
      else (True, s\<lparr>so_stop_event := True, so_task := None\<rparr>))"

definition sweeper_event_step :: "sweeper_event \<Rightarrow> store_obj \<Rightarrow> store_obj" where
  "sweeper_event_step e s = s\<lparr>so_task := map_option (sweep_loop (so_stop_event s) e) (so_task s)\<rparr>"

text \<open>\<open>close\<close>: the flag is set first, the task is cancelled, and an exception of one dictionary skips
  the dictionaries after it.\<close>

definition item_store_close :: "disk \<Rightarrow> store_obj \<Rightarrow> process \<Rightarrow> (unit res \<times> dict_call list \<times> process) \<times> store_obj" where
  "item_store_close dk s p =
     (if so_closed s then ((Inr (), [], p), s)
      else (close_in_turn dk (so_dicts s) p,
            s\<lparr>so_closed := True, so_task := (if task_runs s then Some SweeperDone else so_task s)\<rparr>))"

definition close_current_store :: "disk \<Rightarrow> unit pact" where
  "close_current_store dk p =
     (case pr_store p of
        None \<Rightarrow> (Inr (), [], p)
      | Some s \<Rightarrow> (case item_store_close dk s p of ((r, cs, p'), s') \<Rightarrow> (r, cs, p'\<lparr>pr_store := Some s'\<rparr>)))"

section \<open>The singletons\<close>

definition install_store :: "disk \<Rightarrow> dict option \<Rightarrow> unit pact" where
  "install_store dk ttl p =
     (case new_item_store dk ttl p of
        (Inl e, p') \<Rightarrow> (Inl e, [], p')
      | (Inr s, p') \<Rightarrow> (Inr (), [], p'\<lparr>pr_store := Some s\<rparr>))"

definition ttl_section :: "dict \<Rightarrow> dict option" where
  "ttl_section config = (case map_of config ''ttl'' of Some (PDict d) \<Rightarrow> Some d | _ \<Rightarrow> None)"

text \<open>\<open>set_store_config\<close>: the embeddings of the index are not modelled.\<close>

definition set_store_config :: "disk \<Rightarrow> dict \<Rightarrow> unit pact" where
  "set_store_config dk config p =
     (let p1 = p\<lparr>pr_store_config := Some config\<rparr>
      in if truthy (dict_get config ''path'' PNone) then (Inr (), [], p1)
         else then_act (close_current_store dk) (install_store dk (ttl_section config)) p1)"

text \<open>\<open>Store()\<close> in a thread: the store the returned \<open>BatchedStore\<close> forwards to.\<close>

definition get_store :: "disk \<Rightarrow> nat \<Rightarrow> nat pact" where
  "get_store dk thread p =
     then_act (\<lambda>p. if pr_store p = None then install_store dk None p else (Inr (), [], p))
       (\<lambda>p. case pr_store p of
          None \<Rightarrow> (Inl AttributeError, [], p)
        | Some s \<Rightarrow>
            (let p' = (if map_of (pr_batched p) thread = Some (so_id s) then p
                       else p\<lparr>pr_batched := AList.update thread (so_id s) (pr_batched p)\<rparr>)
             in (Inr (the (map_of (pr_batched p') thread)), [], p'))) p"

text \<open>The factory of the saver: create, register, load. A file that cannot be loaded is to be removed,
  but the path passed to \<open>os.remove\<close> is the common prefix of the files; a failure is ignored.\<close>

definition saver_prefix :: string where
  "saver_prefix = ''.langgraph_api/.langgraph_checkpoint.''"

definition saver_factory :: "disk \<Rightarrow> bool \<Rightarrow> obj \<Rightarrow> process \<Rightarrow> process" where
  "saver_factory dk hook d p =
     (let p' = (if hook then register dk d p else p)
      in if load_dict dk d p' \<in> {Loaded, NotFound} then p'
         else p'\<lparr>pr_files := removeAll saver_prefix (pr_files p')\<rparr>)"

definition new_saver :: "disk \<Rightarrow> bool \<Rightarrow> bool \<Rightarrow> process \<Rightarrow> saver_obj \<times> process" where
  "new_saver dk hook persistent p =
     (let n = pr_count p;
          ds = (if persistent \<and> \<not> dk_disabled dk then saver_dicts n else [])
      in (\<lparr>sv_id = n, sv_persistent_dicts = ds, sv_persistence_closed = False, sv_containers = n\<rparr>,
          fold (saver_factory dk hook) ds (p\<lparr>pr_count := Suc n\<rparr>)))"

text \<open>\<open>Checkpointer()\<close>: the singleton, or with a hook a view that shares its containers and sizes.\<close>

definition get_memory :: "disk \<Rightarrow> process \<Rightarrow> saver_obj \<times> process" where
  "get_memory dk p =
     (case pr_memory p of
        Some m \<Rightarrow> (m, p)
      | None \<Rightarrow> (case new_saver dk True True p of (m, p') \<Rightarrow> (m, p'\<lparr>pr_memory := Some m\<rparr>)))"

definition checkpointer :: "disk \<Rightarrow> bool \<Rightarrow> process \<Rightarrow> saver_obj \<times> process" where
  "checkpointer dk unpack_hook p =
     (case get_memory dk p of (m, p1) \<Rightarrow>
        if unpack_hook
        then (case new_saver dk False False p1 of (v, p2) \<Rightarrow> (v\<lparr>sv_containers := sv_containers m\<rparr>, p2))
        else (m, p1))"

text \<open>\<open>_close_persistence\<close>: every dictionary is closed, and the first exception is raised at the end.\<close>

fun close_each :: "disk \<Rightarrow> exn option \<Rightarrow> obj list \<Rightarrow> unit pact" where
  "close_each dk err [] p = ((case err of None \<Rightarrow> Inr () | Some e \<Rightarrow> Inl e), [], p)"
| "close_each dk err (d # ds) p =
     (case close_dict dk d p of (r, cs, p') \<Rightarrow>
        case close_each dk (case (err, r) of (None, Inl e) \<Rightarrow> Some e | _ \<Rightarrow> err) ds p' of
          (r', cs', p'') \<Rightarrow> (r', cs @ cs', p''))"

definition exit_memory :: "disk \<Rightarrow> unit pact" where
  "exit_memory dk p =
     (case pr_memory p of
        None \<Rightarrow> (Inr (), [], p)
      | Some m \<Rightarrow>
          if sv_persistent_dicts m = [] \<or> sv_persistence_closed m then (Inr (), [], p)
          else close_each dk None (sv_persistent_dicts m) (p\<lparr>pr_memory := Some (m\<lparr>sv_persistence_closed := True\<rparr>)\<rparr>))"

section \<open>Start and stop of the pool\<close>

text \<open>Loading the tables: on failure both files are removed, and \<open>os.remove\<close> raises for a missing one.\<close>

definition remove_file :: "string \<Rightarrow> unit pact" where
  "remove_file f p =
     (if f \<in> set (pr_files p) then (Inr (), [], p\<lparr>pr_files := removeAll f (pr_files p)\<rparr>) else (Inl FileNotFoundError, [], p))"

definition load_tables :: "disk \<Rightarrow> unit pact" where
  "load_tables dk p =
     (if load_dict dk global_store p \<in> {Loaded, NotFound} then (Inr (), [], p)
      else then_act (remove_file (file_of global_store)) (remove_file (file_of global_retry_counter)) p)"

definition pool_start :: "disk \<Rightarrow> dict option \<Rightarrow> unit pact" where
  "pool_start dk store_config =
     then_act (\<lambda>p. case (pr_store_config p, store_config) of
                 (None, Some (kv # c)) \<Rightarrow> set_store_config dk (kv # c) p
               | _ \<Rightarrow> (Inr (), [], p))
     (then_act (load_tables dk)
       (\<lambda>p. (Inr (), [], (register dk global_retry_counter (register dk global_store p))\<lparr>pr_started := True\<rparr>)))"

definition stop_store_sweeper :: "bool \<Rightarrow> process \<Rightarrow> process" where
  "stop_store_sweeper timed_out p = p\<lparr>pr_store := map_option (\<lambda>s. snd (stop_ttl_sweeper timed_out s)) (pr_store p)\<rparr>"

definition pool_stop :: "disk \<Rightarrow> bool \<Rightarrow> unit pact" where
  "pool_stop dk timed_out =
     then_act (\<lambda>p. (Inr (), [], p\<lparr>pr_registry := stop_flush_loop (pr_registry p), pr_started := False\<rparr>))
     (then_act (close_dict dk global_store)
     (then_act (close_dict dk global_retry_counter)
     (then_act (\<lambda>p. (Inr (), [], stop_store_sweeper timed_out p))
     (then_act (close_current_store dk) (exit_memory dk)))))"

text \<open>One pass of the flush thread.\<close>

definition written :: "dict_call list \<Rightarrow> process \<Rightarrow> process" where
  "written cs p = p\<lparr>pr_files := fold (\<lambda>c fs. case c of Sync d \<Rightarrow> List.insert (file_of d) fs | _ \<Rightarrow> fs) cs (pr_files p)\<rparr>"

definition flush_files :: "unit pact" where
  "flush_files p = (case flush_registered_once (pr_registry p) of (cs, r) \<Rightarrow> (Inr (), cs, written cs (p\<lparr>pr_registry := r\<rparr>)))"

end
