(* ===== verification/Process_Safety.thy ===== *)
theory Process_Safety
  imports Process
begin

text \<open>
  Who owns the files of the process: along every sequence of starts, stops, configurations, flushes
  and collections, the registered dictionaries are those of the open singletons. So a flush writes
  all of them and a stop closes all of them; and what is not written after a restart.
\<close>

section \<open>The registry as a set of owners\<close>

definition entries :: "registry \<Rightarrow> obj set \<Rightarrow> bool" where
  "entries r D \<longleftrightarrow> registry_ok file_of r \<and> snd ` set (rg_stores r) = D \<and> (\<forall>d \<in> D. live r d)"

lemma file_of_eq: "file_of d = file_of e \<longleftrightarrow> d mod 8 = e mod 8"
proof -
  have "distinct file_slots" "length file_slots = 8" by (simp_all add: file_slots_def)
  then show ?thesis by (simp add: file_of_def nth_eq_iff_index_eq)
qed

lemma entries_owner:
  assumes "entries r D" and "d \<in> D"
  shows "current_owner r (file_of d) = Some d" and "ownership r d = Some True" and "map_of (rg_stores r) (file_of d) = Some d"
proof -
  from assms obtain f where f: "(f, d) \<in> set (rg_stores r)" by (force simp: entries_def)
  with assms show "ownership r d = Some True" "map_of (rg_stores r) (file_of d) = Some d"
    using registry_entry [of file_of r f d] by (simp_all add: entries_def)
  with assms show "current_owner r (file_of d) = Some d" by (simp add: current_owner_def entries_def)
qed

lemma entries_vacant:
  assumes "entries r D" and "\<And>e. e \<in> D \<Longrightarrow> e mod 8 \<noteq> d mod 8"
  shows "map_of (rg_stores r) (file_of d) = None"
proof (rule ccontr)
  assume "map_of (rg_stores r) (file_of d) \<noteq> None"
  then obtain e where "(file_of d, e) \<in> set (rg_stores r)" using map_of_SomeD by force
  with assms registry_entry(1) [of file_of r "file_of d" e] show False by (force simp: entries_def file_of_eq)
qed

lemma entries_slot:
  assumes "entries r D" and "d \<in> D" and "e \<in> D" and "d mod 8 = e mod 8"
  shows "d = e"
proof -
  have "file_of d = file_of e" using assms(4) by (simp add: file_of_eq)
  then show ?thesis using entries_owner(3) [OF assms(1,2)] entries_owner(3) [OF assms(1,3)] by (metis option.inject)
qed

text \<open>Registering a live dictionary whose file has no other owner makes it an owner; closing removes
  an owner and nothing else.\<close>

lemma entries_register:
  assumes "entries r D" and "live r d" and "\<And>e. e \<in> D \<Longrightarrow> e mod 8 = d mod 8 \<Longrightarrow> e = d"
  shows "entries (register_persistent_dict False file_of d r) (insert d D)"
    and "rg_dead (register_persistent_dict False file_of d r) = rg_dead r"
proof -
  have cur: "current_owner r (file_of d) = None \<or> current_owner r (file_of d) = Some d"
  proof (cases "d \<in> D")
    case True
    then show ?thesis using entries_owner(1) [OF assms(1)] by simp
  next
    case False
    then show ?thesis using entries_vacant [OF assms(1), of d] assms(3) by (fastforce simp: current_owner_def)
  qed
  then have reg: "register_persistent_dict False file_of d r =
      (set_owner d (Some True) r)\<lparr>rg_stores := AList.update (file_of d) d (rg_stores r), rg_flushing := True\<rparr>"
    by (auto simp: register_persistent_dict_def)
  then show "rg_dead (register_persistent_dict False file_of d r) = rg_dead r" by (simp add: set_owner_def)
  have ok: "registry_ok file_of r" using assms(1) by (simp add: entries_def)
  then have dist: "distinct (map fst (rg_stores r))" by (simp add: registry_ok_def)
  have "snd ` set (AList.update (file_of d) d (rg_stores r)) = insert d D" (is "?L = _")
  proof
    show "?L \<subseteq> insert d D" using assms(1) update_entries [OF dist] by (force simp: entries_def)
    have "e \<in> ?L" if "e \<in> insert d D" for e
    proof -
      have "map_of (AList.update (file_of d) d (rg_stores r)) (file_of e) = Some e"
      proof (cases "e = d")
        case False
        then have "file_of e \<noteq> file_of d" using assms(3) that by (auto simp: file_of_eq)
        then show ?thesis using that False entries_owner(3) [OF assms(1), of e] by (simp add: update_conv')
      qed (simp add: update_conv')
      then show ?thesis by (metis image_eqI map_of_SomeD snd_conv)
    qed
    then show "insert d D \<subseteq> ?L" by blast
  qed
  moreover have "live (register_persistent_dict False file_of d r) = live r"
    by (simp add: reg live_def set_owner_def fun_eq_iff)
  ultimately show "entries (register_persistent_dict False file_of d r) (insert d D)"
    using assms(1,2) registry_ok_register [OF ok, of False d] by (simp add: entries_def reg)
qed

lemma entries_close:
  assumes "entries r D" and "close_persistent_dict file_of True d r = (cs, r')" and "\<And>e. e \<in> D \<Longrightarrow> e mod 8 = d mod 8 \<Longrightarrow> e = d"
  shows "entries r' (D - {d})" and "d \<in> D \<Longrightarrow> cs = [Close d]" and "rg_dead r' = rg_dead r"
proof -
  have ok: "registry_ok file_of r" using assms(1) by (simp add: entries_def)
  show "rg_dead r' = rg_dead r"
    using assms(2) by (auto simp: close_persistent_dict_def set_owner_def split: if_splits option.splits)
  then have live: "live r' = live r" by (simp add: live_def fun_eq_iff)
  show "d \<in> D \<Longrightarrow> cs = [Close d]"
    using entries_owner [OF assms(1), of d] assms(2) by (auto simp: close_persistent_dict_def)
  have stores: "rg_stores r' = (if d \<in> D then AList.delete (file_of d) (rg_stores r) else rg_stores r)"
  proof (cases "d \<in> D")
    case True
    then show ?thesis using entries_owner [OF assms(1) True] assms(2) by (auto simp: close_persistent_dict_def)
  next
    case False
    then have "map_of (rg_stores r) (file_of d) = None" using entries_vacant [OF assms(1), of d] assms(3) by metis
    then have "AList.delete (file_of d) (rg_stores r) = rg_stores r" by (simp add: delete_id map_of_eq_None_iff)
    then show ?thesis using assms(2) False by (auto simp: close_persistent_dict_def split: if_splits option.splits)
  qed
  have "snd ` set (rg_stores r') = D - {d}"
  proof (cases "d \<in> D")
    case True
    have "e = d \<longleftrightarrow> file_of e = file_of d" if "e \<in> D" for e
      using assms(3) [OF that] by (auto simp: file_of_eq)
    moreover have "fst x = file_of (snd x)" "snd x \<in> D" if "x \<in> set (rg_stores r)" for x
      using that assms(1) registry_entry(1) [OF ok, of "fst x" "snd x"] by (auto simp: entries_def)
    ultimately show ?thesis
      using True assms(1) unfolding entries_def stores by (auto simp: delete_entries image_iff) metis+
  qed (use assms(1) in \<open>simp add: stores entries_def\<close>)
  then show "entries r' (D - {d})"
    using assms(1) live registry_ok_close [OF ok assms(2)] by (simp add: entries_def)
qed

lemma flush_entries_all:
  assumes "\<And>f d. (f, d) \<in> set es \<Longrightarrow> map_of (rg_stores r) f = Some d \<and> live r d"
  shows "flush_entries es r = (map (\<lambda>(f, d). Sync d) es, r)"
  using assms by (induction es) fastforce+

lemma entries_flush:
  assumes "entries r D"
  shows "flush_registered_once r = (map (\<lambda>(f, d). Sync d) (rg_stores r), r)"
  unfolding flush_registered_once_def
  by (rule flush_entries_all) (use assms registry_entry(3) [of file_of r] in \<open>force simp: entries_def\<close>)

section \<open>The open singletons\<close>

definition store_open :: "process \<Rightarrow> obj list" where
  "store_open p = (case pr_store p of None \<Rightarrow> [] | Some s \<Rightarrow> if so_closed s then [] else so_dicts s)"

definition memory_open :: "process \<Rightarrow> obj list" where
  "memory_open p = (case pr_memory p of None \<Rightarrow> [] | Some m \<Rightarrow> if sv_persistence_closed m then [] else sv_persistent_dicts m)"

definition open_dicts :: "disk \<Rightarrow> process \<Rightarrow> obj list" where
  "open_dicts dk p =
     (if pr_started p \<and> \<not> dk_disabled dk then [global_store, global_retry_counter] else []) @ store_open p @ memory_open p"

text \<open>The dictionaries something refers to, which are not collected.\<close>

definition roots :: "process \<Rightarrow> obj list" where
  "roots p = [global_store, global_retry_counter] @ (case pr_store p of None \<Rightarrow> [] | Some s \<Rightarrow> so_dicts s) @
     (case pr_memory p of None \<Rightarrow> [] | Some m \<Rightarrow> sv_persistent_dicts m)"

definition disk_ok :: "disk \<Rightarrow> bool" where
  "disk_ok dk \<longleftrightarrow> (\<forall>d. dk_close_ok dk d \<and> dk_load dk d \<in> {Loaded, NotFound})"

inductive process_step :: "disk \<Rightarrow> process \<Rightarrow> process \<Rightarrow> bool" for dk where
  start: "pool_start dk cfg p = (r, cs, p') \<Longrightarrow> process_step dk p p'"
| stop: "pool_stop dk timed_out p = (r, cs, p') \<Longrightarrow> process_step dk p p'"
| config: "set_store_config dk cfg p = (r, cs, p') \<Longrightarrow> process_step dk p p'"
| store: "get_store dk thread p = (r, cs, p') \<Longrightarrow> process_step dk p p'"
| saver: "checkpointer dk unpack_hook p = (v, p') \<Longrightarrow> process_step dk p p'"
| flush: "flush_files p = (r, cs, p') \<Longrightarrow> process_step dk p p'"
| start_sweeper: "process_step dk p (p\<lparr>pr_store := map_option (\<lambda>s. snd (start_ttl_sweeper given configured s)) (pr_store p)\<rparr>)"
| stop_sweeper: "process_step dk p (stop_store_sweeper timed_out p)"
| sweeper: "process_step dk p (p\<lparr>pr_store := map_option (sweeper_event_step e) (pr_store p)\<rparr>)"
| collect: "d \<notin> set (roots p) \<Longrightarrow> d < 8 * pr_count p \<Longrightarrow>
    process_step dk p (p\<lparr>pr_registry := (pr_registry p)\<lparr>rg_dead := d # rg_dead (pr_registry p)\<rparr>\<rparr>)"

inductive process_reachable :: "disk \<Rightarrow> process \<Rightarrow> bool" for dk where
  init: "process_reachable dk empty_process"
| step: "process_reachable dk p \<Longrightarrow> process_step dk p p' \<Longrightarrow> process_reachable dk p'"

definition process_ok :: "disk \<Rightarrow> process \<Rightarrow> bool" where
  "process_ok dk p \<longleftrightarrow>
     entries (pr_registry p) (set (open_dicts dk p)) \<and>
     (\<forall>d \<in> set (roots p). live (pr_registry p) d) \<and>
     (\<forall>d \<in> set (rg_dead (pr_registry p)). d < 8 * pr_count p) \<and>
     (\<forall>d \<in> set (roots p). d < 8 * pr_count p) \<and>
     (\<forall>s. pr_store p = Some s \<longrightarrow> so_dicts s = (if dk_disabled dk then [] else store_dicts (so_id s))) \<and>
     (\<forall>m. pr_memory p = Some m \<longrightarrow> sv_persistent_dicts m = (if dk_disabled dk then [] else saver_dicts (sv_id m)))"

lemmas slots = store_dicts_def saver_dicts_def global_store_def global_retry_counter_def

lemma new_dict_slot [simp]: "slot < 8 \<Longrightarrow> new_dict n slot mod 8 = slot" "new_dict n a = new_dict n b \<longleftrightarrow> a = b"
  by (simp_all add: new_dict_def)

lemma close_dict_ok:
  assumes "disk_ok dk" and "entries (pr_registry p) D" and "\<And>e. e \<in> D \<Longrightarrow> e mod 8 = d mod 8 \<Longrightarrow> e = d"
  obtains cs r fs where "close_dict dk d p = (Inr (), cs, p\<lparr>pr_registry := r, pr_files := fs\<rparr>)"
    and "entries r (D - {d})" and "rg_dead r = rg_dead (pr_registry p)" and "d \<in> D \<longrightarrow> cs = [Close d]"
proof -
  obtain cs r where c: "close_persistent_dict file_of True d (pr_registry p) = (cs, r)" by force
  moreover have "dk_close_ok dk d" using assms(1) by (simp add: disk_ok_def)
  ultimately have "close_dict dk d p = (Inr (), cs, p\<lparr>pr_registry := r,
      pr_files := (if cs = [Close d] then List.insert (file_of d) (pr_files p) else pr_files p)\<rparr>)"
    by (simp add: close_dict_def)
  from that [OF this] entries_close [OF assms(2) c assms(3)] show thesis by blast
qed

lemma close_in_turn_ok:
  assumes "disk_ok dk" and "entries (pr_registry p) D" and "set ds \<subseteq> D" and "distinct ds"
  shows "\<exists>r fs. close_in_turn dk ds p = (Inr (), map Close ds, p\<lparr>pr_registry := r, pr_files := fs\<rparr>) \<and>
    entries r (D - set ds) \<and> rg_dead r = rg_dead (pr_registry p)"
  using assms(2-)
proof (induction ds arbitrary: p D)
  case Nil
  then show ?case by (auto intro!: exI [of _ "pr_registry p"] exI [of _ "pr_files p"])
next
  case (Cons d ds)
  then have "\<And>e. e \<in> D \<Longrightarrow> e mod 8 = d mod 8 \<Longrightarrow> e = d" using entries_slot [of "pr_registry p" D _ d] by (meson list.set_intros(1) subsetD)
  from close_dict_ok [OF assms(1) Cons.prems(1) this] Cons.prems(2) obtain r fs where
    c: "close_dict dk d p = (Inr (), [Close d], p\<lparr>pr_registry := r, pr_files := fs\<rparr>)"
    and e: "entries r (D - {d})" and g: "rg_dead r = rg_dead (pr_registry p)" by (metis insert_subset list.simps(15))
  have "set ds \<subseteq> D - {d}" using Cons.prems(2,3) by auto
  from Cons.IH [of "p\<lparr>pr_registry := r, pr_files := fs\<rparr>", OF _ this] e Cons.prems(3) obtain r' fs' where
    "close_in_turn dk ds (p\<lparr>pr_registry := r, pr_files := fs\<rparr>) = (Inr (), map Close ds, p\<lparr>pr_registry := r', pr_files := fs'\<rparr>)"
    "entries r' (D - {d} - set ds)" "rg_dead r' = rg_dead r" by auto
  moreover have "D - {d} - set ds = D - set (d # ds)" by auto
  ultimately show ?case using g c by (auto simp: then_act_def)
qed

lemma close_each_ok:
  assumes "disk_ok dk" and "entries (pr_registry p) D" and "set ds \<subseteq> D" and "distinct ds"
  shows "\<exists>r fs. close_each dk None ds p = (Inr (), map Close ds, p\<lparr>pr_registry := r, pr_files := fs\<rparr>) \<and>
    entries r (D - set ds) \<and> rg_dead r = rg_dead (pr_registry p)"
proof -
  have "close_each dk None ds q = close_in_turn dk ds q" if "fst (close_in_turn dk ds q) = Inr ()" for q
    using that
  proof (induction ds arbitrary: q)
    case (Cons d ds)
    then show ?case by (cases "close_dict dk d q") (auto simp: then_act_def split: sum.splits prod.splits)
  qed simp
  with close_in_turn_ok [OF assms] show ?thesis by fastforce
qed

lemma registers_ok:
  assumes "\<not> dk_disabled dk" and "entries (pr_registry p) D" and "\<And>d. d \<in> set ds \<Longrightarrow> live (pr_registry p) d"
    and "\<And>d e. d \<in> set ds \<Longrightarrow> e \<in> D \<union> set ds \<Longrightarrow> e mod 8 = d mod 8 \<Longrightarrow> e = d"
  shows "\<exists>r. fold (register dk) ds p = p\<lparr>pr_registry := r\<rparr> \<and> entries r (D \<union> set ds) \<and> rg_dead r = rg_dead (pr_registry p)"
  using assms(2-)
proof (induction ds arbitrary: p D)
  case Nil
  then show ?case by (auto intro!: exI [of _ "pr_registry p"])
next
  case (Cons d ds)
  let ?r = "register_persistent_dict False file_of d (pr_registry p)"
  have e: "entries ?r (insert d D)" and g: "rg_dead ?r = rg_dead (pr_registry p)"
    by (rule entries_register [OF Cons.prems(1)]; (rule Cons.prems(2) Cons.prems(3) [of d]; simp (no_asm_simp)))+
  moreover have "\<exists>r. fold (register dk) ds (p\<lparr>pr_registry := ?r\<rparr>) = p\<lparr>pr_registry := ?r\<rparr>\<lparr>pr_registry := r\<rparr> \<and>
      entries r (insert d D \<union> set ds) \<and> rg_dead r = rg_dead (pr_registry (p\<lparr>pr_registry := ?r\<rparr>))"
  proof (rule Cons.IH)
    show "live (pr_registry (p\<lparr>pr_registry := ?r\<rparr>)) x" if "x \<in> set ds" for x
      using Cons.prems(2) [of x] that g by (simp add: live_def)
    show "y = x" if "x \<in> set ds" "y \<in> insert d D \<union> set ds" "y mod 8 = x mod 8" for x y
      using Cons.prems(3) [of x y] that by auto
  qed (use e in simp)
  moreover have "register dk d p = p\<lparr>pr_registry := ?r\<rparr>" using assms(1) by (simp add: register_def)
  ultimately show ?case by auto
qed

section \<open>Every step keeps the owners\<close>

lemma closed_store_ok:
  assumes "disk_ok dk" and "entries (pr_registry p) D" and "set (store_open p) \<subseteq> D" and "distinct (store_open p)"
  obtains r fs s' where "close_current_store dk p =
      (Inr (), map Close (store_open p), p\<lparr>pr_registry := r, pr_files := fs, pr_store := s'\<rparr>)"
    and "entries r (D - set (store_open p))" and "rg_dead r = rg_dead (pr_registry p)"
    and "map_option so_dicts s' = map_option so_dicts (pr_store p)" and "map_option so_id s' = map_option so_id (pr_store p)"
    and "pred_option so_closed s'"
proof -
  obtain r fs where c: "close_in_turn dk (store_open p) p = (Inr (), map Close (store_open p), p\<lparr>pr_registry := r, pr_files := fs\<rparr>)"
    "entries r (D - set (store_open p))" "rg_dead r = rg_dead (pr_registry p)"
    using close_in_turn_ok [OF assms] by blast
  show thesis
  proof (cases "store_open p = [] \<and> pred_option so_closed (pr_store p)")
    case True
    then have "close_current_store dk p = (Inr (), [], p\<lparr>pr_registry := pr_registry p, pr_files := pr_files p, pr_store := pr_store p\<rparr>)"
      by (auto simp: close_current_store_def item_store_close_def split: option.splits)
    with True that [of "pr_store p" "pr_files p" "pr_registry p"] assms(2) show thesis by simp
  next
    case False
    then obtain s where s: "pr_store p = Some s" "\<not> so_closed s" "so_dicts s = store_open p"
      by (auto simp: store_open_def split: option.splits if_splits)
    with c that [of "Some (s\<lparr>so_closed := True, so_task := (if task_runs s then Some SweeperDone else so_task s)\<rparr>)" fs r]
    show thesis by (simp add: close_current_store_def item_store_close_def)
  qed
qed

lemma exit_memory_ok:
  assumes "disk_ok dk" and "entries (pr_registry p) D" and "set (memory_open p) \<subseteq> D" and "distinct (memory_open p)"
  obtains r fs m' where "exit_memory dk p =
      (Inr (), map Close (memory_open p), p\<lparr>pr_registry := r, pr_files := fs, pr_memory := m'\<rparr>)"
    and "entries r (D - set (memory_open p))" and "rg_dead r = rg_dead (pr_registry p)"
    and "map_option sv_persistent_dicts m' = map_option sv_persistent_dicts (pr_memory p)"
    and "map_option sv_id m' = map_option sv_id (pr_memory p)"
    and "pred_option (\<lambda>m. sv_persistence_closed m \<or> sv_persistent_dicts m = []) m'"
proof (cases "memory_open p = []")
  case True
  then have "exit_memory dk p = (Inr (), [], p\<lparr>pr_registry := pr_registry p, pr_files := pr_files p, pr_memory := pr_memory p\<rparr>)"
    "pred_option (\<lambda>m. sv_persistence_closed m \<or> sv_persistent_dicts m = []) (pr_memory p)"
    by (auto simp: exit_memory_def memory_open_def split: option.splits if_splits)
  with True that [of "pr_memory p" "pr_files p" "pr_registry p"] assms(2) show thesis by simp
next
  case False
  then obtain m where m: "pr_memory p = Some m" "\<not> sv_persistence_closed m" "sv_persistent_dicts m = memory_open p"
    by (auto simp: memory_open_def split: option.splits if_splits)
  let ?q = "p\<lparr>pr_memory := Some (m\<lparr>sv_persistence_closed := True\<rparr>)\<rparr>"
  obtain r fs where "close_each dk None (memory_open p) ?q = (Inr (), map Close (memory_open p), ?q\<lparr>pr_registry := r, pr_files := fs\<rparr>)"
    "entries r (D - set (memory_open p))" "rg_dead r = rg_dead (pr_registry p)"
    using close_each_ok [OF assms(1), of ?q D "memory_open p"] assms(2-) by auto
  with m False that [of "Some (m\<lparr>sv_persistence_closed := True\<rparr>)" fs r] show thesis by (simp add: exit_memory_def)
qed

lemma process_okD:
  assumes "process_ok dk p"
  shows "entries (pr_registry p) (set (open_dicts dk p))"
    and "d \<in> set (rg_dead (pr_registry p)) \<Longrightarrow> d < 8 * pr_count p \<and> d \<notin> set (roots p)"
    and "d \<in> set (roots p) \<Longrightarrow> d < 8 * pr_count p"
    and "pr_store p = Some s \<Longrightarrow> so_dicts s = (if dk_disabled dk then [] else store_dicts (so_id s))"
    and "pr_memory p = Some m \<Longrightarrow> sv_persistent_dicts m = (if dk_disabled dk then [] else saver_dicts (sv_id m))"
    and "distinct (store_open p)" and "distinct (memory_open p)"
  using assms by (auto simp: process_ok_def live_def store_open_def memory_open_def slots split: option.splits)

lemma process_okI:
  assumes "entries (pr_registry p) (set (open_dicts dk p))"
    and "\<And>d. d \<in> set (rg_dead (pr_registry p)) \<Longrightarrow> d < 8 * pr_count p \<and> d \<notin> set (roots p)"
    and "\<And>d. d \<in> set (roots p) \<Longrightarrow> d < 8 * pr_count p"
    and "\<And>s. pr_store p = Some s \<Longrightarrow> so_dicts s = (if dk_disabled dk then [] else store_dicts (so_id s))"
    and "\<And>m. pr_memory p = Some m \<Longrightarrow> sv_persistent_dicts m = (if dk_disabled dk then [] else saver_dicts (sv_id m))"
  shows "process_ok dk p"
  using assms by (auto simp: process_ok_def live_def)

lemma open_slots:
  assumes "process_ok dk p"
  shows "d \<in> set (store_open p) \<Longrightarrow> d mod 8 \<in> {2, 3, 4}" and "d \<in> set (memory_open p) \<Longrightarrow> d mod 8 \<in> {5, 6, 7}"
    and "global_store mod 8 = 0" and "global_retry_counter mod 8 = 1"
  using process_okD(4,5) [OF assms] by (auto simp: store_open_def memory_open_def slots split: option.splits if_splits)

lemma open_dicts_cases:
  assumes "d \<in> set (open_dicts dk p)"
  obtains "d = global_store" | "d = global_retry_counter" | "d \<in> set (store_open p)" | "d \<in> set (memory_open p)"
  using assms by (auto simp: open_dicts_def split: if_splits)

lemma open_subset_roots: "set (open_dicts dk p) \<subseteq> set (roots p)"
  by (auto simp: open_dicts_def roots_def store_open_def memory_open_def split: option.splits if_splits)

text \<open>Dictionaries created now are alive, and their files are free when no singleton has them open.\<close>

lemma fresh_live:
  assumes "process_ok dk p" and "8 * pr_count p \<le> d"
  shows "live (pr_registry p) d" and "d \<notin> set (roots p)"
  using process_okD(2,3) [OF assms(1), of d] assms(2) by (auto simp: live_def)

lemma fresh_dicts:
  assumes "d \<in> set (store_dicts n) \<or> d \<in> set (saver_dicts n)"
  shows "8 * n \<le> d" and "d < 8 * Suc n"
  using assms by (auto simp: slots new_dict_def)

lemma register_new:
  assumes "process_ok dk p" and "dk_disabled dk \<Longrightarrow> ds = []"
    and "\<And>d. d \<in> set ds \<Longrightarrow> 8 * pr_count p \<le> d"
    and uniq: "\<And>d e. d \<in> set ds \<Longrightarrow> e \<in> set ds \<Longrightarrow> e mod 8 = d mod 8 \<Longrightarrow> e = d"
    and apart: "\<And>d e. d \<in> set ds \<Longrightarrow> e \<in> set (open_dicts dk p) \<Longrightarrow> e mod 8 \<noteq> d mod 8"
  obtains r where "fold (register dk) ds (p\<lparr>pr_count := Suc (pr_count p)\<rparr>) = p\<lparr>pr_count := Suc (pr_count p), pr_registry := r\<rparr>"
    and "entries r (set (open_dicts dk p) \<union> set ds)" and "rg_dead r = rg_dead (pr_registry p)"
proof (cases "dk_disabled dk")
  case True
  then show thesis using assms(2) process_okD(1) [OF assms(1)] that [of "pr_registry p"] by simp
next
  case False
  let ?p = "p\<lparr>pr_count := Suc (pr_count p)\<rparr>"
  have "\<exists>r. fold (register dk) ds ?p = ?p\<lparr>pr_registry := r\<rparr> \<and> entries r (set (open_dicts dk p) \<union> set ds) \<and>
      rg_dead r = rg_dead (pr_registry ?p)"
  proof (rule registers_ok [OF False])
    show "e = d" if "d \<in> set ds" "e \<in> set (open_dicts dk p) \<union> set ds" "e mod 8 = d mod 8" for d e
      using that uniq apart by blast
  qed (use process_okD(1) [OF assms(1)] fresh_live(1) [OF assms(1)] assms(3) in simp_all)
  with that show thesis by auto
qed

lemma process_ok_opened:
  assumes "process_ok dk p" and "entries (pr_registry q) (set (open_dicts dk p) \<union> set ds)"
    and "rg_dead (pr_registry q) = rg_dead (pr_registry p)" and "pr_count q = Suc (pr_count p)"
    and "\<And>d. d \<in> set ds \<Longrightarrow> 8 * pr_count p \<le> d \<and> d < 8 * Suc (pr_count p)"
    and "set (open_dicts dk q) = set (open_dicts dk p) \<union> set ds" and "set (roots q) \<subseteq> set (roots p) \<union> set ds"
    and "\<And>s. pr_store q = Some s \<Longrightarrow> so_dicts s = (if dk_disabled dk then [] else store_dicts (so_id s))"
    and "\<And>m. pr_memory q = Some m \<Longrightarrow> sv_persistent_dicts m = (if dk_disabled dk then [] else saver_dicts (sv_id m))"
  shows "process_ok dk q"
proof (rule process_okI)
  show "d < 8 * pr_count q \<and> d \<notin> set (roots q)" if "d \<in> set (rg_dead (pr_registry q))" for d
    using process_okD(2) [OF assms(1), of d] assms(5) [of d] assms(7) that assms(3,4) by fastforce
  show "d < 8 * pr_count q" if "d \<in> set (roots q)" for d
    using process_okD(3) [OF assms(1), of d] assms(5) [of d] assms(4,7) that by fastforce
qed (use assms in simp_all)

text \<open>A new singleton: dictionaries of one generation in slots no open singleton uses.\<close>

lemma register_slots:
  assumes "process_ok dk p" and ds: "ds = (if dk_disabled dk then [] else map (new_dict (pr_count p)) sl)"
    and "\<And>x. x \<in> set sl \<Longrightarrow> 2 \<le> x \<and> x < 8" and "\<And>e. e \<in> set (store_open p) \<union> set (memory_open p) \<Longrightarrow> e mod 8 \<notin> set sl"
  obtains r where "fold (register dk) ds (p\<lparr>pr_count := Suc (pr_count p)\<rparr>) = p\<lparr>pr_count := Suc (pr_count p), pr_registry := r\<rparr>"
    and "entries r (set (open_dicts dk p) \<union> set ds)" and "rg_dead r = rg_dead (pr_registry p)"
    and "\<And>d. d \<in> set ds \<Longrightarrow> 8 * pr_count p \<le> d \<and> d < 8 * Suc (pr_count p)"
proof -
  have new: "8 * pr_count p \<le> d \<and> d < 8 * Suc (pr_count p)" and slot: "d mod 8 \<in> set sl" if "d \<in> set ds" for d
    using that assms(3) by (auto simp: ds new_dict_def split: if_splits)
  have uniq: "e = d" if "d \<in> set ds" "e \<in> set ds" "e mod 8 = d mod 8" for d e
    using that assms(3) by (auto simp: ds split: if_splits)
  have apart: "e mod 8 \<noteq> d mod 8" if "d \<in> set ds" "e \<in> set (open_dicts dk p)" for d e
    using that(2)
  proof (cases rule: open_dicts_cases)
    case 1
    then show ?thesis using assms(3) [OF slot [OF that(1)]] open_slots(3) [OF assms(1)] by simp
  next
    case 2
    then show ?thesis using assms(3) [OF slot [OF that(1)]] open_slots(4) [OF assms(1)] by simp
  qed (use assms(4) [of e] slot [OF that(1)] in auto)
  have off: "dk_disabled dk \<Longrightarrow> ds = []" by (simp add: ds)
  have low: "d \<in> set ds \<Longrightarrow> 8 * pr_count p \<le> d" for d using new by blast
  obtain r where "fold (register dk) ds (p\<lparr>pr_count := Suc (pr_count p)\<rparr>) = p\<lparr>pr_count := Suc (pr_count p), pr_registry := r\<rparr>"
    "entries r (set (open_dicts dk p) \<union> set ds)" "rg_dead r = rg_dead (pr_registry p)"
    by (rule register_new [OF assms(1) off low uniq apart])
  from this new show thesis by (rule that)
qed

lemma dicts_slots: "store_dicts n = map (new_dict n) [2, 3, 4]" "saver_dicts n = map (new_dict n) [5, 6, 7]"
  by (simp_all add: slots)

lemma install_store_ok:
  assumes "process_ok dk p" and "disk_ok dk" and "store_open p = []"
  obtains p' where "install_store dk ttl p = (Inr (), [], p')" and "process_ok dk p'" and "pr_store p' \<noteq> None"
    and "pr_started p' = pr_started p"
proof -
  define ds where "ds = (if dk_disabled dk then [] else store_dicts (pr_count p))"
  have ds: "ds = (if dk_disabled dk then [] else map (new_dict (pr_count p)) [2, 3, 4])" by (simp add: ds_def dicts_slots)
  obtain r where r: "fold (register dk) ds (p\<lparr>pr_count := Suc (pr_count p)\<rparr>) = p\<lparr>pr_count := Suc (pr_count p), pr_registry := r\<rparr>"
    "entries r (set (open_dicts dk p) \<union> set ds)" "rg_dead r = rg_dead (pr_registry p)"
    and new: "\<And>d. d \<in> set ds \<Longrightarrow> 8 * pr_count p \<le> d \<and> d < 8 * Suc (pr_count p)"
    by (rule register_slots [OF assms(1) ds]) (use assms(3) in \<open>auto dest: open_slots(2) [OF assms(1)]\<close>)
  have "load_all dk ds q = Inr ()" for q
    using assms(2) by (induction ds) (auto simp: load_data_def load_dict_def disk_ok_def res_defs)
  with r(1) obtain s where s: "install_store dk ttl p = (Inr (), [], p\<lparr>pr_count := Suc (pr_count p), pr_registry := r, pr_store := Some s\<rparr>)"
    and so: "so_id s = pr_count p" "so_dicts s = ds" "\<not> so_closed s"
    by (auto simp: install_store_def new_item_store_def Let_def ds_def [symmetric] res_defs)
  let ?q = "p\<lparr>pr_count := Suc (pr_count p), pr_registry := r, pr_store := Some s\<rparr>"
  have "set (open_dicts dk ?q) = set (open_dicts dk p) \<union> set ds" "set (roots ?q) \<subseteq> set (roots p) \<union> set ds"
    using so assms(3) by (auto simp: open_dicts_def store_open_def memory_open_def roots_def)
  then have "process_ok dk ?q"
    by (intro process_ok_opened [OF assms(1), of ?q ds])
      (use r new so process_okD(5) [OF assms(1)] in \<open>simp_all add: ds_def\<close>)
  with s that show thesis by auto
qed

lemma get_memory_ok:
  assumes "process_ok dk p" and "disk_ok dk" and "get_memory dk p = (m, q)"
  shows "process_ok dk q" and "pr_memory q = Some m"
proof -
  have "process_ok dk q \<and> pr_memory q = Some m"
  proof (cases "pr_memory p")
    case None
    define ds where "ds = (if dk_disabled dk then [] else saver_dicts (pr_count p))"
    have ds: "ds = (if dk_disabled dk then [] else map (new_dict (pr_count p)) [5, 6, 7])" by (simp add: ds_def dicts_slots)
    obtain r where r: "fold (register dk) ds (p\<lparr>pr_count := Suc (pr_count p)\<rparr>) = p\<lparr>pr_count := Suc (pr_count p), pr_registry := r\<rparr>"
      "entries r (set (open_dicts dk p) \<union> set ds)" "rg_dead r = rg_dead (pr_registry p)"
      and new: "\<And>d. d \<in> set ds \<Longrightarrow> 8 * pr_count p \<le> d \<and> d < 8 * Suc (pr_count p)"
      by (rule register_slots [OF assms(1) ds]) (use None in \<open>auto simp: memory_open_def dest: open_slots(1) [OF assms(1)]\<close>)
    have "saver_factory dk True = register dk"
      using assms(2) by (auto simp: saver_factory_def load_dict_def disk_ok_def fun_eq_iff Let_def)
    with r(1) None assms(3) have q: "q = p\<lparr>pr_count := Suc (pr_count p), pr_registry := r, pr_memory := Some m\<rparr>"
      and m: "sv_id m = pr_count p" "sv_persistent_dicts m = ds" "\<not> sv_persistence_closed m"
      by (auto simp: get_memory_def new_saver_def Let_def ds_def)
    have "set (open_dicts dk q) = set (open_dicts dk p) \<union> set ds" "set (roots q) \<subseteq> set (roots p) \<union> set ds"
      using m None by (auto simp: q open_dicts_def store_open_def memory_open_def roots_def)
    then have "process_ok dk q"
      by (intro process_ok_opened [OF assms(1), of q ds])
        (use r new m process_okD(4) [OF assms(1)] in \<open>simp_all add: q ds_def\<close>)
    then show ?thesis by (simp add: q)
  qed (use assms in \<open>simp add: get_memory_def\<close>)
  then show "process_ok dk q" and "pr_memory q = Some m" by simp_all
qed

lemma process_ok_same:
  assumes "process_ok dk p" and "entries (pr_registry q) (set (open_dicts dk q))"
    and "rg_dead (pr_registry q) = rg_dead (pr_registry p)" and "pr_count q \<ge> pr_count p"
    and "map_option so_dicts (pr_store q) = map_option so_dicts (pr_store p)" and "map_option so_id (pr_store q) = map_option so_id (pr_store p)"
    and "map_option sv_persistent_dicts (pr_memory q) = map_option sv_persistent_dicts (pr_memory p)"
    and "map_option sv_id (pr_memory q) = map_option sv_id (pr_memory p)"
  shows "process_ok dk q"
proof -
  have "roots q = roots p"
    using assms(5,7) by (cases "pr_store q"; cases "pr_store p"; cases "pr_memory q"; cases "pr_memory p") (simp_all add: roots_def)
  show ?thesis
  proof (rule process_okI)
    show "d < 8 * pr_count q \<and> d \<notin> set (roots q)" if "d \<in> set (rg_dead (pr_registry q))" for d
      using process_okD(2) [OF assms(1), of d] that assms(3,4) \<open>roots q = roots p\<close> by auto
    show "d < 8 * pr_count q" if "d \<in> set (roots q)" for d
      using process_okD(3) [OF assms(1), of d] that assms(4) \<open>roots q = roots p\<close> by auto
    show "so_dicts s = (if dk_disabled dk then [] else store_dicts (so_id s))" if "pr_store q = Some s" for s
      using process_okD(4) [OF assms(1)] assms(5,6) that by (cases "pr_store p") auto
    show "sv_persistent_dicts m = (if dk_disabled dk then [] else saver_dicts (sv_id m))" if "pr_memory q = Some m" for m
      using process_okD(5) [OF assms(1)] assms(7,8) that by (cases "pr_memory p") auto
  qed (rule assms(2))
qed

lemma checkpointer_ok:
  assumes "process_ok dk p" and "disk_ok dk" and "checkpointer dk hook p = (v, q)"
  shows "process_ok dk q" and "open_dicts dk q = open_dicts dk (snd (get_memory dk p))"
    and "\<exists>m. pr_memory q = Some m \<and> sv_containers v = sv_containers m \<and> (hook \<longrightarrow> sv_persistent_dicts v = [])"
proof -
  obtain m p1 where g: "get_memory dk p = (m, p1)" by force
  note ok = get_memory_ok [OF assms(1,2) g]
  have q: "q = (if hook then p1\<lparr>pr_count := Suc (pr_count p1)\<rparr> else p1)"
    and v: "sv_containers v = sv_containers m" "hook \<longrightarrow> sv_persistent_dicts v = []"
    using assms(3) g by (auto simp: checkpointer_def new_saver_def Let_def split: if_splits)
  show "open_dicts dk q = open_dicts dk (snd (get_memory dk p))"
    by (simp add: q g open_dicts_def store_open_def memory_open_def)
  then show "process_ok dk q"
    by (intro process_ok_same [OF ok(1)]) (use process_okD(1) [OF ok(1)] g in \<open>simp_all add: q\<close>)
  show "\<exists>m. pr_memory q = Some m \<and> sv_containers v = sv_containers m \<and> (hook \<longrightarrow> sv_persistent_dicts v = [])"
    using ok(2) v by (simp add: q)
qed

text \<open>Closing the current store leaves a state without an open store.\<close>

lemma close_current_ok:
  assumes "process_ok dk p" and "disk_ok dk"
  obtains q where "close_current_store dk p = (Inr (), map Close (store_open p), q)" and "process_ok dk q"
    and "store_open q = []" and "memory_open q = memory_open p" and "pr_started q = pr_started p"
    and "pr_store_config q = pr_store_config p" and "map_option so_id (pr_store q) = map_option so_id (pr_store p)"
    and "pr_memory q = pr_memory p"
proof -
  note ok = process_okD [OF assms(1)]
  have "set (store_open p) \<subseteq> set (open_dicts dk p)" by (auto simp: open_dicts_def)
  from closed_store_ok [OF assms(2) ok(1) this ok(6)] obtain r fs s' where
    c: "close_current_store dk p = (Inr (), map Close (store_open p), p\<lparr>pr_registry := r, pr_files := fs, pr_store := s'\<rparr>)"
    and r: "entries r (set (open_dicts dk p) - set (store_open p))" "rg_dead r = rg_dead (pr_registry p)"
    and s: "map_option so_dicts s' = map_option so_dicts (pr_store p)" "map_option so_id s' = map_option so_id (pr_store p)"
      "pred_option so_closed s'" by blast
  let ?q = "p\<lparr>pr_registry := r, pr_files := fs, pr_store := s'\<rparr>"
  have o: "store_open ?q = []" "memory_open ?q = memory_open p"
    using s(3) by (auto simp: store_open_def memory_open_def split: option.splits)
  have "d \<notin> set (store_open p)" if "d = global_store \<or> d = global_retry_counter \<or> d \<in> set (memory_open p)" for d
    using that open_slots(1,2) [OF assms(1), of d] open_slots(3,4) [OF assms(1)] by auto
  then have "set (open_dicts dk ?q) = set (open_dicts dk p) - set (store_open p)"
    by (auto simp: open_dicts_def o)
  then have "process_ok dk ?q"
    by (intro process_ok_same [OF assms(1)]) (use r s in simp_all)
  with c o that s show thesis by simp
qed

lemma set_store_config_ok:
  assumes "process_ok dk p" and "disk_ok dk" and "set_store_config dk cfg p = (r, cs, q)"
  shows "process_ok dk q" and "r = Inr ()"
proof -
  let ?p = "p\<lparr>pr_store_config := Some cfg\<rparr>"
  have p: "process_ok dk ?p"
    by (rule process_ok_same [OF assms(1)])
      (use process_okD(1) [OF assms(1)] in \<open>simp_all add: open_dicts_def store_open_def memory_open_def\<close>)
  from close_current_ok [OF p assms(2)] obtain q1 where
    c: "close_current_store dk ?p = (Inr (), map Close (store_open ?p), q1)" "process_ok dk q1" "store_open q1 = []" by metis
  from install_store_ok [OF c(2) assms(2) c(3), of "ttl_section cfg"] obtain q2 where
    "install_store dk (ttl_section cfg) q1 = (Inr (), [], q2)" "process_ok dk q2" by metis
  with c p assms(3) show "process_ok dk q" "r = Inr ()"
    by (auto simp: set_store_config_def then_act_def Let_def split: if_splits)
qed

text \<open>\<open>Store()\<close> gives the current store, in every thread, whatever it gave before.\<close>

lemma get_store_ok:
  assumes "process_ok dk p" and "disk_ok dk" and "get_store dk thread p = (r, cs, q)"
  shows "process_ok dk q" and "\<exists>s. pr_store q = Some s \<and> r = Inr (so_id s)"
proof -
  obtain q1 where q1: "(if pr_store p = None then install_store dk None p else (Inr (), [], p)) = (Inr (), [], q1)"
    "process_ok dk q1" "pr_store q1 \<noteq> None"
  proof (cases "pr_store p")
    case None
    then have "store_open p = []" by (simp add: store_open_def)
    from install_store_ok [OF assms(1,2) this, of None] that None show thesis by auto
  qed (use assms(1) that in simp)
  then obtain s where s: "pr_store q1 = Some s" by blast
  let ?q = "q1\<lparr>pr_batched := AList.update thread (so_id s) (pr_batched q1)\<rparr>"
  have "process_ok dk ?q"
    by (rule process_ok_same [OF q1(2)])
      (use process_okD(1) [OF q1(2)] in \<open>simp_all add: open_dicts_def store_open_def memory_open_def\<close>)
  moreover have "q = (if map_of (pr_batched q1) thread = Some (so_id s) then q1 else ?q)" "r = Inr (so_id s)"
    using assms(3) q1(1) s by (auto simp: get_store_def then_act_def Let_def update_conv' split: if_splits)
  ultimately show "process_ok dk q" "\<exists>s. pr_store q = Some s \<and> r = Inr (so_id s)" using q1(2) s by auto
qed

text \<open>Registering the tables again changes nothing.\<close>

lemma register_tables:
  assumes "process_ok dk p"
  shows "\<exists>r. register dk global_retry_counter (register dk global_store p) = p\<lparr>pr_registry := r\<rparr> \<and> rg_dead r = rg_dead (pr_registry p) \<and>
    entries r (set (open_dicts dk p) \<union> (if dk_disabled dk then {} else {global_store, global_retry_counter}))"
proof (cases "dk_disabled dk")
  case True
  then show ?thesis
    using process_okD(1) [OF assms] by (auto simp: register_def register_persistent_dict_def intro!: exI [of _ "pr_registry p"])
next
  case False
  have "\<exists>r. fold (register dk) [global_store, global_retry_counter] p = p\<lparr>pr_registry := r\<rparr> \<and>
    entries r (set (open_dicts dk p) \<union> set [global_store, global_retry_counter]) \<and> rg_dead r = rg_dead (pr_registry p)"
  proof (rule registers_ok [OF False process_okD(1) [OF assms]])
    show "live (pr_registry p) d" if "d \<in> set [global_store, global_retry_counter]" for d
      using process_okD(2) [OF assms, of d] that by (auto simp: live_def roots_def)
    show "e = d" if "d \<in> set [global_store, global_retry_counter]"
      "e \<in> set (open_dicts dk p) \<union> set [global_store, global_retry_counter]" "e mod 8 = d mod 8" for d e
    proof -
      have "e \<notin> set (store_open p)" "e \<notin> set (memory_open p)"
        using that(1,3) open_slots(1,2) [OF assms, of e] open_slots(3,4) [OF assms] by auto
      then have "e = global_store \<or> e = global_retry_counter" using that(2) by (auto elim: open_dicts_cases)
      then show ?thesis using that(1,3) open_slots(3,4) [OF assms] by auto
    qed
  qed
  with False show ?thesis by auto
qed

lemma pool_start_ok:
  assumes "process_ok dk p" and "disk_ok dk" and "pool_start dk cfg p = (r, cs, q)"
  shows "process_ok dk q" and "r = Inr ()" and "pr_started q"
proof -
  obtain cs1 q1 where q1: "(case (pr_store_config p, cfg) of (None, Some (kv # c)) \<Rightarrow> set_store_config dk (kv # c) p
      | _ \<Rightarrow> (Inr (), [], p)) = (Inr (), cs1, q1)" "process_ok dk q1"
  proof (cases "pr_store_config p = None \<and> (\<exists>kv c. cfg = Some (kv # c))")
    case True
    then obtain kv c where "cfg = Some (kv # c)" by blast
    with True that set_store_config_ok [OF assms(1,2), of "kv # c"]
    show thesis by (cases "set_store_config dk (kv # c) p") auto
  next
    case False
    then show thesis
      by (intro that [of "[]" p])
        (use assms(1) in \<open>auto simp del: split_paired_All split_paired_Ex split: option.splits list.splits\<close>)
  qed
  let ?r = "register dk global_retry_counter (register dk global_store q1)"
  have "load_tables dk q1 = (Inr (), [], q1)"
    using assms(2) by (auto simp: load_tables_def load_dict_def disk_ok_def)
  with q1(1) assms(3) have q: "q = ?r\<lparr>pr_started := True\<rparr>" and r: "r = Inr ()"
    by (auto simp: pool_start_def then_act_def)
  show "r = Inr ()" "pr_started q" by (simp_all add: r q)
  have "\<exists>r. ?r = q1\<lparr>pr_registry := r\<rparr> \<and> rg_dead r = rg_dead (pr_registry q1) \<and>
    entries r (set (open_dicts dk q1) \<union> (if dk_disabled dk then {} else {global_store, global_retry_counter}))"
    by (rule register_tables [OF q1(2)])
  then obtain g where g: "?r = q1\<lparr>pr_registry := g\<rparr>" "rg_dead g = rg_dead (pr_registry q1)"
    "entries g (set (open_dicts dk q1) \<union> (if dk_disabled dk then {} else {global_store, global_retry_counter}))" by blast
  have "set (open_dicts dk q) = set (open_dicts dk q1) \<union> (if dk_disabled dk then {} else {global_store, global_retry_counter})"
    by (auto simp: q g(1) open_dicts_def store_open_def memory_open_def)
  with g(3) have e: "entries (pr_registry q) (set (open_dicts dk q))" by (simp add: q g(1))
  show "process_ok dk q"
    by (rule process_ok_same [OF q1(2) e]) (simp_all add: q g(1,2))
qed

text \<open>The sweeper changes neither the dictionaries of the store nor whether it is closed.\<close>

lemma store_change_ok:
  assumes "process_ok dk p" and "\<And>s. so_dicts (f s) = so_dicts s \<and> so_id (f s) = so_id s \<and> so_closed (f s) = so_closed s"
  shows "process_ok dk (p\<lparr>pr_store := map_option f (pr_store p)\<rparr>)"
    and "store_open (p\<lparr>pr_store := map_option f (pr_store p)\<rparr>) = store_open p"
proof -
  show o: "store_open (p\<lparr>pr_store := map_option f (pr_store p)\<rparr>) = store_open p"
    using assms(2) by (auto simp: store_open_def split: option.splits)
  show "process_ok dk (p\<lparr>pr_store := map_option f (pr_store p)\<rparr>)"
    by (rule process_ok_same [OF assms(1)])
      (use process_okD(1) [OF assms(1)] assms(2) o in
        \<open>simp_all add: open_dicts_def memory_open_def option.map_comp comp_def\<close>)
qed

lemma sweeper_keeps:
  "so_dicts (snd (start_ttl_sweeper g c s)) = so_dicts s \<and> so_id (snd (start_ttl_sweeper g c s)) = so_id s \<and>
   so_closed (snd (start_ttl_sweeper g c s)) = so_closed s"
  "so_dicts (snd (stop_ttl_sweeper t s)) = so_dicts s \<and> so_id (snd (stop_ttl_sweeper t s)) = so_id s \<and>
   so_closed (snd (stop_ttl_sweeper t s)) = so_closed s"
  "so_dicts (sweeper_event_step e s) = so_dicts s \<and> so_id (sweeper_event_step e s) = so_id s \<and>
   so_closed (sweeper_event_step e s) = so_closed s"
  by (simp_all add: start_ttl_sweeper_def stop_ttl_sweeper_def sweeper_event_step_def)

lemmas sweeper_ok = store_change_ok(1) [OF _ sweeper_keeps(1)] store_change_ok(1) [OF _ sweeper_keeps(2)]
  store_change_ok(1) [OF _ sweeper_keeps(3)]

lemma global_slot:
  assumes "process_ok dk p" and "e \<in> set (open_dicts dk p)" and "d = global_store \<or> d = global_retry_counter"
    and "e mod 8 = d mod 8"
  shows "e = d"
  using assms(2)
proof (cases rule: open_dicts_cases)
  case 1
  then show ?thesis using assms(3,4) open_slots(3,4) [OF assms(1)] by auto
next
  case 2
  then show ?thesis using assms(3,4) open_slots(3,4) [OF assms(1)] by auto
next
  case 3
  then show ?thesis using assms(3,4) open_slots(1) [OF assms(1), of e] open_slots(3,4) [OF assms(1)] by auto
next
  case 4
  then show ?thesis using assms(3,4) open_slots(2) [OF assms(1), of e] open_slots(3,4) [OF assms(1)] by auto
qed

lemma stop_tables_ok:
  assumes "process_ok dk p" and "disk_ok dk"
  obtains cs q where "then_act (\<lambda>p. (Inr (), [], p\<lparr>pr_registry := stop_flush_loop (pr_registry p), pr_started := False\<rparr>))
      (then_act (close_dict dk global_store) (close_dict dk global_retry_counter)) p = (Inr (), cs, q)"
    and "process_ok dk q" and "\<not> pr_started q"
    and "pr_started p \<and> \<not> dk_disabled dk \<longrightarrow> cs = [Close global_store, Close global_retry_counter]"
    and "pr_store_config q = pr_store_config p" and "pr_store q = pr_store p" and "pr_memory q = pr_memory p"
proof -
  let ?D = "set (open_dicts dk p)" and ?g = global_store and ?r = global_retry_counter
  let ?p = "p\<lparr>pr_registry := stop_flush_loop (pr_registry p), pr_started := False\<rparr>"
  have e0: "entries (pr_registry ?p) ?D"
    using process_okD(1) [OF assms(1)] by (simp add: entries_def stop_flush_loop_def registry_ok_def live_def)
  have u: "e = d" if "e \<in> ?D" "e mod 8 = d mod 8" "d = ?g \<or> d = ?r" for d e
    by (rule global_slot [OF assms(1) that(1,3,2)])
  obtain cs1 r1 fs1 where c1: "close_dict dk ?g ?p = (Inr (), cs1, ?p\<lparr>pr_registry := r1, pr_files := fs1\<rparr>)"
    and e1: "entries r1 (?D - {?g})" "rg_dead r1 = rg_dead (pr_registry ?p)" "?g \<in> ?D \<longrightarrow> cs1 = [Close ?g]"
    by (rule close_dict_ok [OF assms(2) e0, of ?g]) (use u in blast)+
  let ?p1 = "?p\<lparr>pr_registry := r1, pr_files := fs1\<rparr>"
  have e1': "entries (pr_registry ?p1) (?D - {?g})" using e1(1) by simp
  obtain cs2 r2 fs2 where c2: "close_dict dk ?r ?p1 = (Inr (), cs2, ?p1\<lparr>pr_registry := r2, pr_files := fs2\<rparr>)"
    and e2: "entries r2 (?D - {?g} - {?r})" "rg_dead r2 = rg_dead (pr_registry ?p1)" "?r \<in> ?D - {?g} \<longrightarrow> cs2 = [Close ?r]"
    by (rule close_dict_ok [OF assms(2) e1', of ?r]) (use u in blast)+
  let ?q = "?p1\<lparr>pr_registry := r2, pr_files := fs2\<rparr>"
  have ne: "?g \<noteq> ?r" "?g \<notin> set (store_open p)" "?g \<notin> set (memory_open p)" "?r \<notin> set (store_open p)" "?r \<notin> set (memory_open p)"
    using open_slots(1,2) [OF assms(1), of ?g] open_slots(1,2) [OF assms(1), of ?r] open_slots(3,4) [OF assms(1)] by auto
  have "set (open_dicts dk ?q) = ?D - {?g} - {?r}"
    using ne by (auto simp: open_dicts_def store_open_def memory_open_def)
  then have "process_ok dk ?q"
    by (intro process_ok_same [OF assms(1)]) (use e2 e1(2) in \<open>simp_all add: stop_flush_loop_def\<close>)
  moreover have "cs1 @ cs2 = [Close ?g, Close ?r]" if "pr_started p" "\<not> dk_disabled dk"
    using that e1(3) e2(3) ne(1) by (simp add: open_dicts_def)
  ultimately show thesis
    by (intro that [of "cs1 @ cs2" ?q]) (use c1 c2 in \<open>simp_all add: then_act_def\<close>)
qed

lemma then_act_ok: "m p = (Inr (), cs, q) \<Longrightarrow> k q = (r, cs', q') \<Longrightarrow> then_act m k p = (r, cs @ cs', q')"
  by (simp add: then_act_def)

lemma then_act_assoc: "then_act m (then_act n k) = then_act (then_act m n) k"
proof
  fix p
  obtain r cs q where m: "m p = (r, cs, q)" by (cases "m p")
  obtain r' cs' q' where n: "n q = (r', cs', q')" by (cases "n q")
  obtain r'' cs'' q'' where k: "k q' = (r'', cs'', q'')" by (cases "k q'")
  show "then_act m (then_act n k) p = then_act (then_act m n) k p"
    by (cases r; cases r') (simp_all add: then_act_def m n k)
qed

lemma pool_stop_ok:
  assumes "process_ok dk p" and "disk_ok dk"
  obtains cs q where "pool_stop dk timed_out p = (Inr (), cs @ map Close (store_open p @ memory_open p), q)"
    and "process_ok dk q" and "open_dicts dk q = []" and "\<not> pr_started q"
    and "pr_started p \<and> \<not> dk_disabled dk \<longrightarrow> cs = [Close global_store, Close global_retry_counter]"
    and "pr_store_config q = pr_store_config p" and "map_option so_id (pr_store q) = map_option so_id (pr_store p)"
    and "map_option sv_id (pr_memory q) = map_option sv_id (pr_memory p)"
proof -
  let ?tables = "then_act (\<lambda>p. (Inr (), [], p\<lparr>pr_registry := stop_flush_loop (pr_registry p), pr_started := False\<rparr>))
      (then_act (close_dict dk global_store) (close_dict dk global_retry_counter))"
  obtain cs q1 where 1: "?tables p = (Inr (), cs, q1)" "process_ok dk q1" "\<not> pr_started q1"
    "pr_started p \<and> \<not> dk_disabled dk \<longrightarrow> cs = [Close global_store, Close global_retry_counter]"
    "pr_store_config q1 = pr_store_config p" "pr_store q1 = pr_store p" "pr_memory q1 = pr_memory p"
    by (rule stop_tables_ok [OF assms])
  let ?q2 = "stop_store_sweeper timed_out q1"
  have 2: "process_ok dk ?q2" "store_open ?q2 = store_open p" "map_option so_id (pr_store ?q2) = map_option so_id (pr_store p)"
    using store_change_ok [OF 1(2) sweeper_keeps(2), of "\<lambda>_. timed_out"] 1(6) sweeper_keeps(2)
    by (simp_all add: stop_store_sweeper_def store_open_def option.map_comp comp_def)
  obtain q3 where 3: "close_current_store dk ?q2 = (Inr (), map Close (store_open ?q2), q3)" "process_ok dk q3"
    "store_open q3 = []" "memory_open q3 = memory_open ?q2" "pr_started q3 = pr_started ?q2"
    "pr_store_config q3 = pr_store_config ?q2" "map_option so_id (pr_store q3) = map_option so_id (pr_store ?q2)"
    "pr_memory q3 = pr_memory ?q2"
    by (rule close_current_ok [OF 2(1) assms(2)])
  have mem: "memory_open q3 = memory_open p" "pr_memory q3 = pr_memory p"
    using 3(4,8) 1(7) by (simp_all add: stop_store_sweeper_def memory_open_def)
  have sub: "set (memory_open q3) \<subseteq> set (open_dicts dk q3)" by (auto simp: open_dicts_def)
  obtain r fs m' where 4: "exit_memory dk q3 =
      (Inr (), map Close (memory_open q3), q3\<lparr>pr_registry := r, pr_files := fs, pr_memory := m'\<rparr>)"
    "entries r (set (open_dicts dk q3) - set (memory_open q3))" "rg_dead r = rg_dead (pr_registry q3)"
    "map_option sv_persistent_dicts m' = map_option sv_persistent_dicts (pr_memory q3)"
    "map_option sv_id m' = map_option sv_id (pr_memory q3)"
    "pred_option (\<lambda>m. sv_persistence_closed m \<or> sv_persistent_dicts m = []) m'"
    by (rule exit_memory_ok [OF assms(2) process_okD(1) [OF 3(2)] sub process_okD(7) [OF 3(2)]])
  let ?q = "q3\<lparr>pr_registry := r, pr_files := fs, pr_memory := m'\<rparr>"
  have started: "\<not> pr_started q3" using 1(3) 3(5) by (simp add: stop_store_sweeper_def)
  then have o: "open_dicts dk ?q = []" "set (open_dicts dk q3) = set (memory_open q3)"
    using 3(3) 4(6) by (auto simp: open_dicts_def store_open_def memory_open_def split: option.splits)
  have ok: "process_ok dk ?q"
    by (rule process_ok_same [OF 3(2)]) (use 4 o in simp_all)
  have calls: "pool_stop dk timed_out p = (Inr (), cs @ map Close (store_open p @ memory_open p), ?q)"
  proof -
    have "then_act (\<lambda>p. (Inr (), [], stop_store_sweeper timed_out p)) (then_act (close_current_store dk) (exit_memory dk)) q1 =
        (Inr (), map Close (store_open p @ memory_open p), ?q)"
      using 3(1) 4(1) 2(2) mem(1) by (simp add: then_act_def)
    from then_act_ok [where m = ?tables and p = p and k = "then_act (\<lambda>p. (Inr (), [], stop_store_sweeper timed_out p))
        (then_act (close_current_store dk) (exit_memory dk))", OF 1(1) this]
    show ?thesis by (simp only: pool_stop_def then_act_assoc)
  qed
  show thesis
    by (rule that [OF calls ok o(1)])
      (use started 1(4,5) 3(6,7) 2(3) 4(5) mem(2) in \<open>simp_all add: stop_store_sweeper_def\<close>)
qed

lemma flush_files_ok:
  assumes "process_ok dk p" and "flush_files p = (r, cs, q)"
  shows "process_ok dk q" and "set cs = Sync ` set (open_dicts dk p)" and "open_dicts dk q = open_dicts dk p"
proof -
  note e = process_okD(1) [OF assms(1)]
  have c: "cs = map (\<lambda>(f, d). Sync d) (rg_stores (pr_registry p))" and q: "q = written cs p"
    using assms(2) entries_flush [OF e] by (auto simp: flush_files_def)
  show "set cs = Sync ` set (open_dicts dk p)" using e by (auto simp: c entries_def image_image split_def)
  show o: "open_dicts dk q = open_dicts dk p" by (simp add: q written_def open_dicts_def store_open_def memory_open_def)
  show "process_ok dk q" by (rule process_ok_same [OF assms(1)]) (use e o in \<open>simp_all add: q written_def\<close>)
qed

lemma process_step_ok:
  assumes "process_step dk p q" and "process_ok dk p" and "disk_ok dk"
  shows "process_ok dk q"
  using assms(1)
proof cases
  case (stop timed_out r cs)
  then show ?thesis using pool_stop_ok [OF assms(2,3), of timed_out] by (metis prod.inject)
next
  case (collect d)
  have "open_dicts dk q = open_dicts dk p" by (simp add: collect(1) open_dicts_def store_open_def memory_open_def)
  then have "entries (pr_registry q) (set (open_dicts dk q))"
    using process_okD(1) [OF assms(2)] collect(2) open_subset_roots [of dk p]
    by (auto simp: collect(1) entries_def registry_ok_def live_def)
  moreover have "roots q = roots p" by (simp add: collect(1) roots_def)
  ultimately show ?thesis
    using process_okD(2-5) [OF assms(2)] collect by (intro process_okI) auto
qed (use assms(2,3) in \<open>auto simp: stop_store_sweeper_def intro: pool_start_ok set_store_config_ok get_store_ok
    checkpointer_ok flush_files_ok sweeper_ok\<close>)

lemma process_reachable_ok:
  assumes "process_reachable dk p" and "disk_ok dk"
  shows "process_ok dk p"
  using assms(1)
proof (induction rule: process_reachable.induct)
  case init
  show ?case
    by (rule process_okI)
      (auto simp: empty_process_def entries_def registry_ok_def empty_registry_def open_dicts_def store_open_def
        memory_open_def roots_def slots new_dict_def)
next
  case (step p q)
  then show ?case using assms(2) by (blast intro: process_step_ok)
qed

section \<open>What is written\<close>

lemma pool_start_again:
  assumes "disk_ok dk" and "pr_store_config p \<noteq> None" and "pool_start dk cfg p = (r, cs, q)"
  shows "pr_store q = pr_store p" and "pr_memory q = pr_memory p" and "cs = []"
proof -
  have "load_tables dk p = (Inr (), [], p)"
    using assms(1) by (auto simp: load_tables_def load_dict_def disk_ok_def)
  with assms(2,3) show "pr_store q = pr_store p" "pr_memory q = pr_memory p" "cs = []"
    by (auto simp: pool_start_def then_act_def register_def)
qed

definition demo_disk :: disk where
  "demo_disk = \<lparr>dk_disabled = False, dk_load = (\<lambda>_. Loaded), dk_close_ok = (\<lambda>_. True)\<rparr>"

text \<open>The pool is started with a store configuration and the saver is created.\<close>

definition demo_process :: process where
  "demo_process =
     snd (checkpointer demo_disk False (snd (snd (pool_start demo_disk (Some [(''index'', PNone)]) empty_process))))"

lemma demo_process_reachable: "process_reachable demo_disk demo_process"
proof -
  obtain r cs p where "pool_start demo_disk (Some [(''index'', PNone)]) empty_process = (r, cs, p)" by (metis prod_cases3)
  moreover from this have "process_reachable demo_disk p"
    using process_reachable.step [OF process_reachable.init process_step.start] by blast
  moreover obtain v q where "checkpointer demo_disk False p = (v, q)" by force
  ultimately show ?thesis
    using process_reachable.step [OF _ process_step.saver, of demo_disk p False v q] by (simp add: demo_process_def)
qed

lemma demo_disk_ok: "disk_ok demo_disk" "\<not> dk_disabled demo_disk"
  by (simp_all add: disk_ok_def demo_disk_def)

text \<open>C38: Nothing is lost while the files can be read and written. After every sequence of starts,
  stops, configurations of the store, requests for stores, savers and serializer views, flushes,
  sweeper events and collections of unreferenced dictionaries, each dictionary of an open singleton
  owns its file; a flush writes exactly those dictionaries; and stopping the pool closes, and so
  writes, all of them, without an exception, and leaves no file registered.\<close>

theorem shutdown_writes_files:
  assumes "process_reachable dk p" and "disk_ok dk"
  shows "(\<forall>d \<in> set (open_dicts dk p). current_owner (pr_registry p) (file_of d) = Some d) \<and>
    (\<exists>cs q. flush_files p = (Inr (), cs, q) \<and> set cs = Sync ` set (open_dicts dk p)) \<and>
    (\<exists>cs q. pool_stop dk timed_out p = (Inr (), cs, q) \<and> Close ` set (open_dicts dk p) \<subseteq> set cs \<and>
       rg_stores (pr_registry q) = [])"
proof (intro conjI)
  note ok = process_reachable_ok [OF assms]
  show "\<forall>d \<in> set (open_dicts dk p). current_owner (pr_registry p) (file_of d) = Some d"
    using entries_owner(1) [OF process_okD(1) [OF ok]] by blast
  obtain r cs q where f: "flush_files p = (r, cs, q)" by (metis prod_cases3)
  moreover have "r = Inr ()" using f by (auto simp: flush_files_def split: prod.splits)
  ultimately show "\<exists>cs q. flush_files p = (Inr (), cs, q) \<and> set cs = Sync ` set (open_dicts dk p)"
    using flush_files_ok(2) [OF ok f] by auto
  obtain cs q where s: "pool_stop dk timed_out p = (Inr (), cs @ map Close (store_open p @ memory_open p), q)"
    "process_ok dk q" "open_dicts dk q = []" "\<not> pr_started q"
    "pr_started p \<and> \<not> dk_disabled dk \<longrightarrow> cs = [Close global_store, Close global_retry_counter]"
    "pr_store_config q = pr_store_config p" "map_option so_id (pr_store q) = map_option so_id (pr_store p)"
    "map_option sv_id (pr_memory q) = map_option sv_id (pr_memory p)"
    by (rule pool_stop_ok [OF ok assms(2)])
  have "rg_stores (pr_registry q) = []" using process_okD(1) [OF s(2)] s(3) by (simp add: entries_def)
  moreover have "Close ` set (open_dicts dk p) \<subseteq> set (cs @ map Close (store_open p @ memory_open p))"
    using s(5) by (auto simp: open_dicts_def)
  ultimately show "\<exists>cs q. pool_stop dk timed_out p = (Inr (), cs, q) \<and> Close ` set (open_dicts dk p) \<subseteq> set cs \<and>
       rg_stores (pr_registry q) = []"
    using s(1) by blast
qed

theorem shutdown_writes_files_witness:
  "open_dicts demo_disk demo_process = [0, 1, 10, 11, 12, 21, 22, 23] \<and>
   current_owner (pr_registry demo_process) ''.langgraph_api/store.pckl'' = Some 10 \<and>
   (\<exists>cs q. pool_stop demo_disk False demo_process = (Inr (), cs, q) \<and> {Close 0, Close 10, Close 23} \<subseteq> set cs)"
proof -
  have o: "open_dicts demo_disk demo_process = [0, 1, 10, 11, 12, 21, 22, 23]" by code_simp
  have f: "file_of 10 = ''.langgraph_api/store.pckl''" by code_simp
  show ?thesis
    using shutdown_writes_files [OF demo_process_reachable demo_disk_ok(1), of False] unfolding o by (auto simp: f)
qed

text \<open>C39: After the pool is stopped and started again in the same process, the item store and the saver
  are not written any more. Both singletons are the closed ones of the first start, \<open>Store()\<close> and
  \<open>Checkpointer()\<close> still hand them out, and neither a flush nor the next stop touches their files:
  only the tables and the retry counters are written.\<close>

theorem restart_not_written:
  assumes "process_reachable dk p" and "disk_ok dk" and "\<not> dk_disabled dk"
    and "pr_store_config p \<noteq> None" and "pr_store p = Some s" and "pr_memory p = Some m"
    and "pool_stop dk timed_out p = (r, cs, p1)" and "pool_start dk cfg p1 = (r', cs', p2)"
  shows "fst (get_store dk thread p2) = Inr (so_id s) \<and> sv_id (fst (checkpointer dk False p2)) = sv_id m \<and>
    set (fst (snd (flush_files p2))) = {Sync global_store, Sync global_retry_counter} \<and>
    fst (snd (pool_stop dk timed_out' p2)) = [Close global_store, Close global_retry_counter]"
proof -
  obtain cs1 q where s: "pool_stop dk timed_out p = (Inr (), cs1 @ map Close (store_open p @ memory_open p), q)"
    "process_ok dk q" "open_dicts dk q = []" "\<not> pr_started q"
    "pr_started p \<and> \<not> dk_disabled dk \<longrightarrow> cs1 = [Close global_store, Close global_retry_counter]"
    "pr_store_config q = pr_store_config p" "map_option so_id (pr_store q) = map_option so_id (pr_store p)"
    "map_option sv_id (pr_memory q) = map_option sv_id (pr_memory p)"
    by (rule pool_stop_ok [OF process_reachable_ok [OF assms(1,2)] assms(2)])
  then have q: "p1 = q" using assms(7) by simp
  have again: "pr_store p2 = pr_store q" "pr_memory p2 = pr_memory q"
    using pool_start_again [OF assms(2) _ assms(8)] s(6) assms(4) by (simp_all add: q)
  note ok = pool_start_ok [OF s(2) assms(2) assms(8) [unfolded q]]
  have "store_open p2 = []" "memory_open p2 = []"
    using again s(3) by (simp_all add: store_open_def memory_open_def open_dicts_def)
  then have o: "open_dicts dk p2 = [global_store, global_retry_counter]" "store_open p2 @ memory_open p2 = []"
    using ok(3) assms(3) by (simp_all add: open_dicts_def)
  obtain s' m' where st: "pr_store p2 = Some s'" "so_id s' = so_id s" and me: "pr_memory p2 = Some m'" "sv_id m' = sv_id m"
    using again s(7,8) assms(5,6) by auto
  have "fst (get_store dk thread p2) = Inr (so_id s)" using st by (auto simp: get_store_def then_act_def Let_def update_conv')
  moreover have "sv_id (fst (checkpointer dk False p2)) = sv_id m" using me by (simp add: checkpointer_def get_memory_def)
  moreover have "set (fst (snd (flush_files p2))) = {Sync global_store, Sync global_retry_counter}"
    using flush_files_ok(2) [OF ok(1)] o(1) by (cases "flush_files p2") simp
  moreover have "fst (snd (pool_stop dk timed_out' p2)) = [Close global_store, Close global_retry_counter]"
    using pool_stop_ok [OF ok(1) assms(2), of timed_out'] o(2) ok(3) assms(3) by (metis append_Nil2 fst_conv list.map_disc_iff snd_conv)
  ultimately show ?thesis by blast
qed

theorem restart_not_written_witness:
  "fst (snd (pool_stop demo_disk False (snd (snd (pool_start demo_disk None (snd (snd (pool_stop demo_disk False demo_process)))))))) =
     [Close global_store, Close global_retry_counter]"
proof -
  have p: "pr_store_config demo_process \<noteq> None" "pr_store demo_process \<noteq> None" "pr_memory demo_process \<noteq> None" by code_simp+
  obtain r cs p1 where s: "pool_stop demo_disk False demo_process = (r, cs, p1)" by (metis prod_cases3)
  obtain r' cs' p2 where t: "pool_start demo_disk None p1 = (r', cs', p2)" by (metis prod_cases3)
  show ?thesis
    using restart_not_written [OF demo_process_reachable demo_disk_ok p(1) _ _ s t] p(2,3) by (auto simp: s t)
qed

lemma then_act_calls: "m p = (Inr (), cs, q) \<Longrightarrow> fst (snd (then_act m k p)) = cs @ fst (snd (k q))"
  by (simp add: then_act_def split_def)

text \<open>With file persistence disabled nothing is registered, but a stop still closes, and so writes, the
  tables.\<close>

lemma disabled_still_writes:
  assumes "dk_disabled dk" and "disk_ok dk"
  shows "hd (fst (snd (pool_stop dk timed_out (snd (snd (pool_start dk None empty_process)))))) = Close global_store"
proof -
  have c: "dk_close_ok dk d" and l: "load_dict dk d p \<in> {Loaded, NotFound}" for d p
    using assms(2) by (auto simp: disk_ok_def load_dict_def)
  have "snd (snd (pool_start dk None empty_process)) = empty_process\<lparr>pr_started := True\<rparr>"
    using assms(1) l
    by (simp add: pool_start_def then_act_def load_tables_def register_def register_persistent_dict_def empty_process_def)
  moreover have "empty_process\<lparr>pr_started := True\<rparr>\<lparr>pr_registry := stop_flush_loop empty_registry, pr_started := False\<rparr> = empty_process"
    by (simp add: empty_process_def stop_flush_loop_def empty_registry_def)
  moreover have "close_dict dk global_store empty_process =
      (Inr (), [Close global_store], snd (snd (close_dict dk global_store empty_process)))"
    using c by (simp add: close_dict_def close_persistent_dict_def empty_process_def empty_registry_def ownership_def
        current_owner_def dict_get_def)
  ultimately show ?thesis
    unfolding pool_stop_def
    by (simp add: then_act_calls [where cs = "[]"] then_act_calls [where cs = "[Close global_store]"] empty_process_def)
qed

text \<open>A close that fails leaves the files of the old store registered: the store of the next
  configuration is denied them, and nothing it holds is ever written.\<close>

definition failing_disk :: disk where
  "failing_disk = demo_disk\<lparr>dk_close_ok := (\<lambda>d. d \<noteq> 10)\<rparr>"

definition failed_process :: process where
  "failed_process = snd (snd (set_store_config failing_disk [(''index'', PNone)]
     (snd (snd (set_store_config failing_disk [(''index'', PNone)] demo_process)))))"

lemma failed_close_store: "map_option so_dicts (pr_store failed_process) = Some [26, 27, 28]"
  by code_simp

lemma failed_close_owner: "current_owner (pr_registry failed_process) (file_of 26) = Some 10"
  by code_simp

lemma failed_close_disowns: "ownership (pr_registry failed_process) 26 = Some False"
  by code_simp

text \<open>A checkpoint file that cannot be loaded is not removed: no file has the name of the prefix.\<close>

lemma broken_checkpoint_file_stays:
  assumes "saver_prefix \<notin> set (pr_files p)"
  shows "pr_files (saver_factory dk hook d p) = pr_files p"
  using assms by (simp add: saver_factory_def Let_def register_def removeAll_id)

text \<open>A sweep that fails does not end the sweeper; a stop request, once seen, or a cancellation does.\<close>

lemma sweeper_survives_failures:
  "sweep_loop False (SweepEnded r) t \<noteq> SweeperDone \<or> t = SweeperDone"
  "t \<noteq> SweeperDone \<Longrightarrow> sweep_loop True (SweepEnded r) (sweep_loop True StopSeen t) = SweeperDone"
  by (cases t; simp)+

end
