(* ===== verification/Savers_Agree.thy ===== *)
theory Savers_Agree
  imports Checkpoint_Safety Postgres_Safety
begin

text \<open>
  The two savers prune alike. A database mirrors the dictionaries of the in-memory saver when its rows
  are the stored checkpoints and the two agree on which versions are materialized; pruning both keeps
  the database a mirror.
\<close>

section \<open>A database that mirrors the dictionaries\<close>

definition row_of ::
  "(typed \<Rightarrow> (string \<times> version) list) \<Rightarrow> (typed \<Rightarrow> pyval) \<Rightarrow> (typed \<Rightarrow> string option) \<Rightarrow> string \<Rightarrow> string \<Rightarrow> string \<Rightarrow> cp_entry \<Rightarrow> pg_row" where
  "row_of versions meta run t ns x e =
     \<lparr>pg_thread = t, pg_ns = ns, pg_id = x, pg_parent = map_option id_str (ce_parent e),
      pg_versions = Some (versions (ce_checkpoint e)), pg_delta = Some (map fst (delta_counters (meta (ce_metadata e)))),
      pg_run = run (ce_metadata e)\<rparr>"

text \<open>What both savers assume of a checkpoint: its id and its parent are strings, the parent is not
  empty, and the versions are a dictionary.\<close>

definition plain_entry :: "(typed \<Rightarrow> (string \<times> version) list) \<Rightarrow> id_arg \<Rightarrow> cp_entry \<Rightarrow> bool" where
  "plain_entry versions i e \<longleftrightarrow> i = IdStr (id_str i) \<and> distinct (map fst (versions (ce_checkpoint e))) \<and>
     (case ce_parent e of None \<Rightarrow> True | Some p \<Rightarrow> p = IdStr (id_str p) \<and> id_str p \<noteq> [])"

definition mirrors ::
  "(typed \<Rightarrow> (string \<times> version) list) \<Rightarrow> (typed \<Rightarrow> pyval) \<Rightarrow> (typed \<Rightarrow> string option) \<Rightarrow> string \<Rightarrow> saver \<Rightarrow> pg_db \<Rightarrow> bool" where
  "mirrors versions meta run t s db \<longleftrightarrow>
     (\<forall>ns i e. map_of (cps_at s (IdStr t) ns) i = Some e \<longrightarrow> plain_entry versions i e \<and>
        (\<forall>(ch, v) \<in> set (versions (ce_checkpoint e)).
           materialized (cp_blobs s) (IdStr t, ns, ch, v) \<longleftrightarrow> (ns, ch, version_text v) \<in> set (pg_materialized t db))) \<and>
     (\<forall>r. r \<in> set (db_checkpoints db) \<and> pg_thread r = t \<longleftrightarrow>
        (\<exists>ns x e. map_of (cps_at s (IdStr t) ns) (IdStr x) = Some e \<and> r = row_of versions meta run t ns x e))"

lemma row_of_simps [simp]:
  "pg_thread (row_of versions meta run t ns x e) = t" "row_key (row_of versions meta run t ns x e) = (ns, x)"
  "pg_ns (row_of versions meta run t ns x e) = ns" "pg_id (row_of versions meta run t ns x e) = x"
  by (simp_all add: row_of_def row_key_def)

lemma mirrorsD:
  assumes "mirrors versions meta run t s db" and "map_of (cps_at s (IdStr t) ns) i = Some e"
  shows "i = IdStr (id_str i)" and "distinct (map fst (versions (ce_checkpoint e)))"
    and "ce_parent e = map_option (\<lambda>p. IdStr (id_str p)) (ce_parent e)" and "ce_parent e = Some p \<Longrightarrow> id_str p \<noteq> []"
    and "(ch, v) \<in> set (versions (ce_checkpoint e)) \<Longrightarrow>
      materialized (cp_blobs s) (IdStr t, ns, ch, v) \<longleftrightarrow> (ns, ch, version_text v) \<in> set (pg_materialized t db)"
proof -
  have *: "plain_entry versions i e \<and> (\<forall>(ch, v) \<in> set (versions (ce_checkpoint e)).
      materialized (cp_blobs s) (IdStr t, ns, ch, v) \<longleftrightarrow> (ns, ch, version_text v) \<in> set (pg_materialized t db))"
    using assms unfolding mirrors_def by blast
  then show "i = IdStr (id_str i)" "distinct (map fst (versions (ce_checkpoint e)))"
    "ce_parent e = map_option (\<lambda>p. IdStr (id_str p)) (ce_parent e)" "ce_parent e = Some p \<Longrightarrow> id_str p \<noteq> []"
    by (auto simp: plain_entry_def split: option.splits)
  show "(ch, v) \<in> set (versions (ce_checkpoint e)) \<Longrightarrow>
      materialized (cp_blobs s) (IdStr t, ns, ch, v) \<longleftrightarrow> (ns, ch, version_text v) \<in> set (pg_materialized t db)"
    using * by blast
qed

lemma mirror_row:
  assumes "pg_wf db" and "mirrors versions meta run t s db"
  shows "map_of (pg_rows t db) (ns, x) = Some r \<longleftrightarrow>
    (\<exists>e. map_of (cps_at s (IdStr t) ns) (IdStr x) = Some e \<and> r = row_of versions meta run t ns x e)"
proof -
  have "r \<in> set (db_checkpoints db) \<and> pg_thread r = t \<longleftrightarrow>
      (\<exists>ns x e. map_of (cps_at s (IdStr t) ns) (IdStr x) = Some e \<and> r = row_of versions meta run t ns x e)"
    using assms(2) unfolding mirrors_def by blast
  moreover have "row_key (row_of versions meta run t ns' x' e) = (ns, x) \<longleftrightarrow> ns' = ns \<and> x' = x" for ns' x' e by simp
  ultimately show ?thesis using map_of_rows [OF assms(1), of t "(ns, x)" r] by metis
qed

section \<open>Both walk the same way\<close>

lemma mirror_sat:
  assumes "pg_wf db" and "mirrors versions meta run t s db" and "map_of (cps_at s (IdStr t) ns) (IdStr x) = Some e"
  shows "pg_sat (pg_materialized t db) (row_of versions meta run t ns x e) ch =
    holds versions (cp_blobs s) (IdStr t) ns e ch"
proof (cases "map_of (versions (ce_checkpoint e)) ch")
  case None
  have "(ns, ch, ''None'') \<notin> set (pg_materialized t db)" using assms(1) by (auto simp: pg_wf_def pg_materialized_def)
  with None show ?thesis by (simp add: pg_sat_def holds_def row_version_def row_of_def opt_list_def)
next
  case (Some v)
  then show ?thesis
    using mirrorsD(5) [OF assms(2,3) map_of_SomeD [OF Some]]
    by (simp add: pg_sat_def holds_def row_version_def row_of_def opt_list_def)
qed

lemma mirror_needed:
  assumes "pg_wf db" and "mirrors versions meta run t s db" and "map_of (cps_at s (IdStr t) ns) (IdStr x) = Some e"
  shows "set (pg_needed (pg_materialized t db) (row_of versions meta run t ns x e)) =
    set (needed_channels versions meta (cp_blobs s) (IdStr t) ns e)"
proof -
  let ?vs = "versions (ce_checkpoint e)"
  have "(ch, v) \<in> set ?vs \<longleftrightarrow> map_of ?vs ch = Some v" for ch v
    using mirrorsD(2) [OF assms(2,3)] by simp
  then have "ch \<in> set (needed_channels versions meta (cp_blobs s) (IdStr t) ns e) \<longleftrightarrow>
      has_key (delta_counters (meta (ce_metadata e))) ch \<and> has_key ?vs ch \<and> \<not> holds versions (cp_blobs s) (IdStr t) ns e ch" for ch
    by (cases "map_of ?vs ch") (auto simp: needed_channels_def holds_def has_key_def image_iff)
  then show ?thesis
    using mirror_sat [OF assms] by (auto simp: pg_needed_def row_of_def opt_list_def has_key_def map_of_eq_None_iff)
qed

text \<open>A relation between two histories carries the needed checkpoints over.\<close>

lemma needs_sim:
  assumes "needs cps par sat p ch q" and "pred_option P p"
    and "\<And>i e. P i \<Longrightarrow> map_of cps i = Some e \<Longrightarrow>
      (\<exists>e'. map_of cps' (f i) = Some e' \<and> par' e' = map_option f (par e) \<and> sat' e' ch = sat e ch) \<and> pred_option P (par e)"
  shows "needs cps' par' sat' (map_option f p) ch (f q) \<and> P q"
  using assms
proof (induction rule: needs.induct)
  case (needs_here p e ch)
  then show ?case using needs.needs_here [of cps' "f p"] by (metis option.map(2) option.pred_inject(2))
next
  case (needs_up p e ch q)
  then obtain e' where e': "map_of cps' (f p) = Some e'" "par' e' = map_option f (par e)" "sat' e' ch = sat e ch" and
      par: "pred_option P (par e)" by auto
  have "needs cps' par' sat' (map_option f (par e)) ch (f q) \<and> P q"
    by (rule needs_up.IH [OF par]) (use needs_up.prems(2) in blast)
  with e' needs_up.hyps(2) show ?case using needs.needs_up [of cps' "f p" e' sat' ch par' "f q"] by simp
qed

lemma mirror_parent:
  assumes "mirrors versions meta run t s db" and "map_of (cps_at s (IdStr t) ns) (IdStr x) = Some e"
  shows "pg_parent_key (row_of versions meta run t ns x e) = map_option (\<lambda>i. (ns, id_str i)) (ce_parent e)"
  using mirrorsD(4) [OF assms] by (auto simp: pg_parent_key_def row_of_def split: option.splits)

lemma mirror_needs:
  assumes "pg_wf db" and "mirrors versions meta run t s db" and "map_of (cps_at s (IdStr t) ns) (IdStr x) = Some e"
  shows "needs (pg_rows t db) pg_parent_key (pg_sat (pg_materialized t db)) (pg_parent_key (row_of versions meta run t ns x e)) ch (ns, y) \<longleftrightarrow>
    needs (cps_at s (IdStr t) ns) ce_parent (holds versions (cp_blobs s) (IdStr t) ns) (ce_parent e) ch (IdStr y)" (is "?pg \<longleftrightarrow> ?mem")
proof
  let ?f = "\<lambda>i. (ns, id_str i)" and ?g = "\<lambda>k. IdStr (snd k)"
  note row = mirror_row [OF assms(1,2)] and sat = mirror_sat [OF assms(1,2)] and par = mirror_parent [OF assms(2)]
  assume ?mem
  then have "needs (pg_rows t db) pg_parent_key (pg_sat (pg_materialized t db)) (map_option ?f (ce_parent e)) ch (?f (IdStr y)) \<and> True"
  proof (rule needs_sim)
    fix i e'
    assume i: "map_of (cps_at s (IdStr t) ns) i = Some e'"
    then have "map_of (cps_at s (IdStr t) ns) (IdStr (id_str i)) = Some e'" using mirrorsD(1) [OF assms(2) i] by simp
    then show "(\<exists>r. map_of (pg_rows t db) (?f i) = Some r \<and> pg_parent_key r = map_option ?f (ce_parent e') \<and>
        pg_sat (pg_materialized t db) r ch = holds versions (cp_blobs s) (IdStr t) ns e' ch) \<and> pred_option (\<lambda>_. True) (ce_parent e')"
      using row [of ns "id_str i"] sat par by (auto simp: pred_option_def)
  qed (simp add: pred_option_def)
  then show ?pg by (simp add: par [OF assms(3)])
next
  let ?f = "\<lambda>i. (ns, id_str i)" and ?g = "\<lambda>k. IdStr (snd k)"
  note row = mirror_row [OF assms(1,2)] and sat = mirror_sat [OF assms(1,2)] and par = mirror_parent [OF assms(2)]
  have inv: "map_option ?g (map_option ?f (ce_parent e')) = ce_parent e'" if "map_of (cps_at s (IdStr t) ns) i = Some e'" for i e'
    using mirrorsD(3) [OF assms(2) that] by (simp add: option.map_comp comp_def)
  assume ?pg
  then have "needs (cps_at s (IdStr t) ns) ce_parent (holds versions (cp_blobs s) (IdStr t) ns)
      (map_option ?g (pg_parent_key (row_of versions meta run t ns x e))) ch (?g (ns, y)) \<and> fst (ns, y) = ns"
  proof (rule needs_sim)
    show "pred_option (\<lambda>k. fst k = ns) (pg_parent_key (row_of versions meta run t ns x e))"
      by (cases "ce_parent e") (simp_all add: par [OF assms(3)])
    fix k r
    assume k: "fst k = ns" "map_of (pg_rows t db) k = Some r"
    then obtain e' where e': "map_of (cps_at s (IdStr t) ns) (IdStr (snd k)) = Some e'" "r = row_of versions meta run t ns (snd k) e'"
      using row [of ns "snd k" r] by (cases k) auto
    then show "(\<exists>f. map_of (cps_at s (IdStr t) ns) (?g k) = Some f \<and> ce_parent f = map_option ?g (pg_parent_key r) \<and>
        holds versions (cp_blobs s) (IdStr t) ns f ch = pg_sat (pg_materialized t db) r ch) \<and> pred_option (\<lambda>k. fst k = ns) (pg_parent_key r)"
      using sat [OF e'(1)] par [OF e'(1)] inv [OF e'(1)] by (cases "ce_parent e'") simp_all
  qed
  then show ?mem by (simp add: par [OF assms(3)] inv [OF assms(3)])
qed

section \<open>Both keep the same checkpoints\<close>

lemma pg_latest_distinct: "distinct (map fst (pg_latest ks))"
proof -
  have "distinct (map fst l) \<Longrightarrow> distinct (map fst (fold (\<lambda>(ns, i) latest. AList.update ns (max i (dict_get latest ns [])) latest) ks l))" for l
    by (induction ks arbitrary: l) (auto simp: distinct_update)
  then show ?thesis by (simp add: pg_latest_def)
qed

lemma pg_latest_iff:
  assumes "(ns, i) \<in> set ks"
  shows "(ns, i) \<in> set (pg_latest ks) \<longleftrightarrow> (\<forall>j. (ns, j) \<in> set ks \<longrightarrow> j \<le> i)"
proof
  let ?S = "{j. (ns, j) \<in> set ks}"
  have "finite ?S" by (rule finite_subset [of _ "snd ` set ks"]) force+
  moreover have "?S \<noteq> {}" using assms by blast
  ultimately have m: "Max ?S \<in> ?S" "\<And>j. j \<in> ?S \<Longrightarrow> j \<le> Max ?S" by (rule Max_in, blast intro: Max_ge)
  then have "(ns, Max ?S) \<in> set (pg_latest ks)" by (intro pg_latest_max) auto
  moreover assume "(ns, i) \<in> set (pg_latest ks)"
  ultimately have "i = Max ?S" using pg_latest_distinct [of ks] by (metis map_of_is_SomeI option.inject)
  with m(2) show "\<forall>j. (ns, j) \<in> set ks \<longrightarrow> j \<le> i" by auto
qed (use pg_latest_max [OF assms] in blast)

text \<open>The rows of a thread that are no candidates of a pruning are the latest checkpoints.\<close>

lemma mirror_latest:
  assumes "pg_wf db" and "saver_wf s" and "mirrors versions meta run t s db" and "map_of (cps_at s (IdStr t) ns) (IdStr x) = Some e"
  shows "(ns, x) \<notin> set (pg_candidates None (pg_rows t db)) \<longleftrightarrow> IdStr x = fst (latest_of (cps_at s (IdStr t) ns))"
proof -
  let ?cps = "cps_at s (IdStr t) ns" and ?ks = "map fst (pg_rows t db)"
  have keys: "(ns, y) \<in> set ?ks \<longleftrightarrow> (\<exists>f. map_of ?cps (IdStr y) = Some f)" for y
  proof -
    have "(ns, y) \<in> set ?ks \<longleftrightarrow> (\<exists>r. map_of (pg_rows t db) (ns, y) = Some r)"
      using map_of_eq_None_iff [of "pg_rows t db" "(ns, y)"] by auto
    then show ?thesis using mirror_row [OF assms(1,3), of ns y] by blast
  qed
  have ne: "?cps \<noteq> []" using assms(4) by auto
  let ?l = "id_str (fst (latest_of ?cps))"
  note entry = latest_of_entry [OF ne wf_cps_at [OF assms(2)]]
  have l: "fst (latest_of ?cps) = IdStr ?l" by (rule mirrorsD(1) [OF assms(3) entry])
  have max: "y \<le> ?l" if "(ns, y) \<in> set ?ks" for y
    using that [unfolded keys] latest_of_max [OF ne, of "IdStr y"] by (auto dest: map_of_SomeD)
  have "(ns, x) \<in> set ?ks" using assms(4) unfolding keys by blast
  then have "(ns, x) \<notin> set (pg_candidates None (pg_rows t db)) \<longleftrightarrow> (\<forall>y. (ns, y) \<in> set ?ks \<longrightarrow> y \<le> x)"
    using pg_latest_iff [of ns x ?ks] by (simp add: pg_candidates_def)
  also have "\<dots> \<longleftrightarrow> x = ?l"
  proof
    have "(ns, ?l) \<in> set ?ks" unfolding keys using entry l by metis
    then show "\<forall>y. (ns, y) \<in> set ?ks \<longrightarrow> y \<le> x \<Longrightarrow> x = ?l"
      using max [OF \<open>(ns, x) \<in> set ?ks\<close>] by (meson order.antisym)
  qed (use max in blast)
  also have "\<dots> \<longleftrightarrow> IdStr x = fst (latest_of ?cps)" using l by (metis id_str_IdStr)
  finally show ?thesis .
qed

text \<open>A walk in the database stays in its namespace.\<close>

lemma pg_needs_ns:
  assumes "needs (pg_rows t db) pg_parent_key sat p ch q" and "pred_option (\<lambda>k. fst k = ns) p"
  shows "fst q = ns"
  using needs_sim [OF assms, of "pg_rows t db" id pg_parent_key sat]
  by (force simp: option.map_id pg_parent_key_def pg_rows_def row_key_def pred_option_def dest!: map_of_SomeD split: option.splits if_splits)

lemma mirror_kept:
  assumes "pg_wf db" and "saver_wf s" and "mirrors versions meta run t s db" and "map_of (cps_at s (IdStr t) ns) (IdStr x) = Some e"
  shows "row_of versions meta run t ns x e \<in> set (db_checkpoints (remove_thread_history None t db)) \<longleftrightarrow>
    kept_by versions meta s (IdStr t) ns (IdStr x)"
proof -
  let ?cps = "cps_at s (IdStr t) ns" and ?mats = "pg_materialized t db" and ?c = "set (pg_candidates None (pg_rows t db))"
  let ?row = "row_of versions meta run t"
  let ?needs = "needs (pg_rows t db) pg_parent_key (pg_sat ?mats)"
  have ne: "?cps \<noteq> []" using assms(4) by auto
  obtain l f where lf: "latest_of ?cps = (IdStr l, f)" and f: "map_of ?cps (IdStr l) = Some f"
    using latest_of_entry [OF ne wf_cps_at [OF assms(2)]] mirrorsD(1) [OF assms(3)] by (metis prod.collapse)
  have stored: "y \<in> set (db_checkpoints db) \<and> pg_thread y = t \<longleftrightarrow>
      (\<exists>ns x e. map_of (cps_at s (IdStr t) ns) (IdStr x) = Some e \<and> y = ?row ns x e)" for y
    using assms(3) unfolding mirrors_def by blast
  have same: "(\<exists>ch \<in> set (pg_needed ?mats (?row ns z g)). ?needs (pg_parent_key (?row ns z g)) ch (ns, x)) \<longleftrightarrow>
      (\<exists>ch \<in> set (needed_channels versions meta (cp_blobs s) (IdStr t) ns g).
        needs ?cps ce_parent (holds versions (cp_blobs s) (IdStr t) ns) (ce_parent g) ch (IdStr x))"
    if "map_of ?cps (IdStr z) = Some g" for z g
    by (simp add: mirror_needed [OF assms(1,3) that] mirror_needs [OF assms(1,3) that])
  have "(\<exists>y \<in> set (db_checkpoints db). pg_thread y = t \<and> row_key y \<notin> ?c \<and> (\<exists>ch \<in> set (pg_needed ?mats y). ?needs (pg_parent_key y) ch (ns, x))) \<longleftrightarrow>
      (\<exists>ch \<in> set (pg_needed ?mats (?row ns l f)). ?needs (pg_parent_key (?row ns l f)) ch (ns, x))" (is "?L \<longleftrightarrow> ?R")
  proof
    assume ?L
    then obtain y ch where y: "y \<in> set (db_checkpoints db) \<and> pg_thread y = t" "row_key y \<notin> ?c"
      "ch \<in> set (pg_needed ?mats y)" "?needs (pg_parent_key y) ch (ns, x)" by blast
    then obtain ns' z g where g: "map_of (cps_at s (IdStr t) ns') (IdStr z) = Some g" "y = ?row ns' z g"
      using stored by blast
    have "pred_option (\<lambda>k. fst k = ns') (pg_parent_key y)"
      using mirror_parent [OF assms(3) g(1)] g(2) by (cases "ce_parent g") simp_all
    from pg_needs_ns [OF y(4) this] have "ns' = ns" by simp
    then have "IdStr z = IdStr l" "g = f" using y(2) g f lf mirror_latest [OF assms(1-3), of ns z g] by simp_all
    with y(3,4) g(2) \<open>ns' = ns\<close> show ?R by auto
  next
    assume ?R
    moreover have "?row ns l f \<in> set (db_checkpoints db)" "row_key (?row ns l f) \<notin> ?c"
      using stored [of "?row ns l f"] f mirror_latest [OF assms(1-3) f] lf by auto
    ultimately show ?L by force
  qed
  moreover have "(ns, x) \<notin> ?c \<longleftrightarrow> IdStr x = IdStr l" using mirror_latest [OF assms] lf by simp
  moreover have "?row ns x e \<in> set (db_checkpoints db)" using stored assms(4) by blast
  ultimately show ?thesis
    using remove_thread_exact [OF assms(1), of "?row ns x e" t None] same [OF f] unfolding kept_by_iff lf by simp
qed

lemma mirror_prune_same:
  assumes "pg_wf db" and "saver_wf s" and "mirrors versions meta run t s db"
  shows "mirrors versions meta run t (prune_thread versions meta (IdStr t) s) (remove_thread_history None t db)"
    (is "mirrors _ _ _ _ ?s ?db")
proof -
  let ?row = "row_of versions meta run t"
  have at: "map_of (cps_at ?s (IdStr t) ns) i = Some e \<longleftrightarrow>
      kept_by versions meta s (IdStr t) ns i \<and> map_of (cps_at s (IdStr t) ns) i = Some e" for ns i e
    by (simp add: prune_cps_at [OF assms(2)] map_of_filter_key)
  have stored: "y \<in> set (db_checkpoints db) \<and> pg_thread y = t \<longleftrightarrow>
      (\<exists>ns x e. map_of (cps_at s (IdStr t) ns) (IdStr x) = Some e \<and> y = ?row ns x e)" for y
    using assms(3) unfolding mirrors_def by blast
  have "plain_entry versions i e \<and> (\<forall>(ch, v) \<in> set (versions (ce_checkpoint e)).
      materialized (cp_blobs ?s) (IdStr t, ns, ch, v) \<longleftrightarrow> (ns, ch, version_text v) \<in> set (pg_materialized t ?db))"
    if "map_of (cps_at ?s (IdStr t) ns) i = Some e" for ns i e
  proof
    from that have e: "map_of (cps_at s (IdStr t) ns) i = Some e" and k: "kept_by versions meta s (IdStr t) ns i"
      by (simp_all add: at)
    show "plain_entry versions i e" using assms(3) e unfolding mirrors_def by blast
    have x: "i = IdStr (id_str i)" by (rule mirrorsD(1) [OF assms(3) e])
    let ?r = "?row ns (id_str i) e"
    have r: "?r \<in> set (db_checkpoints ?db)" using mirror_kept [OF assms, of ns "id_str i" e] e k x by simp
    have "materialized (cp_blobs ?s) (IdStr t, ns, ch, v) \<longleftrightarrow> (ns, ch, version_text v) \<in> set (pg_materialized t ?db)"
      if v: "(ch, v) \<in> set (versions (ce_checkpoint e))" for ch v
    proof -
      have "map_of (cp_blobs ?s) (IdStr t, ns, ch, v) = map_of (cp_blobs s) (IdStr t, ns, ch, v)"
        using prune_keeps_data [OF assms(2), of "IdStr t" "IdStr t" versions ns meta] k e v unfolding keeps_data_def by auto
      then have "materialized (cp_blobs ?s) (IdStr t, ns, ch, v) = materialized (cp_blobs s) (IdStr t, ns, ch, v)"
        by (simp add: materialized_def)
      moreover have "row_version ?r ch = Some (version_text v)"
        using v mirrorsD(2) [OF assms(3) e] by (simp add: row_version_def row_of_def opt_list_def)
      then have "(ns, ch, version_text v) \<in> set (pg_materialized t ?db) \<longleftrightarrow> (ns, ch, version_text v) \<in> set (pg_materialized t db)"
        using sat_after [OF assms(1) r, of t ch] by (simp add: pg_sat_def)
      ultimately show ?thesis using mirrorsD(5) [OF assms(3) e v] by simp
    qed
    then show "\<forall>(ch, v) \<in> set (versions (ce_checkpoint e)).
      materialized (cp_blobs ?s) (IdStr t, ns, ch, v) \<longleftrightarrow> (ns, ch, version_text v) \<in> set (pg_materialized t ?db)" by blast
  qed
  moreover have "r \<in> set (db_checkpoints ?db) \<and> pg_thread r = t \<longleftrightarrow>
      (\<exists>ns x e. map_of (cps_at ?s (IdStr t) ns) (IdStr x) = Some e \<and> r = ?row ns x e)" for r
  proof -
    have "set (db_checkpoints ?db) \<subseteq> set (db_checkpoints db)" by (auto simp: remove_thread_checkpoints)
    then have "r \<in> set (db_checkpoints ?db) \<and> pg_thread r = t \<longleftrightarrow> r \<in> set (db_checkpoints ?db) \<and>
        (\<exists>ns x e. map_of (cps_at s (IdStr t) ns) (IdStr x) = Some e \<and> r = ?row ns x e)"
      using stored [of r] by blast
    also have "\<dots> \<longleftrightarrow> (\<exists>ns x e. map_of (cps_at ?s (IdStr t) ns) (IdStr x) = Some e \<and> r = ?row ns x e)"
      unfolding at using mirror_kept [OF assms] by blast
    finally show ?thesis .
  qed
  ultimately show ?thesis unfolding mirrors_def by blast
qed

lemma mirror_prune_other:
  assumes "saver_wf s" and "mirrors versions meta run u s db" and "u \<noteq> t"
  shows "mirrors versions meta run u (prune_thread versions meta (IdStr t) s) (remove_thread_history None t db)"
    (is "mirrors _ _ _ _ ?s ?db")
proof -
  have "cps_at ?s (IdStr u) ns = cps_at s (IdStr u) ns" for ns
    using prune_cps_at [OF assms(1), of versions meta "IdStr t" "IdStr u" ns] assms(3) by simp
  moreover have "materialized (cp_blobs ?s) (IdStr u, j) = materialized (cp_blobs s) (IdStr u, j)" for j
    using prune_other_threads(3) [of "IdStr u" "IdStr t"] assms(3) by (simp add: materialized_def)
  moreover have "r \<in> set (db_checkpoints ?db) \<and> pg_thread r = u \<longleftrightarrow> r \<in> set (db_checkpoints db) \<and> pg_thread r = u" for r
    using assms(3) by (auto simp: remove_thread_checkpoints)
  moreover have "pg_materialized u ?db = pg_materialized u db"
    using assms(3) by (auto simp: pg_materialized_def remove_thread_history_def Let_def delete_blobs_def delete_checkpoints_def
        delete_writes_def filter_filter intro!: arg_cong [of _ _ "map _"] filter_cong)
  ultimately show ?thesis using assms(2) unfolding mirrors_def by simp
qed

text \<open>C40: The two savers prune alike. When a database mirrors the in-memory saver, pruning the same
  threads with \<open>keep_latest\<close> succeeds in both, and the pruned database mirrors the pruned saver: the
  same checkpoints of every thread and namespace survive, with the same parents, versions, counters
  and runs, and the two still agree on which of their channel versions are materialized.\<close>

theorem savers_prune_alike:
  assumes "saver_wf s" and "pg_wf db" and "\<forall>u. mirrors versions meta run u s db"
  shows "\<exists>s' db'. saver_prune versions meta base (map IdStr ts) ''keep_latest'' s = Inr s' \<and>
    pg_aprune adelete_thread ts ''keep_latest'' db = Inr db' \<and> (\<forall>u. mirrors versions meta run u s' db')"
proof -
  have "\<forall>u. mirrors versions meta run u (fold (prune_thread versions meta) (map IdStr ts) s) (fold (remove_thread_history None) ts db)"
    using assms
  proof (induction ts arbitrary: s db)
    case (Cons t ts)
    have "mirrors versions meta run u (prune_thread versions meta (IdStr t) s) (remove_thread_history None t db)" for u
      using mirror_prune_same [OF Cons.prems(2,1)] mirror_prune_other [OF Cons.prems(1)] Cons.prems(3) by (cases "u = t") auto
    then show ?case
      using Cons.IH [OF prune_wf [OF Cons.prems(1)] remove_thread_wf [OF Cons.prems(2)]] by simp
  qed simp
  moreover have "ts = [] \<Longrightarrow> fold (remove_thread_history None) ts db = db" by simp
  ultimately show ?thesis by (auto simp: saver_prune_def pg_aprune_def remove_history_def)
qed

text \<open>The dictionaries of five checkpoints and their mirror.\<close>

definition demo_run :: "typed \<Rightarrow> string option" where
  "demo_run b = Some (snd b)"

definition demo_mirror :: pg_db where
  "demo_mirror =
     \<lparr>db_checkpoints = map (\<lambda>(i, e). row_of demo_versions demo_meta demo_run ''t'' [] (id_str i) e) (cps_at demo_saver (IdStr ''t'') []),
      db_blobs = map (\<lambda>((t, ns, ch, v), b). \<lparr>pb_thread = id_str t, pb_ns = ns, pb_channel = ch, pb_version = version_text v,
        pb_type = fst b, pb_data = snd b\<rparr>) (cp_blobs demo_saver),
      db_writes = []\<rparr>"

lemma demo_cps_at:
  "cps_at demo_saver (IdStr u) ns = (if u = ''t'' \<and> ns = [] then
     [demo_entry ''0'' ''r0'' None, demo_entry ''1'' ''r1'' (Some ''0''), demo_entry ''2'' ''r1'' (Some ''1''),
      demo_entry ''3'' ''r2'' (Some ''2''), demo_entry ''1b'' ''r1'' (Some ''0'')] else [])"
  by (simp add: cps_at_def demo_saver_def dict_get_def)

lemma mirrors_one_namespace:
  assumes "\<And>ns i e. map_of (cps_at s (IdStr t) ns) i = Some e \<longleftrightarrow> ns = n \<and> (i, e) \<in> set L"
    and "\<forall>(i, e) \<in> set L. plain_entry versions i e \<and> (\<forall>(ch, v) \<in> set (versions (ce_checkpoint e)).
      materialized (cp_blobs s) (IdStr t, n, ch, v) \<longleftrightarrow> (n, ch, version_text v) \<in> set (pg_materialized t db))"
    and "db_checkpoints db = map (\<lambda>(i, e). row_of versions meta run t n (id_str i) e) L"
  shows "mirrors versions meta run t s db"
  unfolding mirrors_def
proof (intro conjI allI impI)
  fix ns i e
  assume "map_of (cps_at s (IdStr t) ns) i = Some e"
  then have "ns = n" "(i, e) \<in> set L" by (simp_all add: assms(1))
  then show "plain_entry versions i e" and "\<forall>(ch, v) \<in> set (versions (ce_checkpoint e)).
      materialized (cp_blobs s) (IdStr t, ns, ch, v) \<longleftrightarrow> (ns, ch, version_text v) \<in> set (pg_materialized t db)"
    using assms(2) by blast+
next
  fix r
  have plain: "i = IdStr (id_str i)" if "(i, e) \<in> set L" for i e
    using assms(2) that by (auto simp: plain_entry_def)
  show "r \<in> set (db_checkpoints db) \<and> pg_thread r = t \<longleftrightarrow>
      (\<exists>ns x e. map_of (cps_at s (IdStr t) ns) (IdStr x) = Some e \<and> r = row_of versions meta run t ns x e)" (is "?L \<longleftrightarrow> ?R")
  proof
    assume ?L
    then obtain i e where "(i, e) \<in> set L" "r = row_of versions meta run t n (id_str i) e" by (auto simp: assms(3))
    with plain show ?R by (metis assms(1))
  next
    assume ?R
    then obtain x e where "(IdStr x, e) \<in> set L" "r = row_of versions meta run t n x e" by (auto simp: assms(1))
    then show ?L by (force simp: assms(3))
  qed
qed

lemma demo_mirrors: "mirrors demo_versions demo_meta demo_run u demo_saver demo_mirror"
proof (cases "u = ''t''")
  case True
  let ?L = "cps_at demo_saver (IdStr ''t'') []"
  show ?thesis
    unfolding True
  proof (rule mirrors_one_namespace)
    have "distinct (map fst ?L)" by code_simp
    then have "map_of ?L i = Some e \<longleftrightarrow> (i, e) \<in> set ?L" for i e by (rule map_of_eq_Some_iff)
    then show "map_of (cps_at demo_saver (IdStr ''t'') ns) i = Some e \<longleftrightarrow> ns = [] \<and> (i, e) \<in> set ?L" for ns i e
      by (cases "ns = []") (simp, simp add: demo_cps_at)
    show "\<forall>(i, e) \<in> set ?L. plain_entry demo_versions i e \<and> (\<forall>(ch, v) \<in> set (demo_versions (ce_checkpoint e)).
        materialized (cp_blobs demo_saver) (IdStr ''t'', [], ch, v) \<longleftrightarrow> ([], ch, version_text v) \<in> set (pg_materialized ''t'' demo_mirror))"
      by code_simp
  qed (simp add: demo_mirror_def)
next
  case False
  then show ?thesis
    by (auto simp: mirrors_def demo_cps_at demo_mirror_def demo_entry_def)
qed

theorem savers_prune_alike_witness:
  "\<exists>s' db'. saver_prune demo_versions demo_meta (\<lambda>_ s. s) [IdStr ''t''] ''keep_latest'' demo_saver = Inr s' \<and>
     pg_aprune (\<lambda>_ db. db) [''t''] ''keep_latest'' demo_mirror = Inr db' \<and>
     mirrors demo_versions demo_meta demo_run ''t'' s' db' \<and> map pg_id (db_checkpoints db') = [''1'', ''2'', ''3'']"
proof -
  have "pg_wf demo_mirror" by code_simp
  moreover have "map pg_id (db_checkpoints (remove_history [''t''] None demo_mirror)) = [''1'', ''2'', ''3'']" by code_simp
  ultimately show ?thesis
    using savers_prune_alike [OF demo_saver_wf, of demo_mirror demo_versions demo_meta demo_run "\<lambda>_ s. s" "[''t'']" "\<lambda>_ db. db"]
      demo_mirrors by (auto simp: pg_aprune_def)
qed

end
