(* ===== verification/Saver_Reads.thy ===== *)
theory Saver_Reads
  imports Checkpoint
begin

text \<open>
  Reading checkpoints (\<open>get_tuple\<close>, \<open>aget_tuple\<close>, \<open>alist\<close> and \<open>aget_iter\<close> of \<open>checkpoint.py\<close>). The base
  class reads the dictionaries: what it answers is a parameter, as is the decryption of a document,
  which belongs to \<open>langgraph_api\<close> and is off unless an encryption is configured.
\<close>

section \<open>Definitions\<close>

record 'c cp_tuple =
  ct_config :: dict
  ct_checkpoint :: 'c
  ct_metadata :: dict
  ct_parent_config :: "dict option"
  ct_pending_writes :: "(string \<times> pyval) list"

type_synonym decryption = "(dict \<Rightarrow> dict option res) option"

text \<open>A UUID given as checkpoint id is replaced by its text in a copy of the configuration.\<close>

definition text_checkpoint_id :: "dict \<Rightarrow> dict res" where
  "text_checkpoint_id config =
     (case map_of config ''configurable'' of
        None \<Rightarrow> Inl KeyError
      | Some (PDict c) \<Rightarrow>
          (case map_of c ''checkpoint_id'' of
             Some (PUUID u) \<Rightarrow>
               Inr (AList.update ''configurable'' (PDict (AList.update ''checkpoint_id'' (PStr (uuid_str u)) c)) config)
           | _ \<Rightarrow> Inr config)
      | Some _ \<Rightarrow> Inl AttributeError)"

definition saver_get_tuple ::
  "(dict \<Rightarrow> saver \<Rightarrow> 'c cp_tuple option res) \<Rightarrow> dict \<Rightarrow> saver \<Rightarrow> 'c cp_tuple option res" where
  "saver_get_tuple base_get config s = res_bind (text_checkpoint_id config) (\<lambda>c. base_get c s)"

definition decrypt_json :: "decryption \<Rightarrow> dict \<Rightarrow> dict res" where
  "decrypt_json dec data =
     (case dec of
        None \<Rightarrow> Inr data
      | Some f \<Rightarrow> res_bind (f data) (\<lambda>r. case r of None \<Rightarrow> Inl ValueError | Some d \<Rightarrow> Inr d))"

definition decrypt_tuple :: "decryption \<Rightarrow> 'c cp_tuple \<Rightarrow> 'c cp_tuple res" where
  "decrypt_tuple dec t = res_bind (decrypt_json dec (ct_metadata t)) (\<lambda>m. Inr (t\<lparr>ct_metadata := m\<rparr>))"

definition saver_aget_tuple ::
  "decryption \<Rightarrow> (dict \<Rightarrow> saver \<Rightarrow> 'c cp_tuple option res) \<Rightarrow> dict \<Rightarrow> saver \<Rightarrow> 'c cp_tuple option res" where
  "saver_aget_tuple dec base_get config s =
     res_bind (saver_get_tuple base_get config s) (\<lambda>r.
       case r of None \<Rightarrow> Inr None | Some t \<Rightarrow> res_bind (decrypt_tuple dec t) (\<lambda>t'. Inr (Some t')))"

text \<open>\<open>alist\<close> is a generator: what it yields before it ends or raises, and how it ends. The tuples are
  those the base class lists for the arguments.\<close>

fun saver_alist :: "decryption \<Rightarrow> 'c cp_tuple list \<Rightarrow> 'c cp_tuple list \<times> unit res" where
  "saver_alist dec [] = ([], Inr ())"
| "saver_alist dec (t # ts) =
     (case decrypt_tuple dec t of
        Inl e \<Rightarrow> ([], Inl e)
      | Inr t' \<Rightarrow> (case saver_alist dec ts of (ys, r) \<Rightarrow> (t' # ys, r)))"

definition saver_aget_iter ::
  "decryption \<Rightarrow> (dict \<Rightarrow> saver \<Rightarrow> 'c cp_tuple option res) \<Rightarrow> dict \<Rightarrow> saver \<Rightarrow> 'c cp_tuple list \<times> unit res" where
  "saver_aget_iter dec base_get config s =
     (case saver_aget_tuple dec base_get config s of
        Inl e \<Rightarrow> ([], Inl e)
      | Inr None \<Rightarrow> ([], Inr ())
      | Inr (Some t) \<Rightarrow> ([t], Inr ()))"

section \<open>Lemmas\<close>

text \<open>A checkpoint is found by its UUID exactly as by the text of it.\<close>

lemma get_by_uuid:
  assumes "map_of config ''configurable'' = Some (PDict c)" and "map_of c ''checkpoint_id'' = Some (PUUID u)"
  shows "saver_get_tuple base_get config s =
    saver_get_tuple base_get (AList.update ''configurable'' (PDict (AList.update ''checkpoint_id'' (PStr (uuid_str u)) c)) config) s"
  using assms by (simp add: saver_get_tuple_def text_checkpoint_id_def update_conv')

text \<open>Without encryption nothing is changed and nothing fails.\<close>

lemma decrypt_off [simp]: "decrypt_tuple None t = Inr t"
  by (simp add: decrypt_tuple_def decrypt_json_def res_defs)

lemma alist_off: "saver_alist None ts = (ts, Inr ())"
  by (induction ts) simp_all

lemma aget_off: "saver_aget_tuple None base_get config s = saver_get_tuple base_get config s"
  by (cases "saver_get_tuple base_get config s") (auto simp: saver_aget_tuple_def res_defs split: option.splits)

text \<open>A list ends with the first tuple that cannot be decrypted; what it yielded before are the tuples
  before it, decrypted, in their order.\<close>

lemma alist_prefix:
  assumes "saver_alist dec ts = (ys, r)"
  shows "map Inr ys = map (decrypt_tuple dec) (take (length ys) ts)"
    and "r = Inr () \<Longrightarrow> length ys = length ts"
    and "r = Inl e \<Longrightarrow> length ys < length ts \<and> decrypt_tuple dec (ts ! length ys) = Inl e"
proof -
  have "map Inr ys = map (decrypt_tuple dec) (take (length ys) ts) \<and> (r = Inr () \<longrightarrow> length ys = length ts) \<and>
      (\<forall>e. r = Inl e \<longrightarrow> length ys < length ts \<and> decrypt_tuple dec (ts ! length ys) = Inl e)"
    using assms
  proof (induction ts arbitrary: ys)
    case (Cons t ts)
    then show ?case by (auto split: sum.splits prod.splits)
  qed auto
  then show "map Inr ys = map (decrypt_tuple dec) (take (length ys) ts)" "r = Inr () \<Longrightarrow> length ys = length ts"
    "r = Inl e \<Longrightarrow> length ys < length ts \<and> decrypt_tuple dec (ts ! length ys) = Inl e" by blast+
qed

end
