(* ===== verification/Projection.thy ===== *)
theory Projection
  imports Prelude
begin

text \<open>
  What the iterators of the searches yield for each row (\<open>ops.py\<close>): all fields, the selected ones, or
  for threads also values extracted by path. A row is the dictionary its record stands for;
  \<open>extract_path_value\<close> belongs to \<open>langgraph_api\<close> and is a parameter.
\<close>

text \<open>\<open>{k: v for k, v in row.items() if k in select}\<close> when \<open>select\<close> is given and not empty.\<close>

definition select_fields :: "string list option \<Rightarrow> dict \<Rightarrow> dict" where
  "select_fields select row =
     (case select of Some (k # ks) \<Rightarrow> filter (\<lambda>(f, v). f \<in> set (k # ks)) row | _ \<Rightarrow> row)"

definition assistant_iterator :: "string list option \<Rightarrow> dict list \<Rightarrow> dict list" where
  "assistant_iterator select rows = map (select_fields select) rows"

definition run_iterator :: "string list option \<Rightarrow> dict list \<Rightarrow> dict list" where
  "run_iterator select rows = map (select_fields select) rows"

definition cron_iterator :: "string list option \<Rightarrow> dict list \<Rightarrow> dict list" where
  "cron_iterator select rows = map (select_fields select) rows"

text \<open>The extracted values are stored under \<open>extracted\<close>, and are read from the whole row.\<close>

definition extract_fields :: "(dict \<Rightarrow> string \<Rightarrow> pyval) \<Rightarrow> (string \<times> string) list \<Rightarrow> dict \<Rightarrow> dict" where
  "extract_fields extract_path_value extract row = map (\<lambda>(alias, path). (alias, extract_path_value row path)) extract"

definition thread_iterator ::
  "(dict \<Rightarrow> string \<Rightarrow> pyval) \<Rightarrow> string list option \<Rightarrow> (string \<times> string) list option \<Rightarrow> dict list \<Rightarrow> dict list" where
  "thread_iterator extract_path_value select extract rows =
     map (\<lambda>row. case extract of
            Some (x # xs) \<Rightarrow>
              AList.update ''extracted'' (PDict (extract_fields extract_path_value (x # xs) row)) (select_fields select row)
          | _ \<Rightarrow> select_fields select row) rows"

lemma map_of_select:
  "map_of (select_fields select row) k =
     (if (case select of Some ks \<Rightarrow> ks \<noteq> [] \<and> k \<notin> set ks | None \<Rightarrow> False) then None else map_of row k)"
  by (induction row) (auto simp: select_fields_def split: option.splits list.splits)

text \<open>A field that was not selected never reaches the caller, except through an extraction, which reads
  the whole row.\<close>

lemma thread_iterator_fields:
  assumes "i < length rows" and "k \<noteq> ''extracted''"
  shows "map_of (thread_iterator f select extract rows ! i) k = map_of (select_fields select (rows ! i)) k"
  using assms by (auto simp: thread_iterator_def update_conv' split: option.splits list.splits)

end
