(* ===== verification/Spec2Isabelle.thy ===== *)
theory Spec2Isabelle
  imports Stream_Safety Checkpoint_Sizes Assistant_Safety Item_Store_Safety Deploy_Stream Persistence Worker_Safety Postgres_Safety
    Lifespan Thread_Stream_Safety Thread_State Process_Safety Savers_Agree Saver_Reads Projection
begin

text \<open>
  Verification of the in-memory LangGraph runtime (\<open>src/src/langgraph_runtime_inmem\<close>).

  \<^bold>\<open>The program.\<close> The runtime is the storage and scheduling layer of a LangGraph server that keeps its
  data in one process. \<open>database.py\<close> holds the tables (assistants and their versions, threads, runs,
  crons), \<open>ops.py\<close> the operations on them, each called by a handler of the API with the caller's
  authorization; \<open>checkpoint.py\<close> stores the history of the threads and \<open>store.py\<close> the items of the
  long-term memory; \<open>inmem_stream.py\<close> distributes the events of running graphs to the clients;
  \<open>queue.py\<close> takes runs from \<open>Runs.next\<close> and starts a worker for each; \<open>lifespan.py\<close> starts and stops
  these parts; \<open>routes.py\<close> has the internal routes and the deploy operation, \<open>_persistence.py\<close> the
  registry of the files, \<open>postgres.py\<close> the saver used with a PostgreSQL checkpointer.

  \<^bold>\<open>Theories and sources.\<close>

  \<^item> \<open>Prelude\<close>: Python values, exceptions and dictionaries, UUIDs, timestamps.
  \<^item> \<open>Stream\<close>, \<open>Stream_Safety\<close> (\<open>inmem_stream.py\<close>): the class \<open>StreamManager\<close>, one definition for each
    method. Queue objects are cells of a heap, so that aliasing is visible. Shown: message ids
    increase strictly whatever the clock reads (the interface \<open>monotone_ids\<close>), a resumed stream is
    exactly what follows its cursor, a message reaches the subscribers of its run and nobody else, a
    deletion that waits for the run's context leaves nothing that can come back.
  \<^item> \<open>Size_Tracking\<close> (\<open>size_tracking.py\<close>), \<open>Checkpoint_Sizes\<close>: byte accounting as the interface
    \<open>size_ledger\<close>, interpreted by the tracker of the item store and by the per-thread aggregate of the
    saver, which is exact after every sequence of operations.
  \<^item> \<open>Delta_Walk\<close>, \<open>Checkpoint\<close>, \<open>Checkpoint_Safety\<close> (\<open>checkpoint.py\<close>), \<open>Postgres\<close>, \<open>Postgres_Safety\<close>
    (\<open>postgres.py\<close>): put, writes, deletion and pruning of both savers. The interface \<open>retention\<close> states
    what a deletion must keep so that every delta channel of a survivor can still be rebuilt; it is
    interpreted by \<open>prune\<close>, by \<open>delete_for_runs\<close> and by the transaction of the PostgreSQL saver.
    \<open>Savers_Agree\<close>: the two savers prune alike, a simulation between the dictionaries and the tables.
    \<open>Saver_Reads\<close>: reading checkpoints and the decryption of their metadata.
  \<^item> \<open>Filters\<close>, \<open>Thread_TTL\<close> (\<open>ops.py\<close>, \<open>thread_ttl.py\<close>): matching of metadata, validation and
    evaluation of authorization filters against the language a handler can write, and the policies
    of expiry.
  \<^item> \<open>Ops_State\<close> (\<open>database.py\<close>): the state \<open>sys\<close> of the process and the environment \<open>env\<close>; starting and
    stopping. \<open>Threads\<close>, \<open>Runs\<close>, \<open>Assistants\<close>, \<open>Crons\<close>: the classes of \<open>ops.py\<close>, one definition for each
    operation, with its guards, its early returns and its authorization. \<open>Projection\<close>: the fields a
    search yields. \<open>World\<close>: the interleavings
    of all operations by all callers, and the invariant of the tables.
    \<open>Thread_Safety\<close>, \<open>Sweep_Safety\<close>, \<open>Run_Safety\<close>, \<open>Run_Streams\<close>, \<open>Assistant_Safety\<close>: searches are
    complete, a filter hides a thread from every operation, deletions take everything that belongs to
    their object and nothing else, the sweep touches expired idle threads only and reaches all of
    them, \<open>Runs.next\<close> refines an abstract choice of the oldest run that is free to start and claims
    one whenever there is one in reach, status updates keep threads and runs consistent, a run whose
    context ends releases its state.
  \<^item> \<open>Thread_State\<close>, \<open>Thread_Streams\<close>, \<open>Thread_Stream_Safety\<close> (\<open>Threads.State\<close> and \<open>Threads.Stream\<close> of
    \<open>ops.py\<close>): updates by hand with their guards; a connection that follows all runs of a thread
    leaves no queue behind.
  \<^item> \<open>Item_Store\<close>, \<open>Item_Store_Safety\<close> (\<open>store.py\<close>): items, vectors, expiry and the sweep.
  \<^item> \<open>Worker_Queue\<close>, \<open>Worker_Safety\<close> (\<open>queue.py\<close>, \<open>metrics.py\<close>): the pool of runners as the interface
    \<open>runner_pool\<close>, one iteration of the scheduler, the callbacks, and how the scheduler ends. Shown:
    no runner is lost or given twice, the number of workers is bounded, and what an exception in an
    iteration does.
  \<^item> \<open>Persistence\<close> (\<open>_persistence.py\<close>): which dictionary owns a file; a file has one writer. \<open>Process\<close>,
    \<open>Process_Safety\<close> (the singletons of \<open>database.py\<close>, \<open>store.py\<close> and \<open>checkpoint.py\<close>): along every sequence
    of starts, stops and configurations the registered dictionaries are those of the open singletons,
    so that a stop writes all of them; and what is not written after a restart in the same process.
  \<^item> \<open>Deploy\<close>, \<open>Deploy_Stream\<close> (\<open>routes.py\<close>): the deploy operation, and what a client that resumes its
    event stream is sent. \<open>Lifespan\<close> (\<open>lifespan.py\<close>, \<open>retry.py\<close>): the order of start and stop, retries.

  \<^bold>\<open>How code becomes definitions.\<close>

  \<^item> An operation maps the state to a result and the state it leaves; an exception is the value
    \<open>Inl\<close> of its class, and the state is the one reached when it was raised.
  \<^item> An operation of \<open>ops.py\<close> runs without another one in between. Where the source awaits and the order
    matters (the live loop of a thread's stream, the workers, the deploy stream, the context of a
    run), the pieces between two awaits are steps of their own and the theorems quantify over what
    happens between them.
  \<^item> An id is the UUID it stands for. \<open>uuid4\<close> and the clocks are arbitrary sequences in the state; the
    clock may stand still or go back. Floating-point durations are exact rationals.
  \<^item> Every caller has an environment of its own; an authorization handler may refuse, give filters
    and change the metadata of the request. Dictionaries the API layer has validated are dictionaries.
    The checkpointer is the built-in one.
  \<^item> Code outside the repository is a parameter: the base classes of \<open>langgraph\<close>, graphs and their
    registry, codecs, JSON, \<open>croniter\<close>, the subprocess, the database server. What the code relies on is
    a named hypothesis where a theorem needs it, with a witness that it can hold.
  \<^item> All loops end by structural recursion or a measure: the ancestor walk by the checkpoints not yet
    visited, the batches by the length of the list, filters by the depth the code limits. No definition
    takes fuel. Loops that run as long as the server does are step relations, one step for each pass.

  \<^bold>\<open>Not modelled.\<close>

  \<^item> \<open>queue.py\<close>: \<open>asyncio.Runner\<close>, threads and executors of isolated loops, and the detector of blocking
    calls, which are operating-system machinery around a worker.
  \<^item> The contents of the files: \<open>PersistentDict\<close> belongs to \<open>langgraph\<close>, so that what loading gives and
    whether closing succeeds are parameters. The hook that decodes the payloads of a serializer view.
  \<^item> The clocks and pauses of the sweepers; \<open>BatchedStore\<close>, which only forwards.
  \<^item> The conversion of the \<open>Interrupt\<close> objects of \<open>langgraph\<close> to dictionaries (\<open>_patch_interrupt\<close>, a
    parameter), and text built for the log.
  \<^item> Cursors and the pipeline mode of \<open>postgres.py\<close>, the cancellation of the reader task in \<open>routes.py\<close>,
    and \<open>__init__.py\<close>, which only exports names.
\<close>

end
